theory Spec2Isabelle
  imports Main "HOL-Library.AList"
begin

section \<open>Data model of package event\<close>

text \<open>
  The theory embeds the two revisions of the Eventer that the repository holds:
  \<^verbatim>\<open>internal/observability/event/eventer.go\<close> (broker interface, gated filters, retried
  sends, the system-wide singleton) and the earlier revision kept without a file name,
  whose definitions carry the suffix \<open>0\<close> here (\<open>NewEventer0\<close>, \<open>Audit0\<close>, ...).
\<close>

type_synonym NodeID = string
type_synonym PipelineID = string
type_synonym SinkFormat = string
type_synonym RequestInfo = string

text \<open>
  \<^verbatim>\<open>type Type string\<close>: the constants are the cases of the switch over a sink's event types
  (they are pairwise different, Go rejects duplicate cases); \<open>OtherType\<close> is any other
  string. \<open>InfoType\<close> is the constant of the earlier revision, \<open>ObservationType\<close> and
  \<open>SystemType\<close> are those of eventer.go.
\<close>

datatype Type = EveryType | ErrorType | AuditType | ObservationType | SystemType
  | InfoType | OtherType string

text \<open>\<^verbatim>\<open>type SinkType string\<close>, with the constants \<^verbatim>\<open>StderrSink\<close> and \<^verbatim>\<open>FileSink\<close>.\<close>

datatype SinkType = StderrSink | FileSink | OtherSinkType string

definition JSONSinkFormat :: SinkFormat where
  "JSONSinkFormat = ''json''"

definition auditPipeline :: string where "auditPipeline = ''audit-pipeline''"
definition observationPipeline :: string where "observationPipeline = ''observation-pipeline''"
definition errPipeline :: string where "errPipeline = ''err-pipeline''"
definition sysPipeline :: string where "sysPipeline = ''sys-pipeline''"

record SinkConfig =
  Name :: string
  EventTypes :: "Type list"
  SinkType :: SinkType
  Format :: SinkFormat
  Path :: string
  FileName :: string
  RotateBytes :: int
  RotateDuration :: int
  RotateMaxFiles :: int

text \<open>The zero value of \<^verbatim>\<open>SinkConfig\<close> (a pipeline literal that leaves \<^verbatim>\<open>sinkConfig\<close> out).\<close>

definition zeroSinkConfig :: SinkConfig where
  "zeroSinkConfig = \<lparr>Name = [], EventTypes = [], SinkType = OtherSinkType [], Format = [],
     Path = [], FileName = [], RotateBytes = 0, RotateDuration = 0, RotateMaxFiles = 0\<rparr>"

text \<open>
  \<^verbatim>\<open>EventerConfig\<close> is declared outside the files at hand; these are the fields eventer.go
  reads and \<^verbatim>\<open>DefaultEventerConfig\<close> sets.
\<close>

record EventerConfig =
  AuditEnabled :: bool
  ObservationsEnabled :: bool
  SysEventsEnabled :: bool
  Sinks :: "SinkConfig list"

text \<open>
  Errors. \<open>Wrapf m e\<close> is \<^verbatim>\<open>fmt.Errorf("m: %w", e)\<close> (and \<^verbatim>\<open>errors.Wrap(e, m)\<close> in the
  earlier revision), \<open>Errorf m\<close> a \<^verbatim>\<open>fmt.Errorf\<close> that wraps nothing, \<open>InvalidParameterAt op m\<close>
  is \<^verbatim>\<open>errors.New(errors.InvalidParameter, op, m)\<close>, and \<open>External m\<close> is an error made by a
  collaborator (broker, id generator, validation, a gated filter, the context).
\<close>

datatype error = ErrInvalidParameter | External string | Errorf string
  | Wrapf string error | InvalidParameterAt string string

text \<open>The nodes the Eventer hands to the broker.\<close>

datatype Writer = SerializedStderr

datatype Node =
    JSONFormatter
  | WriterSink SinkFormat Writer
  | FileSinkNode SinkFormat string string int int int
  | GatedFilter

fun isSink :: "Node \<Rightarrow> bool" where
  "isSink (WriterSink f w) = True"
| "isSink (FileSinkNode f p n b d m) = True"
| "isSink JSONFormatter = False"
| "isSink GatedFilter = False"

text \<open>\<^verbatim>\<open>eventlogger.Pipeline\<close>, as the Eventer fills it in.\<close>

record Pipeline =
  EventType :: Type
  PipelineID :: PipelineID
  NodeIDs :: "NodeID list"

text \<open>
  \<^verbatim>\<open>gated.Payload\<close>: the header and detail maps may be nil (\<open>None\<close>); a map is kept as an
  association list, read with \<open>map_of\<close> and stored into with \<open>AList.update\<close>. A field value is
  a string, a request-info pointer (possibly nil) or something else.
\<close>

datatype FieldValue = StringValue string | RequestInfoValue "RequestInfo option"
  | OtherValue string

record Payload =
  ID :: string
  Flush :: bool
  Header :: "(string \<times> FieldValue) list option"
  Detail :: "(string \<times> FieldValue) list option"

text \<open>
  What is handed to \<^verbatim>\<open>Broker.Send\<close> as \<^verbatim>\<open>interface{}\<close>: an audit, error, system or info event
  (their structs are declared elsewhere; \<open>'ev\<close> stands for their content), or the gated
  payload of an observation.
\<close>

datatype 'ev SendPayload = AuditEvent 'ev | ErrEvent 'ev | SysEvent 'ev | InfoEvent 'ev
  | GatedPayload Payload

text \<open>
  The broker is an interface (eventer.go) whose implementation lives in a library. Its
  state is the sequence of calls made on it, oldest first; what each call answers is
  given by the environment below.
\<close>

datatype 'ev BrokerCall =
    StopTimeAt nat
  | RegisterNode NodeID Node
  | RegisterPipeline Pipeline
  | SetSuccessThreshold Type nat
  | Send Type "'ev SendPayload"

type_synonym 'ev broker = "'ev BrokerCall list"

definition NewBroker :: "'ev broker" where
  "NewBroker = []"

record Status =
  Warnings :: "error list"

datatype LogLine = LogError string error | LogWarn string "error list"

type_synonym Logger = "LogLine list"

record pipeline =
  eventType :: Type
  fmtId :: NodeID
  sinkId :: NodeID
  gateId :: NodeID
  sinkConfig :: SinkConfig

text \<open>
  The Eventer of eventer.go. A flushable node is the gated filter the constructor
  created; it is identified here by the NodeID it was registered under.
\<close>

record 'ev Eventer =
  broker :: "'ev broker"
  flushableNodes :: "NodeID list"
  conf :: EventerConfig
  logger :: Logger
  auditPipelines :: "pipeline list"
  observationPipelines :: "pipeline list"
  errPipelines :: "pipeline list"

text \<open>The options \<^verbatim>\<open>getOpts\<close> collects; a zero \<open>withNow\<close> is the zero time.\<close>

record 'ev options =
  withEventer :: "'ev Eventer option"
  withEventerConfig :: "EventerConfig option"
  withBroker :: "'ev broker option"
  withNow :: nat

definition getDefaultOptions :: "'ev options" where
  "getDefaultOptions = \<lparr>withEventer = None, withEventerConfig = None, withBroker = None,
     withNow = 0\<rparr>"

text \<open>
  The collaborators of the Eventer that the files at hand call but do not define:
  \<^item> \<open>newId k prefix\<close>: the result of the \<open>k\<close>-th call of \<^verbatim>\<open>newId\<close> during a construction;
  \<^item> \<open>Validate\<close>: \<^verbatim>\<open>EventerConfig.Validate\<close>;
  \<^item> \<open>respond calls c\<close>: the error (if any) the broker returns for the registration call
    \<open>c\<close> after the calls \<open>calls\<close>;
  \<^item> \<open>sendResult calls t p\<close>: what \<^verbatim>\<open>Broker.Send\<close> returns after the calls \<open>calls\<close>;
  \<^item> \<open>stdRetryCount\<close>, \<open>transient\<close>, \<open>ctxErr\<close>: the retry bound, the classification of a
    send error as retryable, and the context's error after a given number of attempts.
\<close>

record 'ev env =
  newId :: "nat \<Rightarrow> string \<Rightarrow> error + string"
  Validate :: "EventerConfig \<Rightarrow> error option"
  respond :: "'ev broker \<Rightarrow> 'ev BrokerCall \<Rightarrow> error option"
  sendResult :: "'ev broker \<Rightarrow> Type \<Rightarrow> 'ev SendPayload \<Rightarrow> Status \<times> error option"
  stdRetryCount :: nat
  transient :: "error \<Rightarrow> bool"
  ctxErr :: "nat \<Rightarrow> error option"

section \<open>NewEventer (eventer.go)\<close>

text \<open>The state a construction threads: ids generated so far and the broker.\<close>

record 'ev building =
  idCount :: nat
  brk :: "'ev broker"

definition genId :: "'ev env \<Rightarrow> string \<Rightarrow> 'ev building \<Rightarrow> error + (string \<times> 'ev building)" where
  "genId env prefix st =
     (case newId env (idCount st) prefix of
        Inl err \<Rightarrow> Inl err
      | Inr i \<Rightarrow> Inr (i, st\<lparr>idCount := Suc (idCount st)\<rparr>))"

definition brokerCall :: "'ev env \<Rightarrow> 'ev BrokerCall \<Rightarrow> 'ev building \<Rightarrow> error option \<times> 'ev building" where
  "brokerCall env c st = (respond env (brk st) c, st\<lparr>brk := brk st @ [c]\<rparr>)"

definition DefaultSink :: SinkConfig where
  "DefaultSink = \<lparr>Name = ''default'', EventTypes = [EveryType], SinkType = StderrSink,
     Format = JSONSinkFormat, Path = [], FileName = [], RotateBytes = 0,
     RotateDuration = 0, RotateMaxFiles = 0\<rparr>"

definition DefaultEventerConfig :: EventerConfig where
  "DefaultEventerConfig = \<lparr>AuditEnabled = False, ObservationsEnabled = True,
     SysEventsEnabled = True, Sinks = [DefaultSink]\<rparr>"

text \<open>The four flags the loop over \<^verbatim>\<open>s.EventTypes\<close> sets.\<close>

record addTo =
  addToAudit :: bool
  addToObservation :: bool
  addToErr :: bool
  addToSys :: bool

fun eventTypesLoop :: "Type list \<Rightarrow> addTo \<Rightarrow> addTo" where
  "eventTypesLoop [] f = f"
| "eventTypesLoop (t # ts) f = eventTypesLoop ts
     (case t of
        EveryType \<Rightarrow> f\<lparr>addToAudit := True, addToObservation := True, addToErr := True,
                       addToSys := True\<rparr>
      | ErrorType \<Rightarrow> f\<lparr>addToErr := True\<rparr>
      | AuditType \<Rightarrow> f\<lparr>addToAudit := True\<rparr>
      | ObservationType \<Rightarrow> f\<lparr>addToObservation := True\<rparr>
      | SystemType \<Rightarrow> f\<lparr>addToSys := True\<rparr>
      | _ \<Rightarrow> f)"

definition noneAdded :: addTo where
  "noneAdded = \<lparr>addToAudit = False, addToObservation = False, addToErr = False,
     addToSys = False\<rparr>"

text \<open>The four local pipeline slices of \<^verbatim>\<open>NewEventer\<close>.\<close>

record pipelineLists =
  auditPs :: "pipeline list"
  observationPs :: "pipeline list"
  errPs :: "pipeline list"
  sysPs :: "pipeline list"

definition noPipelines :: pipelineLists where
  "noPipelines = \<lparr>auditPs = [], observationPs = [], errPs = [], sysPs = []\<rparr>"

text \<open>
  The first half of the body of the loop over \<^verbatim>\<open>c.Sinks\<close>: build the sink node, name it,
  register it. \<open>allSinkFilenames\<close> is the map of that name; the loop looks a file sink's
  \<^verbatim>\<open>Path+FileName\<close> up in it and nothing in eventer.go stores into it.
\<close>

definition registerSink ::
  "'ev env \<Rightarrow> (string \<rightharpoonup> bool) \<Rightarrow> SinkConfig \<Rightarrow> 'ev building \<Rightarrow> error + (NodeID \<times> 'ev building)" where
  "registerSink env allSinkFilenames s st =
     (case (case SinkType s of
              StderrSink \<Rightarrow>
                (case genId env ''stderr'' st of
                   Inl err \<Rightarrow> Inl (Wrapf ''event.NewEventer'' err)
                 | Inr (i, st') \<Rightarrow> Inr (WriterSink (Format s) SerializedStderr, i, st'))
            | _ \<Rightarrow>
                if allSinkFilenames (Path s @ FileName s) \<noteq> None
                then Inl (Errorf (''event.NewEventer: duplicate file sink: '' @ Path s @ '' '' @ FileName s))
                else
                  (case genId env (''file_'' @ Path s @ ''_'' @ FileName s @ ''_'') st of
                     Inl err \<Rightarrow> Inl (Wrapf ''event.NewEventer'' err)
                   | Inr (i, st') \<Rightarrow>
                       Inr (FileSinkNode (Format s) (Path s) (FileName s) (RotateBytes s)
                              (RotateDuration s) (RotateMaxFiles s), i, st'))) of
        Inl err \<Rightarrow> Inl err
      | Inr (sinkNode, sid, st') \<Rightarrow>
          (case brokerCall env (RegisterNode sid sinkNode) st' of
             (Some err, st'') \<Rightarrow>
               Inl (Wrapf (''event.NewEventer: failed to register sink node '' @ sid) err)
           | (None, st'') \<Rightarrow> Inr (sid, st'')))"

text \<open>The second half: the pipelines the sink joins.\<close>

definition addPipelines :: "NodeID \<Rightarrow> NodeID \<Rightarrow> SinkConfig \<Rightarrow> pipelineLists \<Rightarrow> pipelineLists" where
  "addPipelines jsonfmtId sid s pl =
     (let f = eventTypesLoop (EventTypes s) noneAdded;
          pl1 = (if addToAudit f
                 then pl\<lparr>auditPs := auditPs pl @ [\<lparr>eventType = AuditType, fmtId = jsonfmtId,
                            sinkId = sid, gateId = [], sinkConfig = s\<rparr>]\<rparr>
                 else pl);
          pl2 = (if addToObservation f
                 then pl1\<lparr>observationPs := observationPs pl1 @ [\<lparr>eventType = ObservationType,
                            fmtId = jsonfmtId, sinkId = sid, gateId = [], sinkConfig = s\<rparr>]\<rparr>
                 else pl1);
          pl3 = (if addToErr f
                 then pl2\<lparr>errPs := errPs pl2 @ [\<lparr>eventType = ErrorType, fmtId = jsonfmtId,
                            sinkId = sid, gateId = [], sinkConfig = s\<rparr>]\<rparr>
                 else pl2)
      in if addToSys f
         then pl3\<lparr>sysPs := sysPs pl3 @ [\<lparr>eventType = SystemType, fmtId = jsonfmtId,
                    sinkId = sid, gateId = [], sinkConfig = zeroSinkConfig\<rparr>]\<rparr>
         else pl3)"

fun sinksLoop ::
  "'ev env \<Rightarrow> (string \<rightharpoonup> bool) \<Rightarrow> NodeID \<Rightarrow> SinkConfig list \<Rightarrow> pipelineLists \<Rightarrow> 'ev building
     \<Rightarrow> error + (pipelineLists \<times> 'ev building)" where
  "sinksLoop env allSinkFilenames jsonfmtId [] pl st = Inr (pl, st)"
| "sinksLoop env allSinkFilenames jsonfmtId (s # ss) pl st =
     (case registerSink env allSinkFilenames s st of
        Inl err \<Rightarrow> Inl err
      | Inr (sid, st') \<Rightarrow>
          sinksLoop env allSinkFilenames jsonfmtId ss (addPipelines jsonfmtId sid s pl) st')"

text \<open>
  The loops over \<^verbatim>\<open>auditPipelines\<close> and \<^verbatim>\<open>observationPipelines\<close> have the same body up to
  the id prefixes and one message: a gated filter is created, kept as flushable, named,
  registered, and a pipeline gate, formatter, sink is registered. The body returns the
  gate's id. The loop variable is a copy, so the \<^verbatim>\<open>gateId\<close> stored in it is not seen in
  the slice. (The source appends the filter to \<^verbatim>\<open>e.flushableNodes\<close> before it names it;
  when a later step of the body fails the Eventer is dropped with its list.)
\<close>

definition gatedBody ::
  "'ev env \<Rightarrow> string \<Rightarrow> string \<Rightarrow> string \<Rightarrow> pipeline \<Rightarrow> 'ev building
     \<Rightarrow> error + (NodeID \<times> 'ev building)" where
  "gatedBody env gatePrefix pipePrefix msg p st =
     (case genId env gatePrefix st of
        Inl err \<Rightarrow> Inl (Wrapf ''event.NewEventer'' err)
      | Inr (gid, st1) \<Rightarrow>
          (case brokerCall env (RegisterNode gid GatedFilter) st1 of
             (Some err, st2) \<Rightarrow>
               Inl (Wrapf ''event.NewEventer: unable to register audit gated filter'' err)
           | (None, st2) \<Rightarrow>
               (case genId env pipePrefix st2 of
                  Inl err \<Rightarrow> Inl (Wrapf ''event.NewEventer'' err)
                | Inr (pipeId, st3) \<Rightarrow>
                    (case brokerCall env (RegisterPipeline \<lparr>EventType = eventType p,
                            PipelineID = pipeId, NodeIDs = [gid, fmtId p, sinkId p]\<rparr>) st3 of
                       (Some err, st4) \<Rightarrow> Inl (Wrapf (''event.NewEventer: '' @ msg) err)
                     | (None, st4) \<Rightarrow> Inr (gid, st4)))))"

fun gatedLoop ::
  "'ev env \<Rightarrow> string \<Rightarrow> string \<Rightarrow> string \<Rightarrow> pipeline list \<Rightarrow> NodeID list \<Rightarrow> 'ev building
     \<Rightarrow> error + (NodeID list \<times> 'ev building)" where
  "gatedLoop env gatePrefix pipePrefix msg [] fl st = Inr (fl, st)"
| "gatedLoop env gatePrefix pipePrefix msg (p # ps) fl st =
     (case gatedBody env gatePrefix pipePrefix msg p st of
        Inl err \<Rightarrow> Inl err
      | Inr (gid, st') \<Rightarrow> gatedLoop env gatePrefix pipePrefix msg ps (fl @ [gid]) st')"

text \<open>
  The loops over \<^verbatim>\<open>errPipelines\<close> and \<^verbatim>\<open>sysPipelines\<close>: a pipeline formatter, sink is
  registered and the sink's id is appended to \<^verbatim>\<open>errNodeIds\<close> (\<^verbatim>\<open>sysNodeIds\<close>).
\<close>

definition plainBody ::
  "'ev env \<Rightarrow> string \<Rightarrow> string \<Rightarrow> pipeline \<Rightarrow> 'ev building \<Rightarrow> error + 'ev building" where
  "plainBody env pipePrefix msg p st =
     (case genId env pipePrefix st of
        Inl err \<Rightarrow> Inl (Wrapf ''event.NewEventer'' err)
      | Inr (pipeId, st1) \<Rightarrow>
          (case brokerCall env (RegisterPipeline \<lparr>EventType = eventType p,
                  PipelineID = pipeId, NodeIDs = [fmtId p, sinkId p]\<rparr>) st1 of
             (Some err, st2) \<Rightarrow> Inl (Wrapf (''event.NewEventer: '' @ msg) err)
           | (None, st2) \<Rightarrow> Inr st2))"

fun plainLoop ::
  "'ev env \<Rightarrow> string \<Rightarrow> string \<Rightarrow> pipeline list \<Rightarrow> NodeID list \<Rightarrow> 'ev building
     \<Rightarrow> error + (NodeID list \<times> 'ev building)" where
  "plainLoop env pipePrefix msg [] nodeIds st = Inr (nodeIds, st)"
| "plainLoop env pipePrefix msg (p # ps) nodeIds st =
     (case plainBody env pipePrefix msg p st of
        Inl err \<Rightarrow> Inl err
      | Inr st' \<Rightarrow> plainLoop env pipePrefix msg ps (nodeIds @ [sinkId p]) st')"

text \<open>The configuration after the default sink is put in for an empty sink list.\<close>

definition withDefaultSink :: "EventerConfig \<Rightarrow> EventerConfig" where
  "withDefaultSink c = (if length (Sinks c) = 0 then c\<lparr>Sinks := Sinks c @ [DefaultSink]\<rparr> else c)"

text \<open>The broker of the new Eventer, after \<^verbatim>\<open>StopTimeAt\<close> when \<^verbatim>\<open>WithNow\<close> was given.\<close>

definition startBuilding :: "'ev env \<Rightarrow> 'ev options \<Rightarrow> 'ev building" where
  "startBuilding env opts =
     (let b = (case withBroker opts of Some b \<Rightarrow> b | None \<Rightarrow> NewBroker);
          st = \<lparr>idCount = 0, brk = b\<rparr>
      in if withNow opts \<noteq> 0 then snd (brokerCall env (StopTimeAt (withNow opts)) st) else st)"

text \<open>From the formatter node to the three checks after the loop over the sinks.\<close>

definition wireSinks ::
  "'ev env \<Rightarrow> EventerConfig \<Rightarrow> 'ev building \<Rightarrow> error + (pipelineLists \<times> 'ev building)" where
  "wireSinks env c st =
     (case genId env ''json'' st of
        Inl err \<Rightarrow> Inl (Wrapf ''event.NewEventer'' err)
      | Inr (jsonfmtId, st1) \<Rightarrow>
          (case brokerCall env (RegisterNode jsonfmtId JSONFormatter) st1 of
             (Some err, st2) \<Rightarrow> Inl (Wrapf ''event.NewEventer: failed to register json node'' err)
           | (None, st2) \<Rightarrow>
               (case sinksLoop env Map.empty jsonfmtId (Sinks c) noPipelines st2 of
                  Inl err \<Rightarrow> Inl err
                | Inr (pl, st3) \<Rightarrow>
                    if AuditEnabled c \<and> length (auditPs pl) = 0
                    then Inl (Wrapf ''event.NewEventer: audit events enabled but no sink defined for it'' ErrInvalidParameter)
                    else if ObservationsEnabled c \<and> length (observationPs pl) = 0
                    then Inl (Wrapf ''event.NewEventer: observation events enabled but no sink defined for it'' ErrInvalidParameter)
                    else if SysEventsEnabled c \<and> length (sysPs pl) = 0
                    then Inl (Wrapf ''event.NewEventer: system events enabled but no sink defined for it'' ErrInvalidParameter)
                    else Inr (pl, st3))))"

text \<open>The four pipeline loops and the success threshold of error events.\<close>

definition wirePipelines ::
  "'ev env \<Rightarrow> pipelineLists \<Rightarrow> 'ev building \<Rightarrow> error + (NodeID list \<times> 'ev building)" where
  "wirePipelines env pl st =
     (case gatedLoop env ''gated-audit'' auditPipeline ''failed to register audit pipeline''
             (auditPs pl) [] st of
        Inl err \<Rightarrow> Inl err
      | Inr (fl1, st1) \<Rightarrow>
          (case gatedLoop env ''gated-observation'' observationPipeline
                  ''failed to register observation pipeline'' (observationPs pl) fl1 st1 of
             Inl err \<Rightarrow> Inl err
           | Inr (fl2, st2) \<Rightarrow>
               (case plainLoop env errPipeline ''failed to register err pipeline'' (errPs pl) [] st2 of
                  Inl err \<Rightarrow> Inl err
                | Inr (errNodeIds, st3) \<Rightarrow>
                    (case plainLoop env sysPipeline ''failed to register sys pipeline'' (sysPs pl) [] st3 of
                       Inl err \<Rightarrow> Inl err
                     | Inr (sysNodeIds, st4) \<Rightarrow>
                         (case brokerCall env (SetSuccessThreshold ErrorType (length errNodeIds)) st4 of
                            (Some err, st5) \<Rightarrow>
                              Inl (Wrapf ''event.NewEventer: failed to set success threshold for error events'' err)
                          | (None, st5) \<Rightarrow> Inr (fl2, st5))))))"

definition NewEventer ::
  "'ev env \<Rightarrow> Logger option \<Rightarrow> unit option \<Rightarrow> EventerConfig \<Rightarrow> 'ev options \<Rightarrow> error + 'ev Eventer" where
  "NewEventer env log serializationLock c0 opts =
     (if log = None then Inl (Wrapf ''event.NewEventer: missing logger'' ErrInvalidParameter)
      else if serializationLock = None
      then Inl (Wrapf ''event.NewEventer: missing serialization lock'' ErrInvalidParameter)
      else
        (let c = withDefaultSink c0 in
         case Validate env c of
           Some err \<Rightarrow> Inl (Wrapf ''event.NewEventer'' err)
         | None \<Rightarrow>
             (case wireSinks env c (startBuilding env opts) of
                Inl err \<Rightarrow> Inl err
              | Inr (pl, st) \<Rightarrow>
                  (case wirePipelines env pl st of
                     Inl err \<Rightarrow> Inl err
                   | Inr (fl, st') \<Rightarrow>
                       Inr \<lparr>broker = brk st', flushableNodes = fl, conf = c, logger = the log,
                            auditPipelines = auditPs pl, observationPipelines = observationPs pl,
                            errPipelines = errPs pl\<rparr>))))"

section \<open>The system-wide Eventer\<close>

text \<open>The package variable \<^verbatim>\<open>sysEventer\<close>; \<open>None\<close> is the nil pointer.\<close>

record 'ev globals =
  sysEventer :: "'ev Eventer option"

definition InitSysEventer ::
  "'ev env \<Rightarrow> Logger option \<Rightarrow> unit option \<Rightarrow> 'ev options \<Rightarrow> 'ev globals \<Rightarrow> error option \<times> 'ev globals" where
  "InitSysEventer env log serializationLock opts g =
     (if log = None
      then (Some (Wrapf ''event.InitSysEventer: missing hclog'' ErrInvalidParameter), g)
      else if serializationLock = None
      then (Some (Wrapf ''event.InitSysEventer: missing serialization lock'' ErrInvalidParameter), g)
      else if withEventer opts = None \<and> withEventerConfig opts = None
      then (Some (Wrapf ''event.InitSysEventer: missing both eventer and eventer config'' ErrInvalidParameter), g)
      else if withEventer opts \<noteq> None \<and> withEventerConfig opts \<noteq> None
      then (Some (Wrapf ''event.InitSysEventer: both eventer and eventer config provided'' ErrInvalidParameter), g)
      else
        (case withEventerConfig opts of
           Some c \<Rightarrow>
             (case NewEventer env log serializationLock c getDefaultOptions of
                Inl err \<Rightarrow> (Some (Wrapf ''event.InitSysEventer'' err), g)
              | Inr e \<Rightarrow> (None, g\<lparr>sysEventer := Some e\<rparr>))
         | None \<Rightarrow> (None, g\<lparr>sysEventer := withEventer opts\<rparr>)))"

definition SysEventer :: "'ev globals \<Rightarrow> 'ev Eventer option" where
  "SysEventer g = sysEventer g"

section \<open>Sending events (eventer.go)\<close>

definition OpField :: string where "OpField = ''op''"
definition RequestInfoField :: string where "RequestInfoField = ''request_info''"
definition VersionField :: string where "VersionField = ''version''"

text \<open>\<^verbatim>\<open>e.broker.Send(ctx, t, payload)\<close>: the broker answers and has one more call.\<close>

definition brokerSend ::
  "'ev env \<Rightarrow> Type \<Rightarrow> 'ev SendPayload \<Rightarrow> 'ev Eventer \<Rightarrow> (Status \<times> error option) \<times> 'ev Eventer" where
  "brokerSend env t p e = (sendResult env (broker e) t p, e\<lparr>broker := broker e @ [Send t p]\<rparr>)"

text \<open>
  Modelled from the spec: \<^verbatim>\<open>retrySend\<close> is called by the write methods and defined outside
  the files at hand. Section 4.4: it invokes the send function; on a failure classified
  as transient it sleeps and retries, up to \<open>maxAttempts\<close>; on exhaustion it returns the
  last error; a non-transient error is not retried; if the context is cancelled between
  attempts it stops and returns the context's error. \<open>k\<close> is the number of the running
  attempt, from 1. The length of the sleep is real time and left out.
\<close>

function retrySendFrom ::
  "'ev env \<Rightarrow> nat \<Rightarrow> ('s \<Rightarrow> (Status \<times> error option) \<times> 's) \<Rightarrow> nat \<Rightarrow> 's \<Rightarrow> error option \<times> 's" where
  "retrySendFrom env maxAttempts sendFn k s =
     (let r = sendFn s in
      case snd (fst r) of
        None \<Rightarrow> (None, snd r)
      | Some err \<Rightarrow>
          if \<not> transient env err then (Some err, snd r)
          else if maxAttempts \<le> k then (Some err, snd r)
          else if ctxErr env k \<noteq> None then (ctxErr env k, snd r)
          else retrySendFrom env maxAttempts sendFn (Suc k) (snd r))"
  by pat_completeness auto
termination
  by (relation "measure (\<lambda>(env, maxAttempts, sendFn, k, s). maxAttempts - k)") auto

declare retrySendFrom.simps [simp del]

definition retrySend ::
  "'ev env \<Rightarrow> nat \<Rightarrow> ('s \<Rightarrow> (Status \<times> error option) \<times> 's) \<Rightarrow> 's \<Rightarrow> error option \<times> 's" where
  "retrySend env maxAttempts sendFn s = retrySendFrom env maxAttempts sendFn 1 s"

text \<open>What every write method does with the outcome of \<^verbatim>\<open>retrySend\<close>.\<close>

definition logFailure :: "string \<Rightarrow> string \<Rightarrow> error option \<times> 'ev Eventer \<Rightarrow> error option \<times> 'ev Eventer" where
  "logFailure op msg r =
     (case fst r of
        Some err \<Rightarrow> (Some (Wrapf op err), (snd r)\<lparr>logger := logger (snd r) @ [LogError msg err]\<rparr>)
      | None \<Rightarrow> (None, snd r))"

text \<open>The event pointer of a write method is \<open>None\<close> when nil.\<close>

definition writeAudit :: "'ev env \<Rightarrow> 'ev Eventer \<Rightarrow> 'ev option \<Rightarrow> error option \<times> 'ev Eventer" where
  "writeAudit env e event =
     (case event of
        None \<Rightarrow> (Some (Wrapf ''event.(Eventer).writeAudit: missing event'' ErrInvalidParameter), e)
      | Some ev \<Rightarrow>
          if \<not> AuditEnabled (conf e) then (None, e)
          else logFailure ''event.(Eventer).writeAudit''
                 ''encountered an error sending an audit event''
                 (retrySend env (stdRetryCount env) (brokerSend env AuditType (AuditEvent ev)) e))"

definition writeError :: "'ev env \<Rightarrow> 'ev Eventer \<Rightarrow> 'ev option \<Rightarrow> error option \<times> 'ev Eventer" where
  "writeError env e event =
     (case event of
        None \<Rightarrow> (Some (Wrapf ''event.(Eventer).writeError: missing event'' ErrInvalidParameter), e)
      | Some ev \<Rightarrow>
          logFailure ''event.(Eventer).writeError''
            ''encountered an error sending an error event''
            (retrySend env (stdRetryCount env) (brokerSend env ErrorType (ErrEvent ev)) e))"

definition writeSysEvent :: "'ev env \<Rightarrow> 'ev Eventer \<Rightarrow> 'ev option \<Rightarrow> error option \<times> 'ev Eventer" where
  "writeSysEvent env e event =
     (case event of
        None \<Rightarrow> (Some (Wrapf ''event.(Eventer).writeSysEvent: missing event'' ErrInvalidParameter), e)
      | Some ev \<Rightarrow>
          logFailure ''event.(Eventer).writeSysEvent''
            ''encountered an error sending an sys event''
            (retrySend env (stdRetryCount env) (brokerSend env SystemType (SysEvent ev)) e))"

text \<open>
  Modelled from the spec: the struct \<^verbatim>\<open>observation\<close> is declared outside the files at hand.
  \<^verbatim>\<open>writeObservation\<close> reads its fields \<^verbatim>\<open>Header\<close>, \<^verbatim>\<open>Detail\<close>, \<^verbatim>\<open>RequestInfo\<close>, \<^verbatim>\<open>Version\<close>,
  \<^verbatim>\<open>Op\<close> and \<^verbatim>\<open>Payload\<close>; by section 4.5 the header and detail fields are stamped into the
  payload, so \<^verbatim>\<open>event.Header\<close> and \<^verbatim>\<open>event.Detail\<close> are the maps of \<^verbatim>\<open>event.Payload\<close>.
\<close>

record observation =
  Payload :: Payload
  Version :: string
  Op :: string
  RequestInfo :: "RequestInfo option"

text \<open>The assignments at the head of the closure \<^verbatim>\<open>writeObservation\<close> hands to \<^verbatim>\<open>retrySend\<close>.\<close>

definition stampHeader :: "observation \<Rightarrow> observation" where
  "stampHeader event =
     (case Header (Payload event) of
        None \<Rightarrow> event
      | Some h \<Rightarrow> event\<lparr>Payload := (Payload event)\<lparr>Header :=
          Some (AList.update VersionField (StringValue (Version event))
                 (AList.update RequestInfoField (RequestInfoValue (RequestInfo event)) h))\<rparr>\<rparr>)"

definition stampDetail :: "observation \<Rightarrow> observation" where
  "stampDetail event =
     (case Detail (Payload event) of
        None \<Rightarrow> event
      | Some d \<Rightarrow> event\<lparr>Payload := (Payload event)\<lparr>Detail :=
          Some (AList.update OpField (StringValue (Op event)) d)\<rparr>\<rparr>)"

text \<open>The closure; its state is the event it writes into and the Eventer.\<close>

definition observationSendFn ::
  "'ev env \<Rightarrow> observation \<times> 'ev Eventer \<Rightarrow> (Status \<times> error option) \<times> (observation \<times> 'ev Eventer)" where
  "observationSendFn env s =
     (let event = stampDetail (stampHeader (fst s));
          r = brokerSend env ObservationType (GatedPayload (Payload event)) (snd s)
      in (fst r, (event, snd r)))"

definition writeObservation ::
  "'ev env \<Rightarrow> 'ev Eventer \<Rightarrow> observation option \<Rightarrow> error option \<times> observation option \<times> 'ev Eventer" where
  "writeObservation env e event =
     (case event of
        None \<Rightarrow> (Some (Wrapf ''event.(Eventer).writeObservation: missing event'' ErrInvalidParameter), None, e)
      | Some ev \<Rightarrow>
          if \<not> ObservationsEnabled (conf e) then (None, Some ev, e)
          else
            (let r = retrySend env (stdRetryCount env) (observationSendFn env) (ev, e);
                 r' = logFailure ''event.(Eventer).writeObservation''
                        ''encountered an error sending an observation event'' (fst r, snd (snd r))
             in (fst r', Some (fst (snd r)), snd r')))"

section \<open>FlushNodes (eventer.go)\<close>

text \<open>
  \<open>FlushAll n s\<close> is \<^verbatim>\<open>n.FlushAll(ctx)\<close> of the gated filter \<open>n\<close> (library code) in the state
  \<open>s\<close> of the filters: the error it returns, if any, and the new state.
\<close>

fun flushLoop :: "(NodeID \<Rightarrow> 's \<Rightarrow> error option \<times> 's) \<Rightarrow> NodeID list \<Rightarrow> 's \<Rightarrow> error option \<times> 's" where
  "flushLoop FlushAll [] s = (None, s)"
| "flushLoop FlushAll (n # ns) s =
     (case FlushAll n s of
        (Some err, s') \<Rightarrow> (Some (Wrapf ''event.(Eventer).FlushNodes'' err), s')
      | (None, s') \<Rightarrow> flushLoop FlushAll ns s')"

definition FlushNodes ::
  "(NodeID \<Rightarrow> 's \<Rightarrow> error option \<times> 's) \<Rightarrow> 'ev Eventer \<Rightarrow> 's \<Rightarrow> error option \<times> 's" where
  "FlushNodes FlushAll e s = flushLoop FlushAll (flushableNodes e) s"

text \<open>
  To speak of the calls of \<^verbatim>\<open>FlushAll\<close> that are made, a \<^verbatim>\<open>FlushAll\<close> that also notes the
  node it is called on, in order.
\<close>

definition noting ::
  "(NodeID \<Rightarrow> 's \<Rightarrow> error option \<times> 's) \<Rightarrow> NodeID \<Rightarrow> NodeID list \<times> 's \<Rightarrow> error option \<times> (NodeID list \<times> 's)" where
  "noting FlushAll n ts =
     (let r = FlushAll n (snd ts) in (fst r, (fst ts @ [n], snd r)))"

text \<open>
  The state of the filters once \<^verbatim>\<open>FlushAll\<close> has been called on the nodes \<open>ns\<close>, in order,
  from the state \<open>s\<close>. It says in which state each call of a run of \<open>FlushNodes\<close> is made,
  without reference to \<open>FlushNodes\<close>.
\<close>

definition afterFlushing :: "(NodeID \<Rightarrow> 's \<Rightarrow> error option \<times> 's) \<Rightarrow> 's \<Rightarrow> NodeID list \<Rightarrow> 's" where
  "afterFlushing FlushAll s ns = foldl (\<lambda>s n. snd (FlushAll n s)) s ns"

section \<open>The earlier revision of the Eventer\<close>

datatype DeliveryGuarantee = Enforced | BestEffort | OtherGuarantee string

definition AuditPipeline :: string where "AuditPipeline = ''audit-pipeline''"
definition InfoPipeline :: string where "InfoPipeline = ''info-pipeline''"
definition ErrPipeline :: string where "ErrPipeline = ''err-pipeline''"

record Config =
  AuditDelivery :: DeliveryGuarantee
  InfoDelivery :: DeliveryGuarantee
  AuditEnabled0 :: bool
  InfoEnabled :: bool
  Sinks0 :: "SinkConfig list"

text \<open>The mutex \<^verbatim>\<open>l\<close> of this Eventer has no part in a sequential run and is left out.\<close>

record 'ev Eventer0 =
  broker0 :: "'ev broker"
  conf0 :: Config
  logger0 :: Logger

record addTo0 =
  addToAudit0 :: bool
  addToInfo :: bool
  addToErr0 :: bool

fun eventTypesLoop0 :: "Type list \<Rightarrow> addTo0 \<Rightarrow> addTo0" where
  "eventTypesLoop0 [] f = f"
| "eventTypesLoop0 (t # ts) f = eventTypesLoop0 ts
     (case t of
        EveryType \<Rightarrow> f\<lparr>addToAudit0 := True, addToInfo := True, addToErr0 := True\<rparr>
      | ErrorType \<Rightarrow> f\<lparr>addToErr0 := True\<rparr>
      | AuditType \<Rightarrow> f\<lparr>addToAudit0 := True\<rparr>
      | InfoType \<Rightarrow> f\<lparr>addToInfo := True\<rparr>
      | _ \<Rightarrow> f)"

definition noneAdded0 :: addTo0 where
  "noneAdded0 = \<lparr>addToAudit0 = False, addToInfo = False, addToErr0 = False\<rparr>"

record nodeIdLists =
  auditNodeIds :: "NodeID list"
  infoNodeIds :: "NodeID list"
  errNodeIds :: "NodeID list"

definition addNodeIds :: "NodeID \<Rightarrow> SinkConfig \<Rightarrow> nodeIdLists \<Rightarrow> nodeIdLists" where
  "addNodeIds sid s nl =
     (let f = eventTypesLoop0 (EventTypes s) noneAdded0;
          nl1 = (if addToAudit0 f then nl\<lparr>auditNodeIds := auditNodeIds nl @ [sid]\<rparr> else nl);
          nl2 = (if addToInfo f then nl1\<lparr>infoNodeIds := infoNodeIds nl1 @ [sid]\<rparr> else nl1)
      in if addToErr0 f then nl2\<lparr>errNodeIds := errNodeIds nl2 @ [sid]\<rparr> else nl2)"

definition registerSink0 :: "'ev env \<Rightarrow> SinkConfig \<Rightarrow> 'ev building \<Rightarrow> error + (NodeID \<times> 'ev building)" where
  "registerSink0 env s st =
     (case genId env (''file_'' @ Path s @ ''_'' @ FileName s @ ''_'') st of
        Inl err \<Rightarrow> Inl (Wrapf ''event.NewEventer'' err)
      | Inr (sid, st') \<Rightarrow>
          (case brokerCall env (RegisterNode sid (FileSinkNode (Format s) (Path s) (FileName s)
                  (RotateBytes s) (RotateDuration s) (RotateMaxFiles s))) st' of
             (Some err, st'') \<Rightarrow> Inl (Wrapf ''failed to register json node'' err)
           | (None, st'') \<Rightarrow> Inr (sid, st'')))"

fun sinksLoop0 ::
  "'ev env \<Rightarrow> SinkConfig list \<Rightarrow> nodeIdLists \<Rightarrow> 'ev building \<Rightarrow> error + (nodeIdLists \<times> 'ev building)" where
  "sinksLoop0 env [] nl st = Inr (nl, st)"
| "sinksLoop0 env (s # ss) nl st =
     (case registerSink0 env s st of
        Inl err \<Rightarrow> Inl err
      | Inr (sid, st') \<Rightarrow> sinksLoop0 env ss (addNodeIds sid s nl) st')"

definition defaultSink0 :: SinkConfig where
  "defaultSink0 = \<lparr>Name = ''default'', EventTypes = [EveryType], SinkType = OtherSinkType [],
     Format = JSONSinkFormat, Path = ''./'', FileName = ''foo.txt'', RotateBytes = 0,
     RotateDuration = 0, RotateMaxFiles = 0\<rparr>"

definition withDefaultSink0 :: "Config \<Rightarrow> Config" where
  "withDefaultSink0 c = (if length (Sinks0 c) = 0 then c\<lparr>Sinks0 := Sinks0 c @ [defaultSink0]\<rparr> else c)"

text \<open>The three pipelines, one per event type, each over the whole list of node ids.\<close>

definition registerPipelines0 :: "'ev env \<Rightarrow> nodeIdLists \<Rightarrow> 'ev building \<Rightarrow> error + 'ev building" where
  "registerPipelines0 env nl st =
     (case brokerCall env (RegisterPipeline \<lparr>EventType = AuditType, PipelineID = AuditPipeline,
             NodeIDs = auditNodeIds nl\<rparr>) st of
        (Some err, st1) \<Rightarrow> Inl (Wrapf ''failed to register audit pipeline'' err)
      | (None, st1) \<Rightarrow>
          (case brokerCall env (RegisterPipeline \<lparr>EventType = InfoType, PipelineID = InfoPipeline,
                  NodeIDs = infoNodeIds nl\<rparr>) st1 of
             (Some err, st2) \<Rightarrow> Inl (Wrapf ''failed to register info pipeline'' err)
           | (None, st2) \<Rightarrow>
               (case brokerCall env (RegisterPipeline \<lparr>EventType = ErrorType, PipelineID = ErrPipeline,
                       NodeIDs = errNodeIds nl\<rparr>) st2 of
                  (Some err, st3) \<Rightarrow> Inl (Wrapf ''failed to register error pipeline'' err)
                | (None, st3) \<Rightarrow> Inr st3)))"

text \<open>The success thresholds: audit and info when enforced, error always.\<close>

definition setThresholds0 :: "'ev env \<Rightarrow> Config \<Rightarrow> nodeIdLists \<Rightarrow> 'ev building \<Rightarrow> error + 'ev building" where
  "setThresholds0 env c nl st =
     (case (if AuditDelivery c = Enforced
            then (case brokerCall env (SetSuccessThreshold AuditType (length (auditNodeIds nl))) st of
                    (Some err, st1) \<Rightarrow> Inl (Wrapf ''failed to set success threshold for audit events'' err)
                  | (None, st1) \<Rightarrow> Inr st1)
            else Inr st) of
        Inl err \<Rightarrow> Inl err
      | Inr st1 \<Rightarrow>
          (case (if InfoDelivery c = Enforced
                 then (case brokerCall env (SetSuccessThreshold InfoType (length (infoNodeIds nl))) st1 of
                         (Some err, st2) \<Rightarrow> Inl (Wrapf ''failed to set success threshold for info events'' err)
                       | (None, st2) \<Rightarrow> Inr st2)
                 else Inr st1) of
             Inl err \<Rightarrow> Inl err
           | Inr st2 \<Rightarrow>
               (case brokerCall env (SetSuccessThreshold ErrorType (length (errNodeIds nl))) st2 of
                  (Some err, st3) \<Rightarrow> Inl (Wrapf ''failed to set success threshold for error events'' err)
                | (None, st3) \<Rightarrow> Inr st3)))"

definition NewEventer0 :: "'ev env \<Rightarrow> Logger option \<Rightarrow> Config \<Rightarrow> error + 'ev Eventer0" where
  "NewEventer0 env log c0 =
     (if log = None then Inl (InvalidParameterAt ''event.NewEventer'' ''missing logger'')
      else
        (case genId env ''json'' \<lparr>idCount = 0, brk = NewBroker\<rparr> of
           Inl err \<Rightarrow> Inl (Wrapf ''event.NewEventer'' err)
         | Inr (jsonfmtID, st1) \<Rightarrow>
             (case brokerCall env (RegisterNode jsonfmtID JSONFormatter) st1 of
                (Some err, st2) \<Rightarrow> Inl (Wrapf ''failed to register json node'' err)
              | (None, st2) \<Rightarrow>
                  (let c = withDefaultSink0 c0 in
                   case sinksLoop0 env (Sinks0 c)
                          \<lparr>auditNodeIds = [jsonfmtID], infoNodeIds = [jsonfmtID],
                           errNodeIds = [jsonfmtID]\<rparr> st2 of
                     Inl err \<Rightarrow> Inl err
                   | Inr (nl, st3) \<Rightarrow>
                       (case registerPipelines0 env nl st3 of
                          Inl err \<Rightarrow> Inl err
                        | Inr st4 \<Rightarrow>
                            (case setThresholds0 env c nl st4 of
                               Inl err \<Rightarrow> Inl err
                             | Inr st5 \<Rightarrow>
                                 Inr \<lparr>broker0 = brk st5, conf0 = c, logger0 = the log\<rparr>))))))"

text \<open>
  The three send methods of the earlier revision: one \<^verbatim>\<open>Send\<close>, an error is logged and
  wrapped, warnings are logged. \<open>t\<close> and \<open>p\<close> are the arguments of the \<^verbatim>\<open>Send\<close>.
\<close>

definition send0 ::
  "'ev env \<Rightarrow> string \<Rightarrow> string \<Rightarrow> string \<Rightarrow> Type \<Rightarrow> 'ev SendPayload \<Rightarrow> 'ev Eventer0
     \<Rightarrow> error option \<times> 'ev Eventer0" where
  "send0 env op errMsg warnMsg t p e =
     (let r = sendResult env (broker0 e) t p;
          e1 = e\<lparr>broker0 := broker0 e @ [Send t p]\<rparr>
      in case snd r of
           Some err \<Rightarrow> (Some (Wrapf op err), e1\<lparr>logger0 := logger0 e1 @ [LogError errMsg err]\<rparr>)
         | None \<Rightarrow>
             (None, if length (Warnings (fst r)) > 0
                    then e1\<lparr>logger0 := logger0 e1 @ [LogWarn warnMsg (Warnings (fst r))]\<rparr>
                    else e1))"

definition Info0 :: "'ev env \<Rightarrow> 'ev Eventer0 \<Rightarrow> 'ev \<Rightarrow> error option \<times> 'ev Eventer0" where
  "Info0 env e event =
     (if \<not> InfoEnabled (conf0 e) then (None, e)
      else send0 env ''event.(Eventer).Info'' ''encountered an error sending an info event''
             ''encountered warnings send info event'' InfoType (InfoEvent event) e)"

definition Error0 :: "'ev env \<Rightarrow> 'ev Eventer0 \<Rightarrow> 'ev \<Rightarrow> error option \<times> 'ev Eventer0" where
  "Error0 env e event =
     send0 env ''event.(Eventer).Error'' ''encountered an error sending an error event''
       ''encountered warnings send error event'' ErrorType (ErrEvent event) e"

definition Audit0 :: "'ev env \<Rightarrow> 'ev Eventer0 \<Rightarrow> 'ev \<Rightarrow> error option \<times> 'ev Eventer0" where
  "Audit0 env e event =
     (if \<not> AuditEnabled0 (conf0 e) then (None, e)
      else send0 env ''event.(Eventer).Audit'' ''encountered an error sending an audit event''
             ''encountered warnings send audit event'' InfoType (AuditEvent event) e)"

section \<open>Reading a broker's calls\<close>

text \<open>The node ids registered by a sequence of calls, and the node registered under an id.\<close>

fun nodeRegistrations :: "'ev broker \<Rightarrow> (NodeID \<times> Node) list" where
  "nodeRegistrations [] = []"
| "nodeRegistrations (RegisterNode i n # cs) = (i, n) # nodeRegistrations cs"
| "nodeRegistrations (c # cs) = nodeRegistrations cs"

definition registeredNode :: "'ev broker \<Rightarrow> NodeID \<Rightarrow> Node option" where
  "registeredNode cs i = map_of (nodeRegistrations cs) i"

fun pipelinesOf :: "'ev broker \<Rightarrow> Pipeline list" where
  "pipelinesOf [] = []"
| "pipelinesOf (RegisterPipeline p # cs) = p # pipelinesOf cs"
| "pipelinesOf (c # cs) = pipelinesOf cs"

fun thresholdsOf :: "'ev broker \<Rightarrow> (Type \<times> nat) list" where
  "thresholdsOf [] = []"
| "thresholdsOf (SetSuccessThreshold t n # cs) = (t, n) # thresholdsOf cs"
| "thresholdsOf (c # cs) = thresholdsOf cs"

fun sendsOf :: "'ev broker \<Rightarrow> (Type \<times> 'ev SendPayload) list" where
  "sendsOf [] = []"
| "sendsOf (Send t p # cs) = (t, p) # sendsOf cs"
| "sendsOf (c # cs) = sendsOf cs"

text \<open>The calls an Eventer's broker received from its construction on.\<close>

definition callsSince :: "'ev options \<Rightarrow> 'ev broker \<Rightarrow> 'ev broker" where
  "callsSince opts b = drop (length (case withBroker opts of Some b0 \<Rightarrow> b0 | None \<Rightarrow> NewBroker)) b"

text \<open>Whether a sink configuration subscribes its sink to a type, in each revision.\<close>

definition subscribes :: "Type \<Rightarrow> SinkConfig \<Rightarrow> bool" where
  "subscribes t s = (EveryType \<in> set (EventTypes s) \<or> t \<in> set (EventTypes s))"

text \<open>A broker that refuses to register a node id twice (section 4.2 of the spec).\<close>

definition refusesKnownIds :: "'ev env \<Rightarrow> bool" where
  "refusesKnownIds env =
     (\<forall>cs i n. i \<in> fst ` set (nodeRegistrations cs) \<longrightarrow> respond env cs (RegisterNode i n) \<noteq> None)"

text \<open>
  The two shapes a registered pipeline can have, read off the calls \<open>new\<close> of a
  construction: gate, formatter, sink, with the gate registered just before the pipeline;
  and formatter, sink. The ids are resolved to the nodes registered under them.
\<close>

definition gateFormatterSink :: "'ev broker \<Rightarrow> Pipeline \<Rightarrow> bool" where
  "gateFormatterSink new P =
     (\<exists>g f s n. NodeIDs P = [g, f, s] \<and> registeredNode new g = Some GatedFilter
        \<and> registeredNode new f = Some JSONFormatter
        \<and> registeredNode new s = Some n \<and> isSink n
        \<and> (\<exists>pre post. new = pre @ RegisterNode g GatedFilter # RegisterPipeline P # post))"

definition formatterSink :: "'ev broker \<Rightarrow> Pipeline \<Rightarrow> bool" where
  "formatterSink new P =
     (\<exists>f s n. NodeIDs P = [f, s] \<and> registeredNode new f = Some JSONFormatter
        \<and> registeredNode new s = Some n \<and> isSink n)"

section \<open>The calls of a construction\<close>

text \<open>The node the loop over the sinks builds for a sink configuration (eventer.go).\<close>

definition sinkNodeOf :: "SinkConfig \<Rightarrow> Node" where
  "sinkNodeOf s = (case SinkType s of
       StderrSink \<Rightarrow> WriterSink (Format s) SerializedStderr
     | _ \<Rightarrow> FileSinkNode (Format s) (Path s) (FileName s) (RotateBytes s) (RotateDuration s)
             (RotateMaxFiles s))"

text \<open>The pipeline value appended for a sink that subscribes to \<open>t\<close>.\<close>

definition pipelineFor :: "Type \<Rightarrow> NodeID \<Rightarrow> NodeID \<Rightarrow> SinkConfig \<Rightarrow> pipeline" where
  "pipelineFor t j sid s = \<lparr>eventType = t, fmtId = j, sinkId = sid, gateId = [],
     sinkConfig = (if t = SystemType then zeroSinkConfig else s)\<rparr>"

text \<open>The pipeline slice of a type, given the sinks with the ids they were registered under.\<close>

definition pipelinesFor :: "Type \<Rightarrow> NodeID \<Rightarrow> (NodeID \<times> SinkConfig) list \<Rightarrow> pipeline list" where
  "pipelinesFor t j xs = map (\<lambda>(i, s). pipelineFor t j i s) (filter (\<lambda>(i, s). subscribes t s) xs)"

text \<open>The calls of the loop over the sinks, of the gated loops and of the plain loops.\<close>

definition sinkCalls :: "(NodeID \<times> SinkConfig) list \<Rightarrow> 'ev broker" where
  "sinkCalls xs = map (\<lambda>(i, s). RegisterNode i (sinkNodeOf s)) xs"

definition gatedCalls :: "(NodeID \<times> PipelineID \<times> pipeline) list \<Rightarrow> 'ev broker" where
  "gatedCalls xs = concat (map (\<lambda>(g, pid, p). [RegisterNode g GatedFilter,
      RegisterPipeline \<lparr>EventType = eventType p, PipelineID = pid,
        NodeIDs = [g, fmtId p, sinkId p]\<rparr>]) xs)"

definition plainCalls :: "(PipelineID \<times> pipeline) list \<Rightarrow> 'ev broker" where
  "plainCalls xs = map (\<lambda>(pid, p). RegisterPipeline \<lparr>EventType = eventType p, PipelineID = pid,
      NodeIDs = [fmtId p, sinkId p]\<rparr>) xs"

text \<open>The call \<^verbatim>\<open>WithNow\<close> causes, and the broker a construction starts from.\<close>

definition stopCalls :: "'ev options \<Rightarrow> 'ev broker" where
  "stopCalls opts = (if withNow opts \<noteq> 0 then [StopTimeAt (withNow opts)] else [])"

definition brokerGiven :: "'ev options \<Rightarrow> 'ev broker" where
  "brokerGiven opts = (case withBroker opts of Some b \<Rightarrow> b | None \<Rightarrow> NewBroker)"

text \<open>The same for the earlier revision: sink ids per type, file sinks, calls.\<close>

definition sinkIdsFor :: "Type \<Rightarrow> (NodeID \<times> SinkConfig) list \<Rightarrow> NodeID list" where
  "sinkIdsFor t xs = map fst (filter (\<lambda>(i, s). subscribes t s) xs)"

definition fileSinkOf :: "SinkConfig \<Rightarrow> Node" where
  "fileSinkOf s = FileSinkNode (Format s) (Path s) (FileName s) (RotateBytes s) (RotateDuration s)
     (RotateMaxFiles s)"

definition fileSinkCalls :: "(NodeID \<times> SinkConfig) list \<Rightarrow> 'ev broker" where
  "fileSinkCalls xs = map (\<lambda>(i, s). RegisterNode i (fileSinkOf s)) xs"

definition thresholdCalls0 :: "Config \<Rightarrow> nat \<Rightarrow> nat \<Rightarrow> nat \<Rightarrow> 'ev broker" where
  "thresholdCalls0 c a i e =
     (if AuditDelivery c = Enforced then [SetSuccessThreshold AuditType a] else [])
     @ (if InfoDelivery c = Enforced then [SetSuccessThreshold InfoType i] else [])
     @ [SetSuccessThreshold ErrorType e]"

section \<open>An environment to run the definitions in\<close>

text \<open>
  Ids that differ from call to call, a validation that accepts, a broker that refuses a
  node id it knows and accepts everything else, sends that succeed.
\<close>

definition idOf :: "nat \<Rightarrow> string \<Rightarrow> error + string" where
  "idOf k prefix = Inr (prefix @ replicate (Suc k) (CHR ''i''))"

definition strictRespond :: "'ev broker \<Rightarrow> 'ev BrokerCall \<Rightarrow> error option" where
  "strictRespond cs c =
     (case c of
        RegisterNode i n \<Rightarrow>
          if i \<in> fst ` set (nodeRegistrations cs) then Some (External ''node id in use'') else None
      | _ \<Rightarrow> None)"

definition testEnv :: "unit env" where
  "testEnv = \<lparr>newId = idOf, Validate = (\<lambda>c. None), respond = strictRespond,
     sendResult = (\<lambda>cs t p. (\<lparr>Warnings = []\<rparr>, None)), stdRetryCount = 3,
     transient = (\<lambda>err. True), ctxErr = (\<lambda>k. None)\<rparr>"

text \<open>The same with a broker whose sends fail twice and then succeed.\<close>

definition flakyEnv :: "unit env" where
  "flakyEnv = testEnv\<lparr>sendResult := (\<lambda>cs t p.
     (\<lparr>Warnings = []\<rparr>, if length (sendsOf cs) < 2 then Some (External ''sink unavailable'') else None))\<rparr>"

definition stderrSinkFor :: "Type list \<Rightarrow> SinkConfig" where
  "stderrSinkFor ts = DefaultSink\<lparr>Name := ''stderr'', EventTypes := ts\<rparr>"

definition fileSinkAt :: "string \<Rightarrow> string \<Rightarrow> Type list \<Rightarrow> SinkConfig" where
  "fileSinkAt p f ts = \<lparr>Name = f, EventTypes = ts, SinkType = FileSink, Format = JSONSinkFormat,
     Path = p, FileName = f, RotateBytes = 0, RotateDuration = 0, RotateMaxFiles = 0\<rparr>"

text \<open>Audit events enabled, and a single sink that takes error events only.\<close>

definition auditWithoutSink :: EventerConfig where
  "auditWithoutSink = \<lparr>AuditEnabled = True, ObservationsEnabled = False, SysEventsEnabled = False,
     Sinks = [stderrSinkFor [ErrorType]]\<rparr>"

definition someEventer :: "unit Eventer" where
  "someEventer = \<lparr>broker = [], flushableNodes = [''gate-a'', ''gate-b'', ''gate-c''],
     conf = DefaultEventerConfig, logger = [], auditPipelines = [], observationPipelines = [],
     errPipelines = []\<rparr>"

text \<open>Eventers of eventer.go with auditing on, and with audit and observation events off.\<close>

definition listening :: "unit Eventer" where
  "listening = someEventer\<lparr>conf := DefaultEventerConfig\<lparr>AuditEnabled := True\<rparr>\<rparr>"

definition quiet :: "unit Eventer" where
  "quiet = someEventer\<lparr>conf := DefaultEventerConfig\<lparr>ObservationsEnabled := False\<rparr>\<rparr>"

text \<open>An observation with both maps, and one with neither.\<close>

definition fullObservation :: observation where
  "fullObservation = \<lparr>Payload = \<lparr>ID = ''req-1'', Flush = False,
       Header = Some [(''status'', OtherValue ''200'')], Detail = Some []\<rparr>,
     Version = ''v0.1'', Op = ''handler.List'', RequestInfo = Some ''req-1''\<rparr>"

definition bareObservation :: observation where
  "bareObservation = \<lparr>Payload = \<lparr>ID = ''req-1'', Flush = True, Header = None, Detail = None\<rparr>,
     Version = ''v0.1'', Op = ''handler.List'', RequestInfo = Some ''req-1''\<rparr>"

text \<open>A \<^verbatim>\<open>FlushAll\<close> that fails on one node and succeeds on the others.\<close>

definition failingAt :: "NodeID \<Rightarrow> NodeID \<Rightarrow> unit \<Rightarrow> error option \<times> unit" where
  "failingAt bad n s = (if n = bad then Some (External ''flush failed'') else None, s)"

text \<open>An Eventer of the earlier revision with auditing on and info events off.\<close>

definition auditing0 :: "unit Eventer0" where
  "auditing0 = \<lparr>broker0 = [], conf0 = \<lparr>AuditDelivery = Enforced, InfoDelivery = BestEffort,
     AuditEnabled0 = True, InfoEnabled = False, Sinks0 = []\<rparr>, logger0 = []\<rparr>"

text \<open>Configurations without sinks, one for each revision.\<close>

definition noSinks0 :: Config where
  "noSinks0 = \<lparr>AuditDelivery = Enforced, InfoDelivery = BestEffort, AuditEnabled0 = True,
     InfoEnabled = True, Sinks0 = []\<rparr>"

definition noSinks :: EventerConfig where
  "noSinks = \<lparr>AuditEnabled = True, ObservationsEnabled = True, SysEventsEnabled = True, Sinks = []\<rparr>"

text \<open>
  Collaborators that make no difficulty: the validation accepts the configuration, every
  id is generated, the broker accepts every call; and an environment of that kind.
\<close>

definition accepting :: "'ev env \<Rightarrow> EventerConfig \<Rightarrow> bool" where
  "accepting env c = (Validate env c = None \<and> (\<forall>k p. \<exists>i. newId env k p = Inr i)
     \<and> (\<forall>cs call. respond env cs call = None))"

definition willingEnv :: "unit env" where
  "willingEnv = testEnv\<lparr>respond := (\<lambda>cs c. None)\<rparr>"

text \<open>Earlier revision: audit and info delivery enforced, one file sink for every type.\<close>

definition enforcedBoth0 :: Config where
  "enforcedBoth0 = \<lparr>AuditDelivery = Enforced, InfoDelivery = Enforced, AuditEnabled0 = True,
     InfoEnabled = True, Sinks0 = [fileSinkAt ''/var/log'' ''events.log'' [EveryType]]\<rparr>"

text \<open>One file sink for error events (earlier revision); the same file sink twice.\<close>

definition errorSinkOnly0 :: Config where
  "errorSinkOnly0 = \<lparr>AuditDelivery = BestEffort, InfoDelivery = BestEffort, AuditEnabled0 = False,
     InfoEnabled = False, Sinks0 = [fileSinkAt ''/var/log'' ''errors.log'' [ErrorType]]\<rparr>"

definition sameFileTwice :: EventerConfig where
  "sameFileTwice = \<lparr>AuditEnabled = False, ObservationsEnabled = False, SysEventsEnabled = False,
     Sinks = [fileSinkAt ''/var/log'' ''events.log'' [ErrorType],
              fileSinkAt ''/var/log'' ''events.log'' [ErrorType]]\<rparr>"

text \<open>What \<open>testEnv\<close> builds from \<open>noSinks\<close> and from \<open>noSinks0\<close>.\<close>

definition builtFromNoSinks :: "unit Eventer" where
  "builtFromNoSinks = \<lparr>broker =
      [RegisterNode ''jsoni'' JSONFormatter,
       RegisterNode ''stderrii'' (WriterSink ''json'' SerializedStderr),
       RegisterNode ''gated-auditiii'' GatedFilter,
       RegisterPipeline \<lparr>EventType = AuditType, PipelineID = ''audit-pipelineiiii'',
         NodeIDs = [''gated-auditiii'', ''jsoni'', ''stderrii'']\<rparr>,
       RegisterNode ''gated-observationiiiii'' GatedFilter,
       RegisterPipeline \<lparr>EventType = ObservationType, PipelineID = ''observation-pipelineiiiiii'',
         NodeIDs = [''gated-observationiiiii'', ''jsoni'', ''stderrii'']\<rparr>,
       RegisterPipeline \<lparr>EventType = ErrorType, PipelineID = ''err-pipelineiiiiiii'',
         NodeIDs = [''jsoni'', ''stderrii'']\<rparr>,
       RegisterPipeline \<lparr>EventType = SystemType, PipelineID = ''sys-pipelineiiiiiiii'',
         NodeIDs = [''jsoni'', ''stderrii'']\<rparr>,
       SetSuccessThreshold ErrorType 1],
     flushableNodes = [''gated-auditiii'', ''gated-observationiiiii''],
     conf = noSinks\<lparr>Sinks := [DefaultSink]\<rparr>, logger = [],
     auditPipelines = [pipelineFor AuditType ''jsoni'' ''stderrii'' DefaultSink],
     observationPipelines = [pipelineFor ObservationType ''jsoni'' ''stderrii'' DefaultSink],
     errPipelines = [pipelineFor ErrorType ''jsoni'' ''stderrii'' DefaultSink]\<rparr>"

definition builtFromNoSinks0 :: "unit Eventer0" where
  "builtFromNoSinks0 = \<lparr>broker0 =
      [RegisterNode ''jsoni'' JSONFormatter,
       RegisterNode ''file_./_foo.txt_ii'' (FileSinkNode ''json'' ''./'' ''foo.txt'' 0 0 0),
       RegisterPipeline \<lparr>EventType = AuditType, PipelineID = ''audit-pipeline'',
         NodeIDs = [''jsoni'', ''file_./_foo.txt_ii'']\<rparr>,
       RegisterPipeline \<lparr>EventType = InfoType, PipelineID = ''info-pipeline'',
         NodeIDs = [''jsoni'', ''file_./_foo.txt_ii'']\<rparr>,
       RegisterPipeline \<lparr>EventType = ErrorType, PipelineID = ''err-pipeline'',
         NodeIDs = [''jsoni'', ''file_./_foo.txt_ii'']\<rparr>,
       SetSuccessThreshold AuditType 2, SetSuccessThreshold ErrorType 2],
     conf0 = noSinks0\<lparr>Sinks0 := [defaultSink0]\<rparr>, logger0 = []\<rparr>"

section \<open>What a successful construction has done\<close>

text \<open>Reading a sequence of calls distributes over append.\<close>

lemma nodeRegistrations_append [simp]:
  "nodeRegistrations (a @ b) = nodeRegistrations a @ nodeRegistrations b"
  by (induction a rule: nodeRegistrations.induct) simp_all

lemma pipelinesOf_append [simp]: "pipelinesOf (a @ b) = pipelinesOf a @ pipelinesOf b"
  by (induction a rule: pipelinesOf.induct) simp_all

lemma thresholdsOf_append [simp]: "thresholdsOf (a @ b) = thresholdsOf a @ thresholdsOf b"
  by (induction a rule: thresholdsOf.induct) simp_all

lemma sendsOf_append [simp]: "sendsOf (a @ b) = sendsOf a @ sendsOf b"
  by (induction a rule: sendsOf.induct) simp_all

subsection \<open>Steps and loops\<close>

text \<open>The two primitive steps of a construction.\<close>

lemma genId_Inr:
  "genId env prefix st = Inr (i, st') \<Longrightarrow> brk st' = brk st \<and> newId env (idCount st) prefix = Inr i"
  by (auto simp: genId_def split: sum.splits)

lemma brokerCall_brk [simp]: "brk (snd (brokerCall env c st)) = brk st @ [c]"
  by (simp add: brokerCall_def)

lemma brokerCall_eq:
  "brokerCall env c st = (r, st') \<Longrightarrow> brk st' = brk st @ [c] \<and> r = respond env (brk st) c"
  by (auto simp: brokerCall_def)

text \<open>What the bodies of the loops add to the broker.\<close>

lemma registerSink_Inr:
  assumes "registerSink env seen s st = Inr (sid, st')"
  shows "brk st' = brk st @ [RegisterNode sid (sinkNodeOf s)]"
    and "respond env (brk st) (RegisterNode sid (sinkNodeOf s)) = None"
  using assms
  by (auto simp: registerSink_def sinkNodeOf_def dest!: genId_Inr brokerCall_eq
           split: SinkType.splits sum.splits prod.splits option.splits if_splits)

lemma gatedBody_Inr:
  assumes "gatedBody env gp pp msg p st = Inr (gid, st')"
  shows "\<exists>pid. brk st' = brk st @ [RegisterNode gid GatedFilter,
            RegisterPipeline \<lparr>EventType = eventType p, PipelineID = pid,
              NodeIDs = [gid, fmtId p, sinkId p]\<rparr>]"
    and "respond env (brk st) (RegisterNode gid GatedFilter) = None"
  using assms
  by (auto simp: gatedBody_def dest!: genId_Inr brokerCall_eq
           split: sum.splits prod.splits option.splits)

lemma plainBody_Inr:
  assumes "plainBody env pp msg p st = Inr st'"
  shows "\<exists>pid. brk st' = brk st @ [RegisterPipeline \<lparr>EventType = eventType p, PipelineID = pid,
              NodeIDs = [fmtId p, sinkId p]\<rparr>]"
  using assms
  by (auto simp: plainBody_def dest!: genId_Inr brokerCall_eq
           split: sum.splits prod.splits option.splits)

text \<open>Invariant rules for the loops; \<open>past\<close> is the part of the slice already handled.\<close>

lemma sinksLoop_rule:
  assumes run: "sinksLoop env seen j ss pl st = Inr (pl', st')"
      and init: "I [] pl st"
      and step: "\<And>past s sid pl st st'. I past pl st \<Longrightarrow> s \<in> set ss \<Longrightarrow>
                   registerSink env seen s st = Inr (sid, st') \<Longrightarrow>
                   I (past @ [s]) (addPipelines j sid s pl) st'"
  shows "I ss pl' st'"
proof -
  have "I past pl st \<Longrightarrow> set xs \<subseteq> set ss \<Longrightarrow> sinksLoop env seen j xs pl st = Inr (pl', st') \<Longrightarrow>
          I (past @ xs) pl' st'" for past xs pl st
  proof (induction xs arbitrary: past pl st)
    case Nil
    then show ?case by simp
  next
    case (Cons x xs)
    from Cons.prems(3) obtain sid st1 where
      r: "registerSink env seen x st = Inr (sid, st1)"
      and l: "sinksLoop env seen j xs (addPipelines j sid x pl) st1 = Inr (pl', st')"
      by (auto split: sum.splits)
    from Cons.prems(2) have "x \<in> set ss" by simp
    from step [OF Cons.prems(1) this r] have "I (past @ [x]) (addPipelines j sid x pl) st1" .
    from Cons.IH [OF this _ l] Cons.prems(2) show ?case by simp
  qed
  from this [OF init _ run] show ?thesis by simp
qed

lemma gatedLoop_rule:
  assumes run: "gatedLoop env gp pp msg ps fl st = Inr (fl', st')"
      and init: "I [] fl st"
      and step: "\<And>past p gid fl st st'. I past fl st \<Longrightarrow> p \<in> set ps \<Longrightarrow>
                   gatedBody env gp pp msg p st = Inr (gid, st') \<Longrightarrow>
                   I (past @ [p]) (fl @ [gid]) st'"
  shows "I ps fl' st'"
proof -
  have "I past fl st \<Longrightarrow> set xs \<subseteq> set ps \<Longrightarrow> gatedLoop env gp pp msg xs fl st = Inr (fl', st') \<Longrightarrow>
          I (past @ xs) fl' st'" for past xs fl st
  proof (induction xs arbitrary: past fl st)
    case Nil
    then show ?case by simp
  next
    case (Cons x xs)
    from Cons.prems(3) obtain gid st1 where
      r: "gatedBody env gp pp msg x st = Inr (gid, st1)"
      and l: "gatedLoop env gp pp msg xs (fl @ [gid]) st1 = Inr (fl', st')"
      by (auto split: sum.splits)
    from Cons.prems(2) have "x \<in> set ps" by simp
    from step [OF Cons.prems(1) this r] have "I (past @ [x]) (fl @ [gid]) st1" .
    from Cons.IH [OF this _ l] Cons.prems(2) show ?case by simp
  qed
  from this [OF init _ run] show ?thesis by simp
qed

lemma plainLoop_rule:
  assumes run: "plainLoop env pp msg ps ns st = Inr (ns', st')"
      and init: "I [] ns st"
      and step: "\<And>past p ns st st'. I past ns st \<Longrightarrow> p \<in> set ps \<Longrightarrow>
                   plainBody env pp msg p st = Inr st' \<Longrightarrow>
                   I (past @ [p]) (ns @ [sinkId p]) st'"
  shows "I ps ns' st'"
proof -
  have "I past ns st \<Longrightarrow> set xs \<subseteq> set ps \<Longrightarrow> plainLoop env pp msg xs ns st = Inr (ns', st') \<Longrightarrow>
          I (past @ xs) ns' st'" for past xs ns st
  proof (induction xs arbitrary: past ns st)
    case Nil
    then show ?case by simp
  next
    case (Cons x xs)
    from Cons.prems(3) obtain st1 where
      r: "plainBody env pp msg x st = Inr st1"
      and l: "plainLoop env pp msg xs (ns @ [sinkId x]) st1 = Inr (ns', st')"
      by (auto split: sum.splits)
    from Cons.prems(2) have "x \<in> set ps" by simp
    from step [OF Cons.prems(1) this r] have "I (past @ [x]) (ns @ [sinkId x]) st1" .
    from Cons.IH [OF this _ l] Cons.prems(2) show ?case by simp
  qed
  from this [OF init _ run] show ?thesis by simp
qed

text \<open>The flags are the subscriptions.\<close>

lemma eventTypesLoop_flags:
  "addToAudit (eventTypesLoop ts f) = (addToAudit f \<or> EveryType \<in> set ts \<or> AuditType \<in> set ts)"
  "addToObservation (eventTypesLoop ts f) = (addToObservation f \<or> EveryType \<in> set ts \<or> ObservationType \<in> set ts)"
  "addToErr (eventTypesLoop ts f) = (addToErr f \<or> EveryType \<in> set ts \<or> ErrorType \<in> set ts)"
  "addToSys (eventTypesLoop ts f) = (addToSys f \<or> EveryType \<in> set ts \<or> SystemType \<in> set ts)"
  by (induction ts arbitrary: f; auto split: Type.splits)+

lemma flags_subscribes:
  "addToAudit (eventTypesLoop (EventTypes s) noneAdded) = subscribes AuditType s"
  "addToObservation (eventTypesLoop (EventTypes s) noneAdded) = subscribes ObservationType s"
  "addToErr (eventTypesLoop (EventTypes s) noneAdded) = subscribes ErrorType s"
  "addToSys (eventTypesLoop (EventTypes s) noneAdded) = subscribes SystemType s"
  by (simp_all add: eventTypesLoop_flags noneAdded_def subscribes_def)

lemma addPipelines_lists:
  "auditPs (addPipelines j sid s pl) = auditPs pl @ (if subscribes AuditType s then [pipelineFor AuditType j sid s] else [])"
  "observationPs (addPipelines j sid s pl) = observationPs pl @ (if subscribes ObservationType s then [pipelineFor ObservationType j sid s] else [])"
  "errPs (addPipelines j sid s pl) = errPs pl @ (if subscribes ErrorType s then [pipelineFor ErrorType j sid s] else [])"
  "sysPs (addPipelines j sid s pl) = sysPs pl @ (if subscribes SystemType s then [pipelineFor SystemType j sid s] else [])"
  by (simp_all add: addPipelines_def Let_def flags_subscribes pipelineFor_def)

subsection \<open>The calls of eventer.go's constructor, exactly\<close>

lemma pipelinesFor_snoc:
  "pipelinesFor t j (xs @ [(i, s)]) = pipelinesFor t j xs @ (if subscribes t s then [pipelineFor t j i s] else [])"
  by (simp add: pipelinesFor_def)

lemma sinkCalls_snoc: "sinkCalls (xs @ [(i, s)]) = sinkCalls xs @ [RegisterNode i (sinkNodeOf s)]"
  by (simp add: sinkCalls_def)

lemma gatedCalls_snoc:
  "gatedCalls (xs @ [(g, pid, p)]) = gatedCalls xs @ [RegisterNode g GatedFilter,
      RegisterPipeline \<lparr>EventType = eventType p, PipelineID = pid, NodeIDs = [g, fmtId p, sinkId p]\<rparr>]"
  by (simp add: gatedCalls_def)

lemma plainCalls_snoc:
  "plainCalls (xs @ [(pid, p)]) = plainCalls xs @ [RegisterPipeline \<lparr>EventType = eventType p,
      PipelineID = pid, NodeIDs = [fmtId p, sinkId p]\<rparr>]"
  by (simp add: plainCalls_def)

lemma sinksLoop_shape:
  assumes "sinksLoop (env :: 'ev env) seen j ss pl st = Inr (pl', st')"
  shows "\<exists>ids. length ids = length ss
     \<and> brk st' = brk st @ sinkCalls (zip ids ss)
     \<and> auditPs pl' = auditPs pl @ pipelinesFor AuditType j (zip ids ss)
     \<and> observationPs pl' = observationPs pl @ pipelinesFor ObservationType j (zip ids ss)
     \<and> errPs pl' = errPs pl @ pipelinesFor ErrorType j (zip ids ss)
     \<and> sysPs pl' = sysPs pl @ pipelinesFor SystemType j (zip ids ss)"
proof (rule sinksLoop_rule [OF assms, where I = "\<lambda>past q t. \<exists>ids. length ids = length past
     \<and> brk t = brk st @ sinkCalls (zip ids past)
     \<and> auditPs q = auditPs pl @ pipelinesFor AuditType j (zip ids past)
     \<and> observationPs q = observationPs pl @ pipelinesFor ObservationType j (zip ids past)
     \<and> errPs q = errPs pl @ pipelinesFor ErrorType j (zip ids past)
     \<and> sysPs q = sysPs pl @ pipelinesFor SystemType j (zip ids past)"])
  show "\<exists>ids. length ids = length [] \<and> brk st = brk st @ sinkCalls (zip ids [])
     \<and> auditPs pl = auditPs pl @ pipelinesFor AuditType j (zip ids [])
     \<and> observationPs pl = observationPs pl @ pipelinesFor ObservationType j (zip ids [])
     \<and> errPs pl = errPs pl @ pipelinesFor ErrorType j (zip ids [])
     \<and> sysPs pl = sysPs pl @ pipelinesFor SystemType j (zip ids [])"
    by (simp add: sinkCalls_def pipelinesFor_def)
next
  fix past s sid and q :: pipelineLists and t t' :: "'ev building"
  assume "\<exists>ids. length ids = length past
     \<and> brk t = brk st @ sinkCalls (zip ids past)
     \<and> auditPs q = auditPs pl @ pipelinesFor AuditType j (zip ids past)
     \<and> observationPs q = observationPs pl @ pipelinesFor ObservationType j (zip ids past)
     \<and> errPs q = errPs pl @ pipelinesFor ErrorType j (zip ids past)
     \<and> sysPs q = sysPs pl @ pipelinesFor SystemType j (zip ids past)"
  then obtain ids where ids: "length ids = length past"
     "brk t = brk st @ sinkCalls (zip ids past)"
     "auditPs q = auditPs pl @ pipelinesFor AuditType j (zip ids past)"
     "observationPs q = observationPs pl @ pipelinesFor ObservationType j (zip ids past)"
     "errPs q = errPs pl @ pipelinesFor ErrorType j (zip ids past)"
     "sysPs q = sysPs pl @ pipelinesFor SystemType j (zip ids past)" by blast
  assume "registerSink env seen s t = Inr (sid, t')"
  from registerSink_Inr(1) [OF this] have b: "brk t' = brk t @ [RegisterNode sid (sinkNodeOf s)]" .
  have z: "zip (ids @ [sid]) (past @ [s]) = zip ids past @ [(sid, s)]"
    using ids(1) by simp
  show "\<exists>ids. length ids = length (past @ [s])
     \<and> brk t' = brk st @ sinkCalls (zip ids (past @ [s]))
     \<and> auditPs (addPipelines j sid s q) = auditPs pl @ pipelinesFor AuditType j (zip ids (past @ [s]))
     \<and> observationPs (addPipelines j sid s q) = observationPs pl @ pipelinesFor ObservationType j (zip ids (past @ [s]))
     \<and> errPs (addPipelines j sid s q) = errPs pl @ pipelinesFor ErrorType j (zip ids (past @ [s]))
     \<and> sysPs (addPipelines j sid s q) = sysPs pl @ pipelinesFor SystemType j (zip ids (past @ [s]))"
    apply (rule exI [of _ "ids @ [sid]"])
    apply (simp only: z pipelinesFor_snoc sinkCalls_snoc addPipelines_lists b ids)
    apply (simp add: ids(1))
    done
qed

lemma gatedLoop_shape:
  assumes "gatedLoop (env :: 'ev env) gp pp msg ps fl st = Inr (fl', st')"
  shows "\<exists>gs pids. length gs = length ps \<and> length pids = length ps
     \<and> fl' = fl @ gs \<and> brk st' = brk st @ gatedCalls (zip gs (zip pids ps))"
proof (rule gatedLoop_rule [OF assms, where I = "\<lambda>past f t. \<exists>gs pids. length gs = length past
     \<and> length pids = length past \<and> f = fl @ gs \<and> brk t = brk st @ gatedCalls (zip gs (zip pids past))"])
  show "\<exists>gs pids. length gs = length [] \<and> length pids = length [] \<and> fl = fl @ gs
          \<and> brk st = brk st @ gatedCalls (zip gs (zip pids []))"
    by (simp add: gatedCalls_def)
next
  fix past p gid f and t t' :: "'ev building"
  assume "\<exists>gs pids. length gs = length past \<and> length pids = length past \<and> f = fl @ gs
            \<and> brk t = brk st @ gatedCalls (zip gs (zip pids past))"
  then obtain gs pids where h: "length gs = length past" "length pids = length past" "f = fl @ gs"
     "brk t = brk st @ gatedCalls (zip gs (zip pids past))" by blast
  assume "gatedBody env gp pp msg p t = Inr (gid, t')"
  from gatedBody_Inr(1) [OF this] obtain pid where
    b: "brk t' = brk t @ [RegisterNode gid GatedFilter,
            RegisterPipeline \<lparr>EventType = eventType p, PipelineID = pid,
              NodeIDs = [gid, fmtId p, sinkId p]\<rparr>]" by blast
  have z: "zip (gs @ [gid]) (zip (pids @ [pid]) (past @ [p])) = zip gs (zip pids past) @ [(gid, pid, p)]"
    using h(1,2) by simp
  show "\<exists>gs pids. length gs = length (past @ [p]) \<and> length pids = length (past @ [p])
          \<and> f @ [gid] = fl @ gs \<and> brk t' = brk st @ gatedCalls (zip gs (zip pids (past @ [p])))"
    apply (rule exI [of _ "gs @ [gid]"], rule exI [of _ "pids @ [pid]"])
    apply (simp only: z gatedCalls_snoc b h)
    apply (simp add: h(1,2))
    done
qed

lemma plainLoop_shape:
  assumes "plainLoop (env :: 'ev env) pp msg ps ns st = Inr (ns', st')"
  shows "\<exists>pids. length pids = length ps \<and> ns' = ns @ map sinkId ps
     \<and> brk st' = brk st @ plainCalls (zip pids ps)"
proof (rule plainLoop_rule [OF assms, where I = "\<lambda>past n t. \<exists>pids. length pids = length past
     \<and> n = ns @ map sinkId past \<and> brk t = brk st @ plainCalls (zip pids past)"])
  show "\<exists>pids. length pids = length [] \<and> ns = ns @ map sinkId []
          \<and> brk st = brk st @ plainCalls (zip pids [])"
    by (simp add: plainCalls_def)
next
  fix past p n and t t' :: "'ev building"
  assume "\<exists>pids. length pids = length past \<and> n = ns @ map sinkId past
            \<and> brk t = brk st @ plainCalls (zip pids past)"
  then obtain pids where h: "length pids = length past" "n = ns @ map sinkId past"
     "brk t = brk st @ plainCalls (zip pids past)" by blast
  assume "plainBody env pp msg p t = Inr t'"
  from plainBody_Inr [OF this] obtain pid where
    b: "brk t' = brk t @ [RegisterPipeline \<lparr>EventType = eventType p, PipelineID = pid,
              NodeIDs = [fmtId p, sinkId p]\<rparr>]" by blast
  have z: "zip (pids @ [pid]) (past @ [p]) = zip pids past @ [(pid, p)]"
    using h(1) by simp
  show "\<exists>pids. length pids = length (past @ [p]) \<and> n @ [sinkId p] = ns @ map sinkId (past @ [p])
          \<and> brk t' = brk st @ plainCalls (zip pids (past @ [p]))"
    apply (rule exI [of _ "pids @ [pid]"])
    apply (simp only: z plainCalls_snoc b h)
    apply (simp add: h(1))
    done
qed

text \<open>A successful construction, step by step.\<close>

lemma wireSinks_Inr:
  assumes "wireSinks env c st = Inr (pl, st')"
  obtains j st1 st2 where "genId env ''json'' st = Inr (j, st1)"
    and "brokerCall env (RegisterNode j JSONFormatter) st1 = (None, st2)"
    and "sinksLoop env Map.empty j (Sinks c) noPipelines st2 = Inr (pl, st')"
    and "AuditEnabled c \<longrightarrow> auditPs pl \<noteq> []"
    and "ObservationsEnabled c \<longrightarrow> observationPs pl \<noteq> []"
    and "SysEventsEnabled c \<longrightarrow> sysPs pl \<noteq> []"
  using assms
  by (auto simp: wireSinks_def split: sum.splits prod.splits option.splits if_splits)

lemma wirePipelines_Inr:
  assumes "wirePipelines env pl st = Inr (fl, st')"
  obtains fl1 st1 st2 errs st3 sys st4 where
        "gatedLoop env ''gated-audit'' auditPipeline ''failed to register audit pipeline''
           (auditPs pl) [] st = Inr (fl1, st1)"
    and "gatedLoop env ''gated-observation'' observationPipeline
           ''failed to register observation pipeline'' (observationPs pl) fl1 st1 = Inr (fl, st2)"
    and "plainLoop env errPipeline ''failed to register err pipeline'' (errPs pl) [] st2 = Inr (errs, st3)"
    and "plainLoop env sysPipeline ''failed to register sys pipeline'' (sysPs pl) [] st3 = Inr (sys, st4)"
    and "brokerCall env (SetSuccessThreshold ErrorType (length errs)) st4 = (None, st')"
  using assms
  by (auto simp: wirePipelines_def split: sum.splits prod.splits option.splits)

lemma NewEventer_Inr:
  assumes "NewEventer env log lock c opts = Inr e"
  obtains pl st fl st' where "log \<noteq> None" and "lock \<noteq> None"
    and "Validate env (withDefaultSink c) = None"
    and "wireSinks env (withDefaultSink c) (startBuilding env opts) = Inr (pl, st)"
    and "wirePipelines env pl st = Inr (fl, st')"
    and "e = \<lparr>broker = brk st', flushableNodes = fl, conf = withDefaultSink c,
               logger = the log, auditPipelines = auditPs pl,
               observationPipelines = observationPs pl, errPipelines = errPs pl\<rparr>"
  using assms
  by (auto simp: NewEventer_def Let_def split: sum.splits prod.splits option.splits if_splits)

lemma startBuilding_brk: "brk (startBuilding env opts) = brokerGiven opts @ stopCalls opts"
  by (simp add: startBuilding_def brokerGiven_def stopCalls_def Let_def brokerCall_def)

lemma callsSince_brokerGiven: "callsSince opts (brokerGiven opts @ cs) = cs"
  by (simp add: callsSince_def brokerGiven_def)

text \<open>Every call of a successful construction.\<close>

lemma NewEventer_calls:
  assumes "NewEventer env log lock c opts = Inr e"
  obtains j ids ga pa go po pe py where
        "length ids = length (Sinks (withDefaultSink c))"
    and "length ga = length (auditPipelines e)" and "length pa = length (auditPipelines e)"
    and "length go = length (observationPipelines e)" and "length po = length (observationPipelines e)"
    and "length pe = length (errPipelines e)"
    and "length py = length (pipelinesFor SystemType j (zip ids (Sinks (withDefaultSink c))))"
    and "auditPipelines e = pipelinesFor AuditType j (zip ids (Sinks (withDefaultSink c)))"
    and "observationPipelines e = pipelinesFor ObservationType j (zip ids (Sinks (withDefaultSink c)))"
    and "errPipelines e = pipelinesFor ErrorType j (zip ids (Sinks (withDefaultSink c)))"
    and "flushableNodes e = ga @ go"
    and "conf e = withDefaultSink c"
    and "callsSince opts (broker e) =
           stopCalls opts @ [RegisterNode j JSONFormatter]
           @ sinkCalls (zip ids (Sinks (withDefaultSink c)))
           @ gatedCalls (zip ga (zip pa (auditPipelines e)))
           @ gatedCalls (zip go (zip po (observationPipelines e)))
           @ plainCalls (zip pe (errPipelines e))
           @ plainCalls (zip py (pipelinesFor SystemType j (zip ids (Sinks (withDefaultSink c)))))
           @ [SetSuccessThreshold ErrorType (length (errPipelines e))]"
proof -
  from assms obtain pl st fl st' where
    ws: "wireSinks env (withDefaultSink c) (startBuilding env opts) = Inr (pl, st)"
    and wp: "wirePipelines env pl st = Inr (fl, st')"
    and e: "e = \<lparr>broker = brk st', flushableNodes = fl, conf = withDefaultSink c,
               logger = the log, auditPipelines = auditPs pl,
               observationPipelines = observationPs pl, errPipelines = errPs pl\<rparr>"
    by (rule NewEventer_Inr)
  from ws obtain j st1 st2 where
    g: "genId env ''json'' (startBuilding env opts) = Inr (j, st1)"
    and r: "brokerCall env (RegisterNode j JSONFormatter) st1 = (None, st2)"
    and sl: "sinksLoop env Map.empty j (Sinks (withDefaultSink c)) noPipelines st2 = Inr (pl, st)"
    by (rule wireSinks_Inr)
  from genId_Inr [OF g] brokerCall_eq [OF r]
  have b2: "brk st2 = brokerGiven opts @ stopCalls opts @ [RegisterNode j JSONFormatter]"
    by (simp add: startBuilding_brk)
  from sinksLoop_shape [OF sl] obtain ids where
    ids: "length ids = length (Sinks (withDefaultSink c))"
    and b3: "brk st = brk st2 @ sinkCalls (zip ids (Sinks (withDefaultSink c)))"
    and pls: "auditPs pl = pipelinesFor AuditType j (zip ids (Sinks (withDefaultSink c)))"
      "observationPs pl = pipelinesFor ObservationType j (zip ids (Sinks (withDefaultSink c)))"
      "errPs pl = pipelinesFor ErrorType j (zip ids (Sinks (withDefaultSink c)))"
      "sysPs pl = pipelinesFor SystemType j (zip ids (Sinks (withDefaultSink c)))"
    by (auto simp: noPipelines_def)
  from wp obtain fl1 t1 t2 errs t3 sys t4 where
        l1: "gatedLoop env ''gated-audit'' auditPipeline ''failed to register audit pipeline''
           (auditPs pl) [] st = Inr (fl1, t1)"
    and l2: "gatedLoop env ''gated-observation'' observationPipeline
           ''failed to register observation pipeline'' (observationPs pl) fl1 t1 = Inr (fl, t2)"
    and l3: "plainLoop env errPipeline ''failed to register err pipeline'' (errPs pl) [] t2 = Inr (errs, t3)"
    and l4: "plainLoop env sysPipeline ''failed to register sys pipeline'' (sysPs pl) [] t3 = Inr (sys, t4)"
    and th: "brokerCall env (SetSuccessThreshold ErrorType (length errs)) t4 = (None, st')"
    by (rule wirePipelines_Inr)
  from gatedLoop_shape [OF l1] obtain ga pa where
    ga: "length ga = length (auditPs pl)" "length pa = length (auditPs pl)" "fl1 = ga"
      "brk t1 = brk st @ gatedCalls (zip ga (zip pa (auditPs pl)))" by auto
  from gatedLoop_shape [OF l2] obtain go po where
    go: "length go = length (observationPs pl)" "length po = length (observationPs pl)"
      "fl = fl1 @ go" "brk t2 = brk t1 @ gatedCalls (zip go (zip po (observationPs pl)))" by auto
  from plainLoop_shape [OF l3] obtain pe where
    pe: "length pe = length (errPs pl)" "errs = map sinkId (errPs pl)"
      "brk t3 = brk t2 @ plainCalls (zip pe (errPs pl))" by auto
  from plainLoop_shape [OF l4] obtain py where
    py: "length py = length (sysPs pl)" "brk t4 = brk t3 @ plainCalls (zip py (sysPs pl))" by auto
  from brokerCall_eq [OF th] pe(2)
  have b5: "brk st' = brk t4 @ [SetSuccessThreshold ErrorType (length (errPs pl))]" by simp
  have calls: "callsSince opts (broker e) =
           stopCalls opts @ [RegisterNode j JSONFormatter]
           @ sinkCalls (zip ids (Sinks (withDefaultSink c)))
           @ gatedCalls (zip ga (zip pa (auditPipelines e)))
           @ gatedCalls (zip go (zip po (observationPipelines e)))
           @ plainCalls (zip pe (errPipelines e))
           @ plainCalls (zip py (pipelinesFor SystemType j (zip ids (Sinks (withDefaultSink c)))))
           @ [SetSuccessThreshold ErrorType (length (errPipelines e))]"
    unfolding e using callsSince_brokerGiven [of opts]
    by (simp add: b5 py(2) pe(3) go(4) ga(4) b3 b2 pls(4))
  show thesis
    by (rule that [of ids ga pa go po pe py j])
       (use ids ga go pe py pls calls in \<open>simp_all add: e\<close>)
qed

text \<open>Reading the calls of a construction.\<close>

lemma stopCalls_read [simp]:
  "nodeRegistrations (stopCalls opts) = []" "pipelinesOf (stopCalls opts) = []"
  "thresholdsOf (stopCalls opts) = []"
  by (simp_all add: stopCalls_def)

lemma sinkCalls_read [simp]:
  "nodeRegistrations (sinkCalls xs) = map (\<lambda>(i, s). (i, sinkNodeOf s)) xs"
  "pipelinesOf (sinkCalls xs) = []" "thresholdsOf (sinkCalls xs) = []"
  by (induction xs; simp add: sinkCalls_def split: prod.splits)+

lemma gatedCalls_read [simp]:
  "nodeRegistrations (gatedCalls xs) = map (\<lambda>(g, pid, p). (g, GatedFilter)) xs"
  "pipelinesOf (gatedCalls xs) = map (\<lambda>(g, pid, p). \<lparr>EventType = eventType p, PipelineID = pid,
      NodeIDs = [g, fmtId p, sinkId p]\<rparr>) xs"
  "thresholdsOf (gatedCalls xs) = []"
  by (induction xs; simp add: gatedCalls_def split: prod.splits)+

lemma plainCalls_read [simp]:
  "nodeRegistrations (plainCalls xs) = []"
  "pipelinesOf (plainCalls xs) = map (\<lambda>(pid, p). \<lparr>EventType = eventType p, PipelineID = pid,
      NodeIDs = [fmtId p, sinkId p]\<rparr>) xs"
  "thresholdsOf (plainCalls xs) = []"
  by (induction xs; simp add: plainCalls_def split: prod.splits)+

lemma length_filter_zip:
  "length ids = length ss \<Longrightarrow> length (filter (\<lambda>(i, s). P s) (zip ids ss)) = length (filter P ss)"
  by (induction ids ss rule: list_induct2) simp_all

lemma length_pipelinesFor:
  "length ids = length ss \<Longrightarrow> length (pipelinesFor t j (zip ids ss)) = length (filter (subscribes t) ss)"
  by (simp add: pipelinesFor_def length_filter_zip)

text \<open>
  eventer.go: the only threshold set is that of error events, at the number of sinks
  subscribed to error events.
\<close>

lemma NewEventer_thresholds:
  assumes "NewEventer env log lock c opts = Inr e"
  shows "thresholdsOf (callsSince opts (broker e))
           = [(ErrorType, length (filter (subscribes ErrorType) (Sinks (conf e))))]"
proof -
  from assms obtain j ids ga pa go po pe py where
        "length ids = length (Sinks (withDefaultSink c))"
    and "errPipelines e = pipelinesFor ErrorType j (zip ids (Sinks (withDefaultSink c)))"
    and "conf e = withDefaultSink c"
    and "callsSince opts (broker e) =
           stopCalls opts @ [RegisterNode j JSONFormatter]
           @ sinkCalls (zip ids (Sinks (withDefaultSink c)))
           @ gatedCalls (zip ga (zip pa (auditPipelines e)))
           @ gatedCalls (zip go (zip po (observationPipelines e)))
           @ plainCalls (zip pe (errPipelines e))
           @ plainCalls (zip py (pipelinesFor SystemType j (zip ids (Sinks (withDefaultSink c)))))
           @ [SetSuccessThreshold ErrorType (length (errPipelines e))]"
    by (rule NewEventer_calls)
  then show ?thesis by (simp add: length_pipelinesFor)
qed

subsection \<open>The calls of the earlier constructor, exactly\<close>

lemma eventTypesLoop0_flags:
  "addToAudit0 (eventTypesLoop0 ts f) = (addToAudit0 f \<or> EveryType \<in> set ts \<or> AuditType \<in> set ts)"
  "addToInfo (eventTypesLoop0 ts f) = (addToInfo f \<or> EveryType \<in> set ts \<or> InfoType \<in> set ts)"
  "addToErr0 (eventTypesLoop0 ts f) = (addToErr0 f \<or> EveryType \<in> set ts \<or> ErrorType \<in> set ts)"
  by (induction ts arbitrary: f; auto split: Type.splits)+

lemma addNodeIds_lists:
  "auditNodeIds (addNodeIds sid s nl) = auditNodeIds nl @ sinkIdsFor AuditType [(sid, s)]"
  "infoNodeIds (addNodeIds sid s nl) = infoNodeIds nl @ sinkIdsFor InfoType [(sid, s)]"
  "errNodeIds (addNodeIds sid s nl) = errNodeIds nl @ sinkIdsFor ErrorType [(sid, s)]"
  by (simp_all add: addNodeIds_def Let_def eventTypesLoop0_flags noneAdded0_def subscribes_def
        sinkIdsFor_def)

lemma sinkIdsFor_append: "sinkIdsFor t (xs @ ys) = sinkIdsFor t xs @ sinkIdsFor t ys"
  by (simp add: sinkIdsFor_def)

lemma registerSink0_Inr:
  assumes "registerSink0 env s st = Inr (sid, st')"
  shows "brk st' = brk st @ [RegisterNode sid (fileSinkOf s)]"
  using assms
  by (auto simp: registerSink0_def fileSinkOf_def dest!: genId_Inr brokerCall_eq
           split: sum.splits prod.splits option.splits)

lemma sinksLoop0_shape:
  "sinksLoop0 env ss nl st = Inr (nl', st') \<Longrightarrow>
     \<exists>ids. length ids = length ss
       \<and> brk st' = brk st @ fileSinkCalls (zip ids ss)
       \<and> auditNodeIds nl' = auditNodeIds nl @ sinkIdsFor AuditType (zip ids ss)
       \<and> infoNodeIds nl' = infoNodeIds nl @ sinkIdsFor InfoType (zip ids ss)
       \<and> errNodeIds nl' = errNodeIds nl @ sinkIdsFor ErrorType (zip ids ss)"
proof (induction ss arbitrary: nl st)
  case Nil
  then show ?case by (simp add: fileSinkCalls_def sinkIdsFor_def)
next
  case (Cons s ss)
  from Cons.prems obtain sid st1 where
    r: "registerSink0 env s st = Inr (sid, st1)"
    and l: "sinksLoop0 env ss (addNodeIds sid s nl) st1 = Inr (nl', st')"
    by (auto split: sum.splits)
  from Cons.IH [OF l] obtain ids where ids: "length ids = length ss"
    "brk st' = brk st1 @ fileSinkCalls (zip ids ss)"
    "auditNodeIds nl' = auditNodeIds (addNodeIds sid s nl) @ sinkIdsFor AuditType (zip ids ss)"
    "infoNodeIds nl' = infoNodeIds (addNodeIds sid s nl) @ sinkIdsFor InfoType (zip ids ss)"
    "errNodeIds nl' = errNodeIds (addNodeIds sid s nl) @ sinkIdsFor ErrorType (zip ids ss)"
    by blast
  have c: "\<And>t. sinkIdsFor t ((sid, s) # zip ids ss) = sinkIdsFor t [(sid, s)] @ sinkIdsFor t (zip ids ss)"
    using sinkIdsFor_append [of _ "[(sid, s)]" "zip ids ss"] by simp
  show ?case
    apply (rule exI [of _ "sid # ids"])
    apply (simp add: ids registerSink0_Inr [OF r] addNodeIds_lists c)
    apply (simp add: fileSinkCalls_def)
    done
qed

lemma registerPipelines0_Inr:
  "registerPipelines0 env nl st = Inr st' \<Longrightarrow>
     brk st' = brk st @ [
       RegisterPipeline \<lparr>EventType = AuditType, PipelineID = AuditPipeline, NodeIDs = auditNodeIds nl\<rparr>,
       RegisterPipeline \<lparr>EventType = InfoType, PipelineID = InfoPipeline, NodeIDs = infoNodeIds nl\<rparr>,
       RegisterPipeline \<lparr>EventType = ErrorType, PipelineID = ErrPipeline, NodeIDs = errNodeIds nl\<rparr>]"
  by (auto simp: registerPipelines0_def dest!: brokerCall_eq split: prod.splits option.splits)

lemma setThresholds0_Inr:
  "setThresholds0 env c nl st = Inr st' \<Longrightarrow>
     brk st' = brk st @ thresholdCalls0 c (length (auditNodeIds nl)) (length (infoNodeIds nl))
                          (length (errNodeIds nl))"
  by (auto simp: setThresholds0_def thresholdCalls0_def dest!: brokerCall_eq
           split: prod.splits option.splits if_splits sum.splits)

lemma NewEventer0_calls:
  assumes "NewEventer0 env log c = Inr e"
  obtains j ids where "length ids = length (Sinks0 (withDefaultSink0 c))"
    and "conf0 e = withDefaultSink0 c"
    and "broker0 e = [RegisterNode j JSONFormatter]
           @ fileSinkCalls (zip ids (Sinks0 (withDefaultSink0 c)))
           @ [RegisterPipeline \<lparr>EventType = AuditType, PipelineID = AuditPipeline,
                NodeIDs = j # sinkIdsFor AuditType (zip ids (Sinks0 (withDefaultSink0 c)))\<rparr>,
              RegisterPipeline \<lparr>EventType = InfoType, PipelineID = InfoPipeline,
                NodeIDs = j # sinkIdsFor InfoType (zip ids (Sinks0 (withDefaultSink0 c)))\<rparr>,
              RegisterPipeline \<lparr>EventType = ErrorType, PipelineID = ErrPipeline,
                NodeIDs = j # sinkIdsFor ErrorType (zip ids (Sinks0 (withDefaultSink0 c)))\<rparr>]
           @ thresholdCalls0 c
               (Suc (length (sinkIdsFor AuditType (zip ids (Sinks0 (withDefaultSink0 c))))))
               (Suc (length (sinkIdsFor InfoType (zip ids (Sinks0 (withDefaultSink0 c))))))
               (Suc (length (sinkIdsFor ErrorType (zip ids (Sinks0 (withDefaultSink0 c))))))"
proof -
  from assms obtain j st1 st2 nl st3 st4 st5 where
    g: "genId env ''json'' \<lparr>idCount = 0, brk = NewBroker\<rparr> = Inr (j, st1)"
    and r: "brokerCall env (RegisterNode j JSONFormatter) st1 = (None, st2)"
    and sl: "sinksLoop0 env (Sinks0 (withDefaultSink0 c))
               \<lparr>auditNodeIds = [j], infoNodeIds = [j], errNodeIds = [j]\<rparr> st2 = Inr (nl, st3)"
    and rp: "registerPipelines0 env nl st3 = Inr st4"
    and th: "setThresholds0 env (withDefaultSink0 c) nl st4 = Inr st5"
    and e: "e = \<lparr>broker0 = brk st5, conf0 = withDefaultSink0 c, logger0 = the log\<rparr>"
    by (auto simp: NewEventer0_def Let_def split: sum.splits prod.splits option.splits if_splits)
  from genId_Inr [OF g] brokerCall_eq [OF r]
  have b2: "brk st2 = [RegisterNode j JSONFormatter]" by (simp add: NewBroker_def)
  from sinksLoop0_shape [OF sl] obtain ids where
    ids: "length ids = length (Sinks0 (withDefaultSink0 c))"
    "brk st3 = brk st2 @ fileSinkCalls (zip ids (Sinks0 (withDefaultSink0 c)))"
    "auditNodeIds nl = j # sinkIdsFor AuditType (zip ids (Sinks0 (withDefaultSink0 c)))"
    "infoNodeIds nl = j # sinkIdsFor InfoType (zip ids (Sinks0 (withDefaultSink0 c)))"
    "errNodeIds nl = j # sinkIdsFor ErrorType (zip ids (Sinks0 (withDefaultSink0 c)))"
    by auto
  have d: "thresholdCalls0 (withDefaultSink0 c) = thresholdCalls0 c"
    by (simp add: thresholdCalls0_def withDefaultSink0_def fun_eq_iff)
  show thesis
    by (rule that [of ids j])
       (simp_all add: e ids b2 registerPipelines0_Inr [OF rp] setThresholds0_Inr [OF th] d)
qed

lemma length_sinkIdsFor:
  "length ids = length ss \<Longrightarrow> length (sinkIdsFor t (zip ids ss)) = length (filter (subscribes t) ss)"
  by (simp add: sinkIdsFor_def length_filter_zip)

lemma fileSinkCalls_read [simp]:
  "nodeRegistrations (fileSinkCalls xs) = map (\<lambda>(i, s). (i, fileSinkOf s)) xs"
  "pipelinesOf (fileSinkCalls xs) = []" "thresholdsOf (fileSinkCalls xs) = []"
  by (induction xs; simp add: fileSinkCalls_def split: prod.splits)+

lemma thresholdCalls0_read [simp]:
  "nodeRegistrations (thresholdCalls0 c a i e) = []"
  "pipelinesOf (thresholdCalls0 c a i e) = []"
  "thresholdsOf (thresholdCalls0 c a i e) =
     (if AuditDelivery c = Enforced then [(AuditType, a)] else [])
     @ (if InfoDelivery c = Enforced then [(InfoType, i)] else []) @ [(ErrorType, e)]"
  by (simp_all add: thresholdCalls0_def)

text \<open>Each pipeline of the earlier revision is the formatter followed by the subscribed sinks.\<close>

lemma NewEventer0_pipeline_lengths:
  assumes "NewEventer0 env log c0 = Inr e0"
  shows "map (\<lambda>P. (EventType P, length (NodeIDs P))) (pipelinesOf (broker0 e0)) =
     [(AuditType, Suc (length (filter (subscribes AuditType) (Sinks0 (conf0 e0))))),
      (InfoType, Suc (length (filter (subscribes InfoType) (Sinks0 (conf0 e0))))),
      (ErrorType, Suc (length (filter (subscribes ErrorType) (Sinks0 (conf0 e0)))))]"
proof -
  from assms obtain j ids where "length ids = length (Sinks0 (withDefaultSink0 c0))"
    and "conf0 e0 = withDefaultSink0 c0"
    and "broker0 e0 = [RegisterNode j JSONFormatter]
           @ fileSinkCalls (zip ids (Sinks0 (withDefaultSink0 c0)))
           @ [RegisterPipeline \<lparr>EventType = AuditType, PipelineID = AuditPipeline,
                NodeIDs = j # sinkIdsFor AuditType (zip ids (Sinks0 (withDefaultSink0 c0)))\<rparr>,
              RegisterPipeline \<lparr>EventType = InfoType, PipelineID = InfoPipeline,
                NodeIDs = j # sinkIdsFor InfoType (zip ids (Sinks0 (withDefaultSink0 c0)))\<rparr>,
              RegisterPipeline \<lparr>EventType = ErrorType, PipelineID = ErrPipeline,
                NodeIDs = j # sinkIdsFor ErrorType (zip ids (Sinks0 (withDefaultSink0 c0)))\<rparr>]
           @ thresholdCalls0 c0
               (Suc (length (sinkIdsFor AuditType (zip ids (Sinks0 (withDefaultSink0 c0))))))
               (Suc (length (sinkIdsFor InfoType (zip ids (Sinks0 (withDefaultSink0 c0))))))
               (Suc (length (sinkIdsFor ErrorType (zip ids (Sinks0 (withDefaultSink0 c0))))))"
    by (rule NewEventer0_calls)
  then show ?thesis by (simp add: length_sinkIdsFor)
qed

subsection \<open>The errors of eventer.go's constructor\<close>

text \<open>
  With the map of seen file names empty throughout, every error \<open>NewEventer\<close> returns
  wraps another one; none is the duplicate-file-sink error.
\<close>

lemma registerSink_empty_Inl:
  "registerSink env Map.empty s st = Inl err \<Longrightarrow> \<exists>m cause. err = Wrapf m cause"
  by (auto simp: registerSink_def split: SinkType.splits sum.splits prod.splits option.splits)

lemma sinksLoop_empty_Inl:
  "sinksLoop env Map.empty j ss pl st = Inl err \<Longrightarrow> \<exists>m cause. err = Wrapf m cause"
  by (induction ss arbitrary: pl st) (auto split: sum.splits dest: registerSink_empty_Inl)

lemma gatedLoop_Inl:
  "gatedLoop env gp pp msg ps fl st = Inl err \<Longrightarrow> \<exists>m cause. err = Wrapf m cause"
  by (induction ps arbitrary: fl st)
     (auto simp: gatedBody_def split: sum.splits prod.splits option.splits)

lemma plainLoop_Inl:
  "plainLoop env pp msg ps ns st = Inl err \<Longrightarrow> \<exists>m cause. err = Wrapf m cause"
  by (induction ps arbitrary: ns st)
     (auto simp: plainBody_def split: sum.splits prod.splits option.splits)

lemma wireSinks_Inl:
  "wireSinks env c st = Inl err \<Longrightarrow> \<exists>m cause. err = Wrapf m cause"
  by (auto simp: wireSinks_def split: sum.splits prod.splits option.splits if_splits
           dest: sinksLoop_empty_Inl)

lemma wirePipelines_Inl:
  "wirePipelines env pl st = Inl err \<Longrightarrow> \<exists>m cause. err = Wrapf m cause"
  by (auto simp: wirePipelines_def split: sum.splits prod.splits option.splits
           dest: gatedLoop_Inl plainLoop_Inl)

lemma NewEventer_never_reports_duplicate:
  "NewEventer env log lock c opts \<noteq> Inl (Errorf m)"
proof
  assume "NewEventer env log lock c opts = Inl (Errorf m)"
  then have "\<exists>m' cause. Errorf m = Wrapf m' cause"
    by (auto simp: NewEventer_def Let_def split: sum.splits prod.splits option.splits if_splits
             dest: wireSinks_Inl wirePipelines_Inl)
  then show False by simp
qed

subsection \<open>A configuration without sinks\<close>

lemma withDefaultSink_empty:
  "Sinks c = [] \<Longrightarrow> withDefaultSink c = c\<lparr>Sinks := [DefaultSink]\<rparr>"
  "withDefaultSink (c\<lparr>Sinks := [DefaultSink]\<rparr>) = c\<lparr>Sinks := [DefaultSink]\<rparr>"
  by (simp_all add: withDefaultSink_def)

lemma NewEventer_default:
  "Sinks c = [] \<Longrightarrow>
     NewEventer env log lock c opts = NewEventer env log lock (c\<lparr>Sinks := [DefaultSink]\<rparr>) opts"
  by (simp add: NewEventer_def withDefaultSink_empty)

lemma DefaultSink_subscribes [simp]: "subscribes t DefaultSink"
  by (simp add: subscribes_def DefaultSink_def)

lemma sinkNodeOf_DefaultSink [simp]:
  "sinkNodeOf DefaultSink = WriterSink JSONSinkFormat SerializedStderr"
  by (simp add: sinkNodeOf_def DefaultSink_def)

lemma singleton_length: "length xs = Suc 0 \<Longrightarrow> \<exists>x. xs = [x]"
  by (cases xs) auto

lemma NewEventer_default_calls:
  assumes "Sinks c = []" and "NewEventer env log lock c opts = Inr e"
  shows "Sinks (conf e) = [DefaultSink]
     \<and> (\<exists>j i ga go. nodeRegistrations (callsSince opts (broker e)) =
            [(j, JSONFormatter), (i, WriterSink JSONSinkFormat SerializedStderr),
             (ga, GatedFilter), (go, GatedFilter)]
          \<and> map (\<lambda>P. (EventType P, NodeIDs P)) (pipelinesOf (callsSince opts (broker e))) =
            [(AuditType, [ga, j, i]), (ObservationType, [go, j, i]),
             (ErrorType, [j, i]), (SystemType, [j, i])])"
proof -
  have d: "Sinks (withDefaultSink c) = [DefaultSink]"
    using assms(1) by (simp add: withDefaultSink_empty)
  from assms(2) obtain j ids ga pa go po pe py where
        "length ids = length (Sinks (withDefaultSink c))"
    and "length ga = length (auditPipelines e)" and "length pa = length (auditPipelines e)"
    and "length go = length (observationPipelines e)" and "length po = length (observationPipelines e)"
    and "length pe = length (errPipelines e)"
    and "length py = length (pipelinesFor SystemType j (zip ids (Sinks (withDefaultSink c))))"
    and "auditPipelines e = pipelinesFor AuditType j (zip ids (Sinks (withDefaultSink c)))"
    and "observationPipelines e = pipelinesFor ObservationType j (zip ids (Sinks (withDefaultSink c)))"
    and "errPipelines e = pipelinesFor ErrorType j (zip ids (Sinks (withDefaultSink c)))"
    and "conf e = withDefaultSink c"
    and calls: "callsSince opts (broker e) =
           stopCalls opts @ [RegisterNode j JSONFormatter]
           @ sinkCalls (zip ids (Sinks (withDefaultSink c)))
           @ gatedCalls (zip ga (zip pa (auditPipelines e)))
           @ gatedCalls (zip go (zip po (observationPipelines e)))
           @ plainCalls (zip pe (errPipelines e))
           @ plainCalls (zip py (pipelinesFor SystemType j (zip ids (Sinks (withDefaultSink c)))))
           @ [SetSuccessThreshold ErrorType (length (errPipelines e))]"
    by (rule NewEventer_calls)
  note h = this(1-11)
  from h(1) d obtain i where i: "ids = [i]" by (auto dest: singleton_length)
  have p': "\<And>t. pipelinesFor t j [(i, DefaultSink)] = [pipelineFor t j i DefaultSink]"
    by (simp add: pipelinesFor_def)
  have p: "\<And>t. pipelinesFor t j (zip ids (Sinks (withDefaultSink c))) = [pipelineFor t j i DefaultSink]"
    by (simp add: i d p')
  from h p obtain g1 p1 g2 p2 p3 p4 where
    l: "ga = [g1]" "pa = [p1]" "go = [g2]" "po = [p2]" "pe = [p3]" "py = [p4]"
    by (auto dest!: singleton_length)
  show ?thesis
    apply (rule conjI)
     apply (simp add: h(11) d)
    apply (rule exI [of _ j], rule exI [of _ i], rule exI [of _ g1], rule exI [of _ g2])
    apply (simp add: calls h(8,9,10) p' l i d pipelineFor_def)
    done
qed

lemma NewEventer_default_succeeds:
  assumes "Sinks c = []" and "log \<noteq> None" and "lock \<noteq> None"
      and "accepting env (c\<lparr>Sinks := [DefaultSink]\<rparr>)"
  shows "\<exists>e. NewEventer env log lock c opts = Inr e"
proof -
  from assms(4) have v: "Validate env (c\<lparr>Sinks := [DefaultSink]\<rparr>) = None"
    and "\<forall>k p. \<exists>i. newId env k p = Inr i" and r: "\<And>cs call. respond env cs call = None"
    by (simp_all add: accepting_def)
  then obtain f where f: "\<And>k p. newId env k p = Inr (f k p)" by metis
  have s: "subscribes AuditType DefaultSink" "subscribes ObservationType DefaultSink"
    "subscribes ErrorType DefaultSink" "subscribes SystemType DefaultSink"
    by simp_all
  have t: "SinkType DefaultSink = StderrSink" by (simp add: DefaultSink_def)
  show ?thesis
    using assms(2,3)
    by (simp add: NewEventer_def withDefaultSink_empty(1) [OF assms(1)] v wireSinks_def
          wirePipelines_def registerSink_def gatedBody_def plainBody_def genId_def
          brokerCall_def f r t addPipelines_lists noPipelines_def Let_def)
qed

subsection \<open>A broker that refuses known ids registers every id once\<close>

lemma nodeRegistrations_drop:
  "set (nodeRegistrations (drop k cs)) \<subseteq> set (nodeRegistrations cs)"
proof -
  have "nodeRegistrations cs = nodeRegistrations (take k cs) @ nodeRegistrations (drop k cs)"
    using nodeRegistrations_append [of "take k cs" "drop k cs"] by simp
  then show ?thesis by auto
qed

lemma fresh_RegisterNode:
  assumes "refusesKnownIds env" and "respond env cs (RegisterNode i n) = None"
      and "k \<le> length cs \<and> distinct (map fst (nodeRegistrations (drop k cs)))"
  shows "k \<le> length (cs @ [RegisterNode i n])
       \<and> distinct (map fst (nodeRegistrations (drop k (cs @ [RegisterNode i n]))))"
proof -
  from assms(1,2) have "i \<notin> fst ` set (nodeRegistrations cs)"
    unfolding refusesKnownIds_def by blast
  with nodeRegistrations_drop [of k cs] have "i \<notin> fst ` set (nodeRegistrations (drop k cs))"
    by blast
  with assms(3) show ?thesis by simp
qed

lemma fresh_other:
  assumes "nodeRegistrations [c] = []"
      and "k \<le> length cs \<and> distinct (map fst (nodeRegistrations (drop k cs)))"
  shows "k \<le> length (cs @ [c]) \<and> distinct (map fst (nodeRegistrations (drop k (cs @ [c]))))"
  using assms by simp

lemma sinksLoop_fresh:
  assumes "refusesKnownIds env" and "sinksLoop env seen j ss pl st = Inr (pl', st')"
      and "k \<le> length (brk st) \<and> distinct (map fst (nodeRegistrations (drop k (brk st))))"
  shows "k \<le> length (brk st') \<and> distinct (map fst (nodeRegistrations (drop k (brk st'))))"
proof (rule sinksLoop_rule [OF assms(2), where I = "\<lambda>past q t.
         k \<le> length (brk t) \<and> distinct (map fst (nodeRegistrations (drop k (brk t))))"])
  show "k \<le> length (brk st) \<and> distinct (map fst (nodeRegistrations (drop k (brk st))))"
    by (rule assms(3))
next
  fix s sid and t t' :: "'a building"
  assume i: "k \<le> length (brk t) \<and> distinct (map fst (nodeRegistrations (drop k (brk t))))"
    and r: "registerSink env seen s t = Inr (sid, t')"
  from fresh_RegisterNode [OF assms(1) registerSink_Inr(2) [OF r] i] registerSink_Inr(1) [OF r]
  show "k \<le> length (brk t') \<and> distinct (map fst (nodeRegistrations (drop k (brk t'))))"
    by simp
qed

lemma gatedLoop_fresh:
  assumes "refusesKnownIds env" and "gatedLoop env gp pp msg ps fl st = Inr (fl', st')"
      and "k \<le> length (brk st) \<and> distinct (map fst (nodeRegistrations (drop k (brk st))))"
  shows "k \<le> length (brk st') \<and> distinct (map fst (nodeRegistrations (drop k (brk st'))))"
proof (rule gatedLoop_rule [OF assms(2), where I = "\<lambda>past f t.
         k \<le> length (brk t) \<and> distinct (map fst (nodeRegistrations (drop k (brk t))))"])
  show "k \<le> length (brk st) \<and> distinct (map fst (nodeRegistrations (drop k (brk st))))"
    by (rule assms(3))
next
  fix p gid and t t' :: "'a building"
  assume i: "k \<le> length (brk t) \<and> distinct (map fst (nodeRegistrations (drop k (brk t))))"
    and r: "gatedBody env gp pp msg p t = Inr (gid, t')"
  from gatedBody_Inr(1) [OF r] obtain pid where
    b: "brk t' = (brk t @ [RegisterNode gid GatedFilter])
          @ [RegisterPipeline \<lparr>EventType = eventType p, PipelineID = pid,
               NodeIDs = [gid, fmtId p, sinkId p]\<rparr>]" by auto
  have "k \<le> length ((brk t @ [RegisterNode gid GatedFilter])
          @ [RegisterPipeline \<lparr>EventType = eventType p, PipelineID = pid,
               NodeIDs = [gid, fmtId p, sinkId p]\<rparr>])
      \<and> distinct (map fst (nodeRegistrations (drop k ((brk t @ [RegisterNode gid GatedFilter])
          @ [RegisterPipeline \<lparr>EventType = eventType p, PipelineID = pid,
               NodeIDs = [gid, fmtId p, sinkId p]\<rparr>]))))"
    by (rule fresh_other [OF _ fresh_RegisterNode [OF assms(1) gatedBody_Inr(2) [OF r] i]]) simp
  then show "k \<le> length (brk t') \<and> distinct (map fst (nodeRegistrations (drop k (brk t'))))"
    unfolding b .
qed

lemma plainLoop_fresh:
  assumes "plainLoop env pp msg ps ns st = Inr (ns', st')"
      and "k \<le> length (brk st) \<and> distinct (map fst (nodeRegistrations (drop k (brk st))))"
  shows "k \<le> length (brk st') \<and> distinct (map fst (nodeRegistrations (drop k (brk st'))))"
proof (rule plainLoop_rule [OF assms(1), where I = "\<lambda>past f t.
         k \<le> length (brk t) \<and> distinct (map fst (nodeRegistrations (drop k (brk t))))"])
  show "k \<le> length (brk st) \<and> distinct (map fst (nodeRegistrations (drop k (brk st))))"
    by (rule assms(2))
next
  fix p and t t' :: "'a building"
  assume i: "k \<le> length (brk t) \<and> distinct (map fst (nodeRegistrations (drop k (brk t))))"
    and r: "plainBody env pp msg p t = Inr t'"
  from plainBody_Inr [OF r] obtain pid where
    b: "brk t' = brk t @ [RegisterPipeline \<lparr>EventType = eventType p, PipelineID = pid,
               NodeIDs = [fmtId p, sinkId p]\<rparr>]" by auto
  have "k \<le> length (brk t @ [RegisterPipeline \<lparr>EventType = eventType p, PipelineID = pid,
               NodeIDs = [fmtId p, sinkId p]\<rparr>])
      \<and> distinct (map fst (nodeRegistrations (drop k (brk t @ [RegisterPipeline
            \<lparr>EventType = eventType p, PipelineID = pid, NodeIDs = [fmtId p, sinkId p]\<rparr>]))))"
    by (rule fresh_other [OF _ i]) simp
  then show "k \<le> length (brk t') \<and> distinct (map fst (nodeRegistrations (drop k (brk t'))))"
    unfolding b .
qed

lemma callsSince_drop: "callsSince opts b = drop (length (brokerGiven opts)) b"
  by (simp add: callsSince_def brokerGiven_def)

lemma NewEventer_distinct_ids:
  assumes "refusesKnownIds env" and "NewEventer env log lock c opts = Inr e"
  shows "distinct (map fst (nodeRegistrations (callsSince opts (broker e))))"
proof -
  let ?k = "length (brokerGiven opts)"
  let ?inv = "\<lambda>t. ?k \<le> length (brk t) \<and> distinct (map fst (nodeRegistrations (drop ?k (brk t))))"
  from assms(2) obtain pl st fl st' where
    ws: "wireSinks env (withDefaultSink c) (startBuilding env opts) = Inr (pl, st)"
    and wp: "wirePipelines env pl st = Inr (fl, st')"
    and e: "e = \<lparr>broker = brk st', flushableNodes = fl, conf = withDefaultSink c,
               logger = the log, auditPipelines = auditPs pl,
               observationPipelines = observationPs pl, errPipelines = errPs pl\<rparr>"
    by (rule NewEventer_Inr)
  from ws obtain j st1 st2 where
    g: "genId env ''json'' (startBuilding env opts) = Inr (j, st1)"
    and r: "brokerCall env (RegisterNode j JSONFormatter) st1 = (None, st2)"
    and sl: "sinksLoop env Map.empty j (Sinks (withDefaultSink c)) noPipelines st2 = Inr (pl, st)"
    by (rule wireSinks_Inr)
  from wp obtain fl1 t1 t2 errs t3 sys t4 where
        l1: "gatedLoop env ''gated-audit'' auditPipeline ''failed to register audit pipeline''
           (auditPs pl) [] st = Inr (fl1, t1)"
    and l2: "gatedLoop env ''gated-observation'' observationPipeline
           ''failed to register observation pipeline'' (observationPs pl) fl1 t1 = Inr (fl, t2)"
    and l3: "plainLoop env errPipeline ''failed to register err pipeline'' (errPs pl) [] t2 = Inr (errs, t3)"
    and l4: "plainLoop env sysPipeline ''failed to register sys pipeline'' (sysPs pl) [] t3 = Inr (sys, t4)"
    and th: "brokerCall env (SetSuccessThreshold ErrorType (length errs)) t4 = (None, st')"
    by (rule wirePipelines_Inr)
  have "?inv (startBuilding env opts)" by (simp add: startBuilding_brk)
  with genId_Inr [OF g] have i1: "?inv st1" by simp
  from brokerCall_eq [OF r] have b2: "brk st2 = brk st1 @ [RegisterNode j JSONFormatter]"
    and "respond env (brk st1) (RegisterNode j JSONFormatter) = None" by simp_all
  from fresh_RegisterNode [OF assms(1) this(2) i1] b2 have "?inv st2" by simp
  from sinksLoop_fresh [OF assms(1) sl this] have "?inv st" .
  from gatedLoop_fresh [OF assms(1) l1 this] have "?inv t1" .
  from gatedLoop_fresh [OF assms(1) l2 this] have "?inv t2" .
  from plainLoop_fresh [OF l3 this] have "?inv t3" .
  from plainLoop_fresh [OF l4 this] have "?inv t4" .
  have "?k \<le> length (brk t4 @ [SetSuccessThreshold ErrorType (length errs)])
      \<and> distinct (map fst (nodeRegistrations (drop ?k
            (brk t4 @ [SetSuccessThreshold ErrorType (length errs)]))))"
    by (rule fresh_other [OF _ \<open>?inv t4\<close>]) simp
  with brokerCall_eq [OF th] have "?inv st'" by simp
  then show ?thesis by (simp add: e callsSince_drop)
qed

subsection \<open>Wiring\<close>

lemma map_zip3:
  assumes "length gs = length ps" and "length pids = length ps"
  shows "map (\<lambda>(g, pid, p). h p) (zip gs (zip pids ps)) = map h ps"
proof -
  from assms have "length gs = length pids" "length pids = length ps" by simp_all
  then show ?thesis by (induction gs pids ps rule: list_induct3) simp_all
qed

lemma map_zip2:
  "length pids = length ps \<Longrightarrow> map (\<lambda>(pid, p). h p) (zip pids ps) = map h ps"
  by (induction pids ps rule: list_induct2) simp_all

lemma eventType_pipelinesFor:
  "map eventType (pipelinesFor t j xs) = replicate (length (pipelinesFor t j xs)) t"
  by (induction xs) (auto simp: pipelinesFor_def pipelineFor_def)

lemma pipelinesFor_mem:
  "p \<in> set (pipelinesFor t j xs) \<Longrightarrow>
     \<exists>i s. (i, s) \<in> set xs \<and> eventType p = t \<and> fmtId p = j \<and> sinkId p = i"
  by (auto simp: pipelinesFor_def pipelineFor_def)

lemma isSink_sinkNodeOf [simp]: "isSink (sinkNodeOf s)"
  by (simp add: sinkNodeOf_def split: SinkType.splits)

lemma gatedCalls_append: "gatedCalls (xs @ ys) = gatedCalls xs @ gatedCalls ys"
  by (simp add: gatedCalls_def)

lemma gatedCalls_mem:
  assumes "(g, pid, p) \<in> set zs"
  shows "\<exists>pre post. gatedCalls zs = pre @ RegisterNode g GatedFilter
           # RegisterPipeline \<lparr>EventType = eventType p, PipelineID = pid,
               NodeIDs = [g, fmtId p, sinkId p]\<rparr> # post"
proof -
  from assms obtain as bs where "zs = as @ (g, pid, p) # bs" by (auto dest: split_list)
  then have "gatedCalls zs = gatedCalls as @ RegisterNode g GatedFilter
           # RegisterPipeline \<lparr>EventType = eventType p, PipelineID = pid,
               NodeIDs = [g, fmtId p, sinkId p]\<rparr> # gatedCalls bs"
    by (simp add: gatedCalls_append) (simp add: gatedCalls_def)
  then show ?thesis by blast
qed

lemma registeredNode_mem:
  "distinct (map fst (nodeRegistrations cs)) \<Longrightarrow> (i, n) \<in> set (nodeRegistrations cs) \<Longrightarrow>
     registeredNode cs i = Some n"
  by (simp add: registeredNode_def)

text \<open>eventer.go: how the pipelines of a successful construction are wired.\<close>

lemma NewEventer_wiring:
  assumes "refusesKnownIds (env :: 'ev env)" and "NewEventer env log lock c opts = Inr e"
  defines "new \<equiv> callsSince opts (broker e)"
  shows "map EventType (pipelinesOf new) =
           replicate (length (filter (subscribes AuditType) (Sinks (conf e)))) AuditType
           @ replicate (length (filter (subscribes ObservationType) (Sinks (conf e)))) ObservationType
           @ replicate (length (filter (subscribes ErrorType) (Sinks (conf e)))) ErrorType
           @ replicate (length (filter (subscribes SystemType) (Sinks (conf e)))) SystemType"
    and "\<forall>P \<in> set (pipelinesOf new). EventType P = AuditType \<or> EventType P = ObservationType \<longrightarrow>
           (\<exists>g f s n. NodeIDs P = [g, f, s] \<and> registeredNode new g = Some GatedFilter
              \<and> registeredNode new f = Some JSONFormatter
              \<and> registeredNode new s = Some n \<and> isSink n
              \<and> (\<exists>pre post. new = pre @ RegisterNode g GatedFilter # RegisterPipeline P # post))"
    and "\<forall>P \<in> set (pipelinesOf new). EventType P = ErrorType \<or> EventType P = SystemType \<longrightarrow>
           (\<exists>f s n. NodeIDs P = [f, s] \<and> registeredNode new f = Some JSONFormatter
              \<and> registeredNode new s = Some n \<and> isSink n)"
proof -
  let ?xs = "\<lambda>j ids. zip ids (Sinks (withDefaultSink c))"
  from assms(2) obtain j ids ga pa go po pe py where
        l: "length ids = length (Sinks (withDefaultSink c))"
      "length ga = length (auditPipelines e)" "length pa = length (auditPipelines e)"
      "length go = length (observationPipelines e)" "length po = length (observationPipelines e)"
      "length pe = length (errPipelines e)"
      "length py = length (pipelinesFor SystemType j (zip ids (Sinks (withDefaultSink c))))"
    and p: "auditPipelines e = pipelinesFor AuditType j (zip ids (Sinks (withDefaultSink c)))"
      "observationPipelines e = pipelinesFor ObservationType j (zip ids (Sinks (withDefaultSink c)))"
      "errPipelines e = pipelinesFor ErrorType j (zip ids (Sinks (withDefaultSink c)))"
    and "flushableNodes e = ga @ go"
    and cf: "conf e = withDefaultSink c"
    and calls: "new =
           stopCalls opts @ [RegisterNode j JSONFormatter]
           @ sinkCalls (zip ids (Sinks (withDefaultSink c)))
           @ gatedCalls (zip ga (zip pa (auditPipelines e)))
           @ gatedCalls (zip go (zip po (observationPipelines e)))
           @ plainCalls (zip pe (errPipelines e))
           @ plainCalls (zip py (pipelinesFor SystemType j (zip ids (Sinks (withDefaultSink c)))))
           @ [SetSuccessThreshold ErrorType (length (errPipelines e))]"
    unfolding new_def by (rule NewEventer_calls)
  let ?ss = "zip ids (Sinks (withDefaultSink c))"
  let ?gated = "\<lambda>(g, pid, p). \<lparr>EventType = eventType p, PipelineID = pid,
      NodeIDs = [g, fmtId p, sinkId p]\<rparr>"
  let ?plain = "\<lambda>(pid, p). \<lparr>EventType = eventType p, PipelineID = pid,
      NodeIDs = [fmtId p, sinkId p]\<rparr>"
  have regs: "nodeRegistrations new = (j, JSONFormatter) # map (\<lambda>(i, s). (i, sinkNodeOf s)) ?ss
       @ map (\<lambda>(g, pid, p). (g, GatedFilter)) (zip ga (zip pa (auditPipelines e)))
       @ map (\<lambda>(g, pid, p). (g, GatedFilter)) (zip go (zip po (observationPipelines e)))"
    by (simp add: calls)
  have pipes: "pipelinesOf new = map ?gated (zip ga (zip pa (auditPipelines e)))
       @ map ?gated (zip go (zip po (observationPipelines e)))
       @ map ?plain (zip pe (errPipelines e))
       @ map ?plain (zip py (pipelinesFor SystemType j ?ss))"
    by (simp add: calls)
  have dist: "distinct (map fst (nodeRegistrations new))"
    unfolding new_def by (rule NewEventer_distinct_ids [OF assms(1,2)])
  have fmt: "registeredNode new j = Some JSONFormatter"
    by (rule registeredNode_mem [OF dist]) (simp add: regs)
  have sink: "\<exists>n. registeredNode new i = Some n \<and> isSink n" if "(i, s) \<in> set ?ss" for i s
  proof -
    from that have "(i, sinkNodeOf s) \<in> set (nodeRegistrations new)"
      by (force simp: regs)
    from registeredNode_mem [OF dist this] show ?thesis by simp
  qed
  have ty: "map (\<lambda>z. EventType (?gated z)) (zip ga (zip pa (auditPipelines e)))
              = map eventType (auditPipelines e)"
      "map (\<lambda>z. EventType (?gated z)) (zip go (zip po (observationPipelines e)))
              = map eventType (observationPipelines e)"
      "map (\<lambda>z. EventType (?plain z)) (zip pe (errPipelines e)) = map eventType (errPipelines e)"
      "map (\<lambda>z. EventType (?plain z)) (zip py (pipelinesFor SystemType j ?ss))
              = map eventType (pipelinesFor SystemType j ?ss)"
    using map_zip3 [OF l(2,3), of eventType] map_zip3 [OF l(4,5), of eventType]
      map_zip2 [OF l(6), of eventType] map_zip2 [OF l(7), of eventType]
    by (simp_all add: case_prod_unfold)
  show "map EventType (pipelinesOf new) =
           replicate (length (filter (subscribes AuditType) (Sinks (conf e)))) AuditType
           @ replicate (length (filter (subscribes ObservationType) (Sinks (conf e)))) ObservationType
           @ replicate (length (filter (subscribes ErrorType) (Sinks (conf e)))) ErrorType
           @ replicate (length (filter (subscribes SystemType) (Sinks (conf e)))) SystemType"
    by (simp add: pipes ty o_def) (simp add: p eventType_pipelinesFor length_pipelinesFor [OF l(1)] cf)
  have gatedP: "\<exists>g f s n. NodeIDs (?gated z) = [g, f, s] \<and> registeredNode new g = Some GatedFilter
              \<and> registeredNode new f = Some JSONFormatter
              \<and> registeredNode new s = Some n \<and> isSink n
              \<and> (\<exists>pre post. new = pre @ RegisterNode g GatedFilter # RegisterPipeline (?gated z) # post)"
    if z: "z \<in> set (zip ga (zip pa (auditPipelines e))) \<or> z \<in> set (zip go (zip po (observationPipelines e)))"
    for z
  proof -
    obtain g pid q where zq: "z = (g, pid, q)" by (cases z) auto
    from z zq have "q \<in> set (auditPipelines e) \<or> q \<in> set (observationPipelines e)"
      by (auto dest!: set_zip_rightD)
    with p obtain i s where sk: "(i, s) \<in> set ?ss" "fmtId q = j" "sinkId q = i"
      by (auto dest!: pipelinesFor_mem)
    from z zq have "(g, GatedFilter) \<in> set (nodeRegistrations new)"
      by (force simp: regs)
    from registeredNode_mem [OF dist this] have gt: "registeredNode new g = Some GatedFilter" .
    from z have "\<exists>pre post. new = pre @ RegisterNode g GatedFilter # RegisterPipeline (?gated z) # post"
    proof
      assume "z \<in> set (zip ga (zip pa (auditPipelines e)))"
      from gatedCalls_mem [OF this [unfolded zq]] obtain pre post where
        "(gatedCalls (zip ga (zip pa (auditPipelines e))) :: 'ev broker)
           = pre @ RegisterNode g GatedFilter # RegisterPipeline (?gated z) # post"
        by (auto simp: zq)
      then show ?thesis
        unfolding calls
        by (intro exI [of _ "stopCalls opts @ [RegisterNode j JSONFormatter] @ sinkCalls ?ss @ pre"]
                  exI [of _ "post @ gatedCalls (zip go (zip po (observationPipelines e)))
           @ plainCalls (zip pe (errPipelines e))
           @ plainCalls (zip py (pipelinesFor SystemType j ?ss))
           @ [SetSuccessThreshold ErrorType (length (errPipelines e))]"]) simp
    next
      assume "z \<in> set (zip go (zip po (observationPipelines e)))"
      from gatedCalls_mem [OF this [unfolded zq]] obtain pre post where
        "(gatedCalls (zip go (zip po (observationPipelines e))) :: 'ev broker)
           = pre @ RegisterNode g GatedFilter # RegisterPipeline (?gated z) # post"
        by (auto simp: zq)
      then show ?thesis
        unfolding calls
        by (intro exI [of _ "stopCalls opts @ [RegisterNode j JSONFormatter] @ sinkCalls ?ss
              @ gatedCalls (zip ga (zip pa (auditPipelines e))) @ pre"]
                  exI [of _ "post @ plainCalls (zip pe (errPipelines e))
           @ plainCalls (zip py (pipelinesFor SystemType j ?ss))
           @ [SetSuccessThreshold ErrorType (length (errPipelines e))]"]) simp
    qed
    with gt fmt sink [OF sk(1)] sk(2,3) show ?thesis
      by (auto simp: zq)
  qed
  have plainP: "\<exists>f s n. NodeIDs (?plain z) = [f, s] \<and> registeredNode new f = Some JSONFormatter
              \<and> registeredNode new s = Some n \<and> isSink n"
    if z: "z \<in> set (zip pe (errPipelines e)) \<or> z \<in> set (zip py (pipelinesFor SystemType j ?ss))"
    for z
  proof -
    obtain pid q where zq: "z = (pid, q)" by (cases z) auto
    from z zq have "q \<in> set (errPipelines e) \<or> q \<in> set (pipelinesFor SystemType j ?ss)"
      by (auto dest!: set_zip_rightD)
    with p obtain i s where sk: "(i, s) \<in> set ?ss" "fmtId q = j" "sinkId q = i"
      by (auto dest!: pipelinesFor_mem)
    with fmt sink [OF sk(1)] show ?thesis by (auto simp: zq)
  qed
  have types: "EventType (?gated z) = AuditType \<or> EventType (?gated z) = ObservationType"
    if "z \<in> set (zip ga (zip pa (auditPipelines e))) \<or> z \<in> set (zip go (zip po (observationPipelines e)))"
    for z
    using that p by (cases z) (auto dest!: set_zip_rightD pipelinesFor_mem)
  have types': "EventType (?plain z) = ErrorType \<or> EventType (?plain z) = SystemType"
    if "z \<in> set (zip pe (errPipelines e)) \<or> z \<in> set (zip py (pipelinesFor SystemType j ?ss))"
    for z
    using that p by (cases z) (auto dest!: set_zip_rightD pipelinesFor_mem)
  show "\<forall>P \<in> set (pipelinesOf new). EventType P = AuditType \<or> EventType P = ObservationType \<longrightarrow>
           (\<exists>g f s n. NodeIDs P = [g, f, s] \<and> registeredNode new g = Some GatedFilter
              \<and> registeredNode new f = Some JSONFormatter
              \<and> registeredNode new s = Some n \<and> isSink n
              \<and> (\<exists>pre post. new = pre @ RegisterNode g GatedFilter # RegisterPipeline P # post))"
  proof (intro ballI impI)
    fix P assume P: "P \<in> set (pipelinesOf new)"
      and t: "EventType P = AuditType \<or> EventType P = ObservationType"
    from P consider z where "P = ?gated z"
        "z \<in> set (zip ga (zip pa (auditPipelines e))) \<or> z \<in> set (zip go (zip po (observationPipelines e)))"
      | z where "P = ?plain z"
        "z \<in> set (zip pe (errPipelines e)) \<or> z \<in> set (zip py (pipelinesFor SystemType j ?ss))"
      unfolding pipes by auto
    then show "\<exists>g f s n. NodeIDs P = [g, f, s] \<and> registeredNode new g = Some GatedFilter
              \<and> registeredNode new f = Some JSONFormatter
              \<and> registeredNode new s = Some n \<and> isSink n
              \<and> (\<exists>pre post. new = pre @ RegisterNode g GatedFilter # RegisterPipeline P # post)"
    proof cases
      case 1
      from gatedP [OF 1(2)] show ?thesis unfolding 1(1) .
    next
      case 2
      from types' [OF 2(2)] t show ?thesis unfolding 2(1) by auto
    qed
  qed
  show "\<forall>P \<in> set (pipelinesOf new). EventType P = ErrorType \<or> EventType P = SystemType \<longrightarrow>
           (\<exists>f s n. NodeIDs P = [f, s] \<and> registeredNode new f = Some JSONFormatter
              \<and> registeredNode new s = Some n \<and> isSink n)"
  proof (intro ballI impI)
    fix P assume P: "P \<in> set (pipelinesOf new)"
      and t: "EventType P = ErrorType \<or> EventType P = SystemType"
    from P consider z where "P = ?gated z"
        "z \<in> set (zip ga (zip pa (auditPipelines e))) \<or> z \<in> set (zip go (zip po (observationPipelines e)))"
      | z where "P = ?plain z"
        "z \<in> set (zip pe (errPipelines e)) \<or> z \<in> set (zip py (pipelinesFor SystemType j ?ss))"
      unfolding pipes by auto
    then show "\<exists>f s n. NodeIDs P = [f, s] \<and> registeredNode new f = Some JSONFormatter
              \<and> registeredNode new s = Some n \<and> isSink n"
    proof cases
      case 1
      from types [OF 1(2)] t show ?thesis unfolding 1(1) by auto
    next
      case 2
      from plainP [OF 2(2)] show ?thesis unfolding 2(1) .
    qed
  qed
qed

text \<open>The earlier revision: no gated filter, one pipeline per type.\<close>

lemma NewEventer0_wiring:
  assumes "NewEventer0 env log c0 = Inr e0"
  shows "GatedFilter \<notin> snd ` set (nodeRegistrations (broker0 e0))
     \<and> (\<exists>j ids. length ids = length (Sinks0 (conf0 e0))
          \<and> nodeRegistrations (broker0 e0)
              = (j, JSONFormatter) # map (\<lambda>(i, s). (i, fileSinkOf s)) (zip ids (Sinks0 (conf0 e0)))
          \<and> map (\<lambda>P. (EventType P, NodeIDs P)) (pipelinesOf (broker0 e0)) =
              [(AuditType, j # sinkIdsFor AuditType (zip ids (Sinks0 (conf0 e0)))),
               (InfoType, j # sinkIdsFor InfoType (zip ids (Sinks0 (conf0 e0)))),
               (ErrorType, j # sinkIdsFor ErrorType (zip ids (Sinks0 (conf0 e0))))])"
proof -
  from assms obtain j ids where l: "length ids = length (Sinks0 (withDefaultSink0 c0))"
    and cf: "conf0 e0 = withDefaultSink0 c0"
    and b: "broker0 e0 = [RegisterNode j JSONFormatter]
           @ fileSinkCalls (zip ids (Sinks0 (withDefaultSink0 c0)))
           @ [RegisterPipeline \<lparr>EventType = AuditType, PipelineID = AuditPipeline,
                NodeIDs = j # sinkIdsFor AuditType (zip ids (Sinks0 (withDefaultSink0 c0)))\<rparr>,
              RegisterPipeline \<lparr>EventType = InfoType, PipelineID = InfoPipeline,
                NodeIDs = j # sinkIdsFor InfoType (zip ids (Sinks0 (withDefaultSink0 c0)))\<rparr>,
              RegisterPipeline \<lparr>EventType = ErrorType, PipelineID = ErrPipeline,
                NodeIDs = j # sinkIdsFor ErrorType (zip ids (Sinks0 (withDefaultSink0 c0)))\<rparr>]
           @ thresholdCalls0 c0
               (Suc (length (sinkIdsFor AuditType (zip ids (Sinks0 (withDefaultSink0 c0))))))
               (Suc (length (sinkIdsFor InfoType (zip ids (Sinks0 (withDefaultSink0 c0))))))
               (Suc (length (sinkIdsFor ErrorType (zip ids (Sinks0 (withDefaultSink0 c0))))))"
    by (rule NewEventer0_calls)
  have "GatedFilter \<notin> snd ` set (nodeRegistrations (broker0 e0))"
    by (auto simp: b fileSinkOf_def)
  moreover have "nodeRegistrations (broker0 e0)
      = (j, JSONFormatter) # map (\<lambda>(i, s). (i, fileSinkOf s)) (zip ids (Sinks0 (conf0 e0)))"
    by (simp add: b cf)
  moreover have "map (\<lambda>P. (EventType P, NodeIDs P)) (pipelinesOf (broker0 e0)) =
              [(AuditType, j # sinkIdsFor AuditType (zip ids (Sinks0 (conf0 e0)))),
               (InfoType, j # sinkIdsFor InfoType (zip ids (Sinks0 (conf0 e0)))),
               (ErrorType, j # sinkIdsFor ErrorType (zip ids (Sinks0 (conf0 e0))))]"
    by (simp add: b cf)
  ultimately show ?thesis using l cf by auto
qed

lemma withDefaultSink0_empty:
  "Sinks0 c = [] \<Longrightarrow> withDefaultSink0 c = c\<lparr>Sinks0 := [defaultSink0]\<rparr>"
  "withDefaultSink0 (c\<lparr>Sinks0 := [defaultSink0]\<rparr>) = c\<lparr>Sinks0 := [defaultSink0]\<rparr>"
  by (simp_all add: withDefaultSink0_def)

lemma NewEventer0_default:
  assumes "Sinks0 c = []"
  shows "NewEventer0 env log c = NewEventer0 env log (c\<lparr>Sinks0 := [defaultSink0]\<rparr>)"
  unfolding NewEventer0_def withDefaultSink0_empty(1) [OF assms] withDefaultSink0_empty(2) ..

lemma NewEventer0_default_calls:
  assumes "Sinks0 c = []" and "NewEventer0 env log c = Inr e0"
  shows "Sinks0 (conf0 e0) = [defaultSink0]
     \<and> (\<exists>j i. nodeRegistrations (broker0 e0) =
            [(j, JSONFormatter), (i, FileSinkNode JSONSinkFormat ''./'' ''foo.txt'' 0 0 0)]
          \<and> map (\<lambda>P. (EventType P, NodeIDs P)) (pipelinesOf (broker0 e0)) =
            [(AuditType, [j, i]), (InfoType, [j, i]), (ErrorType, [j, i])])"
proof -
  from assms(2) have cf: "conf0 e0 = withDefaultSink0 c"
    by (auto simp: NewEventer0_def Let_def split: sum.splits prod.splits option.splits if_splits)
  have d: "Sinks0 (conf0 e0) = [defaultSink0]"
    using assms(1) by (simp add: cf withDefaultSink0_def)
  from NewEventer0_wiring [OF assms(2)] have "\<exists>j ids. length ids = length (Sinks0 (conf0 e0))
          \<and> nodeRegistrations (broker0 e0)
              = (j, JSONFormatter) # map (\<lambda>(i, s). (i, fileSinkOf s)) (zip ids (Sinks0 (conf0 e0)))
          \<and> map (\<lambda>P. (EventType P, NodeIDs P)) (pipelinesOf (broker0 e0)) =
              [(AuditType, j # sinkIdsFor AuditType (zip ids (Sinks0 (conf0 e0)))),
               (InfoType, j # sinkIdsFor InfoType (zip ids (Sinks0 (conf0 e0)))),
               (ErrorType, j # sinkIdsFor ErrorType (zip ids (Sinks0 (conf0 e0))))]"
    by (rule conjunct2)
  then obtain j ids where
    w: "length ids = length (Sinks0 (conf0 e0))"
       "nodeRegistrations (broker0 e0)
              = (j, JSONFormatter) # map (\<lambda>(i, s). (i, fileSinkOf s)) (zip ids (Sinks0 (conf0 e0)))"
       "map (\<lambda>P. (EventType P, NodeIDs P)) (pipelinesOf (broker0 e0)) =
              [(AuditType, j # sinkIdsFor AuditType (zip ids (Sinks0 (conf0 e0)))),
               (InfoType, j # sinkIdsFor InfoType (zip ids (Sinks0 (conf0 e0)))),
               (ErrorType, j # sinkIdsFor ErrorType (zip ids (Sinks0 (conf0 e0))))]"
    by (elim exE conjE)
  from w(1) d obtain i where i: "ids = [i]" by (auto dest: singleton_length)
  have s: "\<And>t. sinkIdsFor t [(i, defaultSink0)] = [i]"
    by (simp add: sinkIdsFor_def subscribes_def defaultSink0_def)
  show ?thesis
    apply (rule conjI [OF d])
    apply (rule exI [of _ j], rule exI [of _ i])
    apply (simp add: w(2,3) d i s)
    apply (simp add: fileSinkOf_def defaultSink0_def)
    done
qed

section \<open>The system-wide Eventer survives a failed initialisation\<close>

text \<open>
  C10. Whenever \<open>InitSysEventer\<close> returns an error (nil logger, nil serialization lock,
  neither or both of an eventer and a configuration, or a failing \<open>NewEventer\<close>), the
  package variable is what it was, so \<open>SysEventer\<close> returns afterwards what it returned
  before.
\<close>

theorem InitSysEventer_error_keeps_singleton:
  "InitSysEventer env log serializationLock opts g = (Some err, g') \<Longrightarrow>
     g' = g \<and> SysEventer g' = SysEventer g"
  by (auto simp: InitSysEventer_def split: if_splits option.splits sum.splits)

theorem InitSysEventer_error_keeps_singleton_witness:
  "InitSysEventer testEnv (Some []) (Some ())
       (getDefaultOptions\<lparr>withEventerConfig := Some auditWithoutSink\<rparr>)
       \<lparr>sysEventer = Some someEventer\<rparr>
     = (Some (Wrapf ''event.InitSysEventer''
          (Wrapf ''event.NewEventer: audit events enabled but no sink defined for it''
             ErrInvalidParameter)), \<lparr>sysEventer = Some someEventer\<rparr>)
   \<and> SysEventer \<lparr>sysEventer = Some someEventer\<rparr> = Some someEventer"
proof -
  have run: "InitSysEventer testEnv (Some []) (Some ())
       (getDefaultOptions\<lparr>withEventerConfig := Some auditWithoutSink\<rparr>)
       \<lparr>sysEventer = Some someEventer\<rparr>
     = (Some (Wrapf ''event.InitSysEventer''
          (Wrapf ''event.NewEventer: audit events enabled but no sink defined for it''
             ErrInvalidParameter)), \<lparr>sysEventer = Some someEventer\<rparr>)"
    by code_simp
  from InitSysEventer_error_keeps_singleton [OF run] run show ?thesis
    by (simp add: SysEventer_def)
qed

section \<open>FlushNodes stops at the first error\<close>

lemma noting_apply: "noting fa n (tr, s) = (fst (fa n s), (tr @ [n], snd (fa n s)))"
  by (simp add: noting_def Let_def)

lemma flushLoop_noting_Cons:
  "flushLoop (noting fa) (n # ns) (tr, s) =
     (case fst (fa n s) of
        Some err \<Rightarrow> (Some (Wrapf ''event.(Eventer).FlushNodes'' err), (tr @ [n], snd (fa n s)))
      | None \<Rightarrow> flushLoop (noting fa) ns (tr @ [n], snd (fa n s)))"
  by (simp add: noting_apply split: option.splits)

text \<open>Noting the calls changes neither the error returned nor the state of the filters.\<close>

lemma flushLoop_noting:
  "fst (flushLoop (noting fa) ns (tr, s)) = fst (flushLoop fa ns s)
   \<and> snd (snd (flushLoop (noting fa) ns (tr, s))) = snd (flushLoop fa ns s)"
proof (induction ns arbitrary: tr s)
  case Nil
  show ?case by simp
next
  case (Cons a ns)
  show ?case
  proof (cases "fst (fa a s)")
    case None
    then have "flushLoop fa (a # ns) s = flushLoop fa ns (snd (fa a s))"
      by (cases "fa a s") simp
    with None Cons.IH [of "tr @ [a]" "snd (fa a s)"] show ?thesis
      by (simp only: flushLoop_noting_Cons) simp
  next
    case (Some err)
    then have "flushLoop fa (a # ns) s = (Some (Wrapf ''event.(Eventer).FlushNodes'' err), snd (fa a s))"
      by (cases "fa a s") simp
    with Some show ?thesis
      by (simp only: flushLoop_noting_Cons) simp
  qed
qed

lemma FlushNodes_noting:
  "fst (FlushNodes (noting fa) e ([], s)) = fst (FlushNodes fa e s)
   \<and> snd (snd (FlushNodes (noting fa) e ([], s))) = snd (FlushNodes fa e s)"
  unfolding FlushNodes_def by (rule flushLoop_noting)

lemma flushLoop_noting_None:
  "flushLoop (noting fa) ns (tr, s) = (None, (tr', s')) \<Longrightarrow> tr' = tr @ ns"
proof (induction ns arbitrary: tr s)
  case Nil
  then show ?case by simp
next
  case (Cons a ns)
  from Cons.prems have "flushLoop (noting fa) ns (tr @ [a], snd (fa a s)) = (None, (tr', s'))"
    by (simp only: flushLoop_noting_Cons split: option.splits) simp_all
  from Cons.IH [OF this] show ?case by simp
qed

lemma flushLoop_noting_Some:
  "flushLoop (noting fa) ns (tr, s) = (Some err, (tr', s')) \<Longrightarrow>
     \<exists>pre n post cause s1. ns = pre @ n # post \<and> tr' = tr @ pre @ [n]
       \<and> err = Wrapf ''event.(Eventer).FlushNodes'' cause
       \<and> flushLoop (noting fa) pre (tr, s) = (None, (tr @ pre, s1))
       \<and> fa n s1 = (Some cause, s')"
proof (induction ns arbitrary: tr s)
  case Nil
  then show ?case by simp
next
  case (Cons a ns)
  show ?case
  proof (cases "fst (fa a s)")
    case None
    with Cons.prems have "flushLoop (noting fa) ns (tr @ [a], snd (fa a s)) = (Some err, (tr', s'))"
      by (simp only: flushLoop_noting_Cons) simp
    from Cons.IH [OF this] obtain pre n post cause s1 where
      h: "ns = pre @ n # post" "tr' = (tr @ [a]) @ pre @ [n]"
         "err = Wrapf ''event.(Eventer).FlushNodes'' cause"
         "flushLoop (noting fa) pre (tr @ [a], snd (fa a s)) = (None, ((tr @ [a]) @ pre, s1))"
         "fa n s1 = (Some cause, s')"
      by blast
    from h(4) None have "flushLoop (noting fa) (a # pre) (tr, s) = (None, (tr @ a # pre, s1))"
      by (simp only: flushLoop_noting_Cons) simp
    with h show ?thesis
      by (intro exI [of _ "a # pre"] exI [of _ n] exI [of _ post] exI [of _ cause] exI [of _ s1]) simp
  next
    case (Some cause)
    with Cons.prems have "tr' = tr @ [a]" "s' = snd (fa a s)"
        "err = Wrapf ''event.(Eventer).FlushNodes'' cause"
      by (simp_all only: flushLoop_noting_Cons) simp_all
    with Some show ?thesis
      by (intro exI [of _ "[]"] exI [of _ a] exI [of _ ns] exI [of _ cause] exI [of _ s])
         (simp add: prod_eq_iff)
  qed
qed

text \<open>What a run that returns nil has done: every call of \<open>FlushAll\<close> succeeded.\<close>

lemma afterFlushing_simps [simp]:
  "afterFlushing fa s [] = s"
  "afterFlushing fa s (n # ns) = afterFlushing fa (snd (fa n s)) ns"
  by (simp_all add: afterFlushing_def)

lemma afterFlushing_snoc: "afterFlushing fa s (ns @ [n]) = snd (fa n (afterFlushing fa s ns))"
  by (simp add: afterFlushing_def)

lemma flushLoop_noting_None_all:
  "flushLoop (noting fa) ns (tr, s) = (None, (tr', s')) \<Longrightarrow>
     s' = afterFlushing fa s ns
     \<and> (\<forall>pre n post. ns = pre @ n # post \<longrightarrow> fst (fa n (afterFlushing fa s pre)) = None)"
proof (induction ns arbitrary: tr s)
  case Nil
  then show ?case by simp
next
  case (Cons a ns)
  from Cons.prems have a: "fst (fa a s) = None"
    and l: "flushLoop (noting fa) ns (tr @ [a], snd (fa a s)) = (None, (tr', s'))"
    by (simp_all only: flushLoop_noting_Cons split: option.splits) simp_all
  from Cons.IH [OF l] have s': "s' = afterFlushing fa (snd (fa a s)) ns"
    and ih: "\<And>pre n post. ns = pre @ n # post \<Longrightarrow>
               fst (fa n (afterFlushing fa (snd (fa a s)) pre)) = None" by blast+
  show ?case
  proof (intro conjI allI impI)
    show "s' = afterFlushing fa s (a # ns)" using s' by simp
  next
    fix pre n post assume d: "a # ns = pre @ n # post"
    show "fst (fa n (afterFlushing fa s pre)) = None"
    proof (cases pre)
      case Nil
      with d a show ?thesis by simp
    next
      case (Cons b pre')
      with d have "b = a" "ns = pre' @ n # post" by simp_all
      with ih [of pre' n post] Cons show ?thesis by simp
    qed
  qed
qed

text \<open>
  C3, as the code has it. \<open>FlushNodes\<close> calls \<open>FlushAll\<close> on the flushable nodes in the order
  they were collected and stops at the first call that returns an error. It returns nil
  only if every node was flushed and every call succeeded; it returns an error only if
  that error is the wrapped error of the first failing call, the nodes up to and
  including the failing one were flushed and none after it; and if any call of a full
  run would fail, it does not return nil. The state each call is made in is the one
  \<open>afterFlushing\<close> gives, and noting the calls changes nothing of the result.
\<close>

theorem FlushNodes_stops_at_first_error:
  assumes "FlushNodes (noting FlushAll) e ([], s) = (r, (attempted, s'))"
  shows "(r = None \<longrightarrow>
            attempted = flushableNodes e \<and> s' = afterFlushing FlushAll s (flushableNodes e)
            \<and> (\<forall>pre n post. flushableNodes e = pre @ n # post \<longrightarrow>
                  fst (FlushAll n (afterFlushing FlushAll s pre)) = None))
       \<and> (\<forall>err. r = Some err \<longrightarrow>
            (\<exists>pre n post cause s1. flushableNodes e = pre @ n # post \<and> attempted = pre @ [n]
               \<and> err = Wrapf ''event.(Eventer).FlushNodes'' cause
               \<and> FlushNodes (noting FlushAll) (e\<lparr>flushableNodes := pre\<rparr>) ([], s) = (None, (pre, s1))
               \<and> s1 = afterFlushing FlushAll s pre
               \<and> (\<forall>pre' m post'. pre = pre' @ m # post' \<longrightarrow>
                     fst (FlushAll m (afterFlushing FlushAll s pre')) = None)
               \<and> FlushAll n s1 = (Some cause, s')))
       \<and> ((\<exists>pre n post. flushableNodes e = pre @ n # post
              \<and> fst (FlushAll n (afterFlushing FlushAll s pre)) \<noteq> None) \<longrightarrow> r \<noteq> None)
       \<and> fst (FlushNodes FlushAll e s) = r \<and> snd (FlushNodes FlushAll e s) = s'"
proof -
  have run: "flushLoop (noting FlushAll) (flushableNodes e) ([], s) = (r, (attempted, s'))"
    using assms by (simp add: FlushNodes_def)
  have none: "attempted = flushableNodes e \<and> s' = afterFlushing FlushAll s (flushableNodes e)
            \<and> (\<forall>pre n post. flushableNodes e = pre @ n # post \<longrightarrow>
                  fst (FlushAll n (afterFlushing FlushAll s pre)) = None)" if "r = None"
    using flushLoop_noting_None [OF run [unfolded that]]
          flushLoop_noting_None_all [OF run [unfolded that]] by simp
  have some: "\<exists>pre n post cause s1. flushableNodes e = pre @ n # post \<and> attempted = pre @ [n]
               \<and> err = Wrapf ''event.(Eventer).FlushNodes'' cause
               \<and> FlushNodes (noting FlushAll) (e\<lparr>flushableNodes := pre\<rparr>) ([], s) = (None, (pre, s1))
               \<and> s1 = afterFlushing FlushAll s pre
               \<and> (\<forall>pre' m post'. pre = pre' @ m # post' \<longrightarrow>
                     fst (FlushAll m (afterFlushing FlushAll s pre')) = None)
               \<and> FlushAll n s1 = (Some cause, s')" if "r = Some err" for err
  proof -
    from flushLoop_noting_Some [OF run [unfolded that]] obtain pre n post cause s1 where
      h: "flushableNodes e = pre @ n # post" "attempted = pre @ [n]"
         "err = Wrapf ''event.(Eventer).FlushNodes'' cause"
         "flushLoop (noting FlushAll) pre ([], s) = (None, (pre, s1))"
         "FlushAll n s1 = (Some cause, s')" by auto
    from flushLoop_noting_None_all [OF h(4)] have
      a: "s1 = afterFlushing FlushAll s pre"
         "\<forall>pre' m post'. pre = pre' @ m # post' \<longrightarrow>
                       fst (FlushAll m (afterFlushing FlushAll s pre')) = None" by blast+
    from h a show ?thesis
      by (intro exI [of _ pre] exI [of _ n] exI [of _ post] exI [of _ cause] exI [of _ s1])
         (simp add: FlushNodes_def)
  qed
  have fails: "r \<noteq> None" if "\<exists>pre n post. flushableNodes e = pre @ n # post
              \<and> fst (FlushAll n (afterFlushing FlushAll s pre)) \<noteq> None"
  proof
    assume rn: "r = None"
    from that obtain pre n post where d: "flushableNodes e = pre @ n # post"
      and f: "fst (FlushAll n (afterFlushing FlushAll s pre)) \<noteq> None" by auto
    from none [OF rn] have "flushableNodes e = pre @ n # post \<longrightarrow>
        fst (FlushAll n (afterFlushing FlushAll s pre)) = None" by simp
    with d f show False by simp
  qed
  have same: "fst (FlushNodes FlushAll e s) = r \<and> snd (FlushNodes FlushAll e s) = s'"
    using FlushNodes_noting [of FlushAll e s] assms by simp
  from none some fails same show ?thesis by blast
qed

theorem FlushNodes_stops_at_first_error_witness:
  "FlushNodes (noting (failingAt ''gate-b'')) someEventer ([], ())
     = (Some (Wrapf ''event.(Eventer).FlushNodes'' (External ''flush failed'')),
        ([''gate-a'', ''gate-b''], ()))
   \<and> (\<exists>pre n post cause s1. flushableNodes someEventer = pre @ n # post
         \<and> [''gate-a'', ''gate-b''] = pre @ [n]
         \<and> Wrapf ''event.(Eventer).FlushNodes'' (External ''flush failed'')
             = Wrapf ''event.(Eventer).FlushNodes'' cause
         \<and> FlushNodes (noting (failingAt ''gate-b'')) (someEventer\<lparr>flushableNodes := pre\<rparr>) ([], ())
             = (None, (pre, s1))
         \<and> s1 = afterFlushing (failingAt ''gate-b'') () pre
         \<and> (\<forall>pre' m post'. pre = pre' @ m # post' \<longrightarrow>
               fst (failingAt ''gate-b'' m (afterFlushing (failingAt ''gate-b'') () pre')) = None)
         \<and> failingAt ''gate-b'' n s1 = (Some cause, ()))
   \<and> fst (FlushNodes (failingAt ''gate-b'') someEventer ())
       = Some (Wrapf ''event.(Eventer).FlushNodes'' (External ''flush failed''))
   \<and> FlushNodes (noting (failingAt ''none'')) someEventer ([], ())
       = (None, ([''gate-a'', ''gate-b'', ''gate-c''], ()))
   \<and> [''gate-a'', ''gate-b'', ''gate-c''] = flushableNodes someEventer
   \<and> fst (FlushNodes (failingAt ''none'') someEventer ()) = None"
proof -
  have run: "FlushNodes (noting (failingAt ''gate-b'')) someEventer ([], ())
     = (Some (Wrapf ''event.(Eventer).FlushNodes'' (External ''flush failed'')),
        ([''gate-a'', ''gate-b''], ()))"
    by code_simp
  have ok: "FlushNodes (noting (failingAt ''none'')) someEventer ([], ())
       = (None, ([''gate-a'', ''gate-b'', ''gate-c''], ()))"
    by code_simp
  from FlushNodes_stops_at_first_error [OF run] FlushNodes_stops_at_first_error [OF ok] run ok
  show ?thesis by simp
qed

text \<open>
  The claim as written fails: when the first of three gated filters fails to flush, the
  second is never asked to.
\<close>

theorem FlushNodes_skips_nodes_after_error:
  "fst (FlushNodes (noting (failingAt ''gate-a'')) someEventer ([], ())) \<noteq> None
   \<and> ''gate-b'' \<in> set (flushableNodes someEventer)
   \<and> ''gate-b'' \<notin> set (fst (snd (FlushNodes (noting (failingAt ''gate-a'')) someEventer ([], ()))))"
  by code_simp

section \<open>The write methods\<close>

lemma retrySendFrom_iterates:
  "\<exists>n. 0 < n \<and> snd (retrySendFrom env m f k s) = ((\<lambda>s. snd (f s)) ^^ n) s"
proof (induction env m f k s rule: retrySendFrom.induct)
  case (1 env maxAttempts sendFn k s)
  let ?g = "\<lambda>s. snd (sendFn s)"
  show ?case
  proof (cases "\<exists>err. snd (fst (sendFn s)) = Some err \<and> transient env err \<and> \<not> maxAttempts \<le> k
                  \<and> ctxErr env k = None")
    case True
    then obtain err where e: "snd (fst (sendFn s)) = Some err" "transient env err"
      "\<not> maxAttempts \<le> k" "ctxErr env k = None" by blast
    from "1.IH" [OF refl e(1)] e obtain n where
      n: "0 < n" "snd (retrySendFrom env maxAttempts sendFn (Suc k) (snd (sendFn s))) = (?g ^^ n) (?g s)"
      by auto
    have sw: "(?g ^^ n) (?g s) = (?g ^^ Suc n) s"
      using funpow_swap1 [of ?g n s] by simp
    have "snd (retrySendFrom env maxAttempts sendFn k s)
            = snd (retrySendFrom env maxAttempts sendFn (Suc k) (snd (sendFn s)))"
      using e by (subst retrySendFrom.simps) (simp add: Let_def)
    also note n(2)
    also note sw
    finally have "snd (retrySendFrom env maxAttempts sendFn k s) = (?g ^^ Suc n) s" .
    then show ?thesis by blast
  next
    case False
    then have "snd (retrySendFrom env maxAttempts sendFn k s) = (?g ^^ 1) s"
      by (subst retrySendFrom.simps) (auto simp: Let_def split: option.splits)
    then show ?thesis by blast
  qed
qed

lemma retrySend_iterates:
  "\<exists>n. 0 < n \<and> snd (retrySend env m f s) = ((\<lambda>s. snd (f s)) ^^ n) s"
  unfolding retrySend_def by (rule retrySendFrom_iterates)

lemma brokerSend_iterated:
  "((\<lambda>e. snd (brokerSend env t p e)) ^^ n) e = e\<lparr>broker := broker e @ replicate n (Send t p)\<rparr>"
proof (induction n)
  case 0
  show ?case by simp
next
  case (Suc n)
  then show ?case
    by (simp add: brokerSend_def replicate_append_same)
qed

lemma logFailure_broker: "broker (snd (logFailure op msg r)) = broker (snd r)"
  by (simp add: logFailure_def split: option.splits)

lemma retried_brokerSend:
  "\<exists>n. 0 < n \<and> broker (snd (logFailure op msg (retrySend env m (brokerSend env t p) e)))
                   = broker e @ replicate n (Send t p)"
proof -
  from retrySend_iterates [of env m "brokerSend env t p" e] obtain n where
    "0 < n" "snd (retrySend env m (brokerSend env t p) e) = ((\<lambda>e. snd (brokerSend env t p e)) ^^ n) e"
    by blast
  then show ?thesis
    by (auto simp: logFailure_broker brokerSend_iterated intro!: exI [of _ n])
qed

text \<open>In eventer.go an enabled audit write sends with the audit type, once or more.\<close>

lemma writeAudit_sends_AuditType:
  "AuditEnabled (conf e) \<Longrightarrow>
     \<exists>n. 0 < n \<and> broker (snd (writeAudit env e (Some ev)))
                   = broker e @ replicate n (Send AuditType (AuditEvent ev))"
  by (simp add: writeAudit_def retried_brokerSend)

lemma writeError_sends:
  "\<exists>n. 0 < n \<and> broker (snd (writeError env e (Some ev)))
                   = broker e @ replicate n (Send ErrorType (ErrEvent ev))"
  by (simp add: writeError_def retried_brokerSend)

text \<open>In the earlier revision an enabled audit write sends once, with the info type.\<close>

lemma Audit0_sends:
  "AuditEnabled0 (conf0 e) \<Longrightarrow>
     broker0 (snd (Audit0 env e ev)) = broker0 e @ [Send InfoType (AuditEvent ev)]"
  by (simp add: Audit0_def send0_def Let_def split: option.splits)

text \<open>
  C2 fails in the earlier revision: with auditing enabled (and info events disabled),
  \<open>Audit0\<close> hands the audit event to the broker under the info type.
\<close>

theorem Audit0_sends_InfoType:
  "Audit0 testEnv auditing0 () = (None, auditing0\<lparr>broker0 := [Send InfoType (AuditEvent ())]\<rparr>)"
  by code_simp

text \<open>
  C6. For a non-nil event: with audit events disabled \<open>writeAudit\<close> returns nil and leaves
  the Eventer, and so its broker, as it was; so does \<open>writeObservation\<close> with observations
  disabled; \<open>writeError\<close> consults no flag and makes at least one \<open>Send\<close> of the error event.
\<close>

theorem disabled_writes_send_nothing:
  "(\<not> AuditEnabled (conf e) \<longrightarrow> writeAudit env e (Some a) = (None, e))
   \<and> (\<not> ObservationsEnabled (conf e) \<longrightarrow> writeObservation env e (Some ob) = (None, Some ob, e))
   \<and> (\<exists>n. 0 < n \<and> broker (snd (writeError env e (Some er)))
                     = broker e @ replicate n (Send ErrorType (ErrEvent er)))"
  by (simp add: writeAudit_def writeObservation_def writeError_sends)

theorem disabled_writes_send_nothing_witness:
  "\<not> AuditEnabled (conf quiet) \<and> \<not> ObservationsEnabled (conf quiet)
   \<and> writeAudit flakyEnv quiet (Some ()) = (None, quiet)
   \<and> writeObservation flakyEnv quiet (Some fullObservation) = (None, Some fullObservation, quiet)
   \<and> (\<exists>n. 0 < n \<and> broker (snd (writeError flakyEnv quiet (Some ())))
                     = broker quiet @ replicate n (Send ErrorType (ErrEvent ())))"
proof -
  have off: "\<not> AuditEnabled (conf quiet)" "\<not> ObservationsEnabled (conf quiet)"
    by (simp_all add: quiet_def someEventer_def DefaultEventerConfig_def)
  from disabled_writes_send_nothing [of quiet flakyEnv "()" fullObservation "()"] off
  show ?thesis by simp
qed

subsection \<open>Observations\<close>

lemma fields_distinct: "RequestInfoField \<noteq> VersionField"
  by (simp add: RequestInfoField_def VersionField_def)

lemma update_twice_idem:
  assumes "k \<noteq> k'"
  shows "AList.update k' v' (AList.update k v (AList.update k' v' (AList.update k v al)))
           = AList.update k' v' (AList.update k v al)"
proof -
  let ?X = "AList.update k' v' (AList.update k v al)"
  have "map_of ?X k = Some v" using assms by (simp add: update_conv')
  then have "AList.update k v ?X = ?X" by (rule update_triv)
  then show ?thesis by simp
qed

lemma stamp_idem:
  "stampDetail (stampHeader (stampDetail (stampHeader ev))) = stampDetail (stampHeader ev)"
  by (cases "Header (Payload ev)"; cases "Detail (Payload ev)")
     (simp_all add: stampHeader_def stampDetail_def update_twice_idem fields_distinct)

lemma observationSendFn_iterated:
  "((\<lambda>s. snd (observationSendFn env s)) ^^ Suc n) (ev, e) =
     (stampDetail (stampHeader ev),
      e\<lparr>broker := broker e @ replicate (Suc n)
           (Send ObservationType (GatedPayload (Payload (stampDetail (stampHeader ev)))))\<rparr>)"
proof (induction n)
  case 0
  show ?case by (simp add: observationSendFn_def brokerSend_def Let_def)
next
  case (Suc n)
  have "((\<lambda>s. snd (observationSendFn env s)) ^^ Suc (Suc n)) (ev, e)
          = snd (observationSendFn env (((\<lambda>s. snd (observationSendFn env s)) ^^ Suc n) (ev, e)))"
    by simp
  also have "\<dots> = (stampDetail (stampHeader ev),
      e\<lparr>broker := broker e @ replicate (Suc (Suc n))
           (Send ObservationType (GatedPayload (Payload (stampDetail (stampHeader ev)))))\<rparr>)"
    unfolding Suc.IH
    by (simp add: observationSendFn_def brokerSend_def Let_def stamp_idem
                  replicate_append_same)
  finally show ?case .
qed

lemma stamped_payload:
  "ID (Payload (stampDetail (stampHeader ev))) = ID (Payload ev)"
  "Flush (Payload (stampDetail (stampHeader ev))) = Flush (Payload ev)"
  "Header (Payload (stampDetail (stampHeader ev))) =
     map_option (\<lambda>h. AList.update VersionField (StringValue (Version ev))
                       (AList.update RequestInfoField (RequestInfoValue (RequestInfo ev)) h))
       (Header (Payload ev))"
  "Detail (Payload (stampDetail (stampHeader ev))) =
     map_option (AList.update OpField (StringValue (Op ev))) (Detail (Payload ev))"
  by (cases "Header (Payload ev)"; cases "Detail (Payload ev)";
      simp add: stampHeader_def stampDetail_def)+

text \<open>
  C9, as the code has it. With observations enabled, every \<open>Send\<close> that \<open>writeObservation\<close>
  makes for a non-nil event (there is at least one, and one more per retry) is of the
  observation type and carries the same payload \<open>P\<close>, which is also the payload of the
  event afterwards. \<open>P\<close> is the event's payload with request-info and version stored in
  the header map when the event has a header map, and with the operation name stored
  in the detail map when the event has a detail map; a nil map stays nil.
\<close>

theorem writeObservation_stamps_maps_at_hand:
  assumes "ObservationsEnabled (conf e)"
  shows "\<exists>n P. 0 < n
     \<and> broker (snd (snd (writeObservation env e (Some ev))))
         = broker e @ replicate n (Send ObservationType (GatedPayload P))
     \<and> map_option Payload (fst (snd (writeObservation env e (Some ev)))) = Some P
     \<and> ID P = ID (Payload ev) \<and> Flush P = Flush (Payload ev)
     \<and> (case Header (Payload ev) of
          None \<Rightarrow> Header P = None
        | Some h \<Rightarrow> (\<exists>h'. Header P = Some h'
            \<and> map_of h' = (map_of h)(RequestInfoField \<mapsto> RequestInfoValue (RequestInfo ev),
                                    VersionField \<mapsto> StringValue (Version ev))))
     \<and> (case Detail (Payload ev) of
          None \<Rightarrow> Detail P = None
        | Some d \<Rightarrow> (\<exists>d'. Detail P = Some d'
            \<and> map_of d' = (map_of d)(OpField \<mapsto> StringValue (Op ev))))"
proof -
  let ?P = "Payload (stampDetail (stampHeader ev))"
  from retrySend_iterates [of env "stdRetryCount env" "observationSendFn env" "(ev, e)"]
  obtain n where n: "0 < n"
    "snd (retrySend env (stdRetryCount env) (observationSendFn env) (ev, e))
       = ((\<lambda>s. snd (observationSendFn env s)) ^^ n) (ev, e)" by blast
  from n(1) obtain m where m: "n = Suc m" by (cases n) auto
  have r: "snd (retrySend env (stdRetryCount env) (observationSendFn env) (ev, e))
       = (stampDetail (stampHeader ev),
          e\<lparr>broker := broker e @ replicate n (Send ObservationType (GatedPayload ?P))\<rparr>)"
    unfolding n(2) m by (rule observationSendFn_iterated)
  have b: "broker (snd (snd (writeObservation env e (Some ev))))
         = broker e @ replicate n (Send ObservationType (GatedPayload ?P))"
    using assms by (simp add: writeObservation_def Let_def logFailure_broker r)
  have p: "map_option Payload (fst (snd (writeObservation env e (Some ev)))) = Some ?P"
    using assms by (simp add: writeObservation_def Let_def r)
  have h: "(case Header (Payload ev) of
          None \<Rightarrow> Header ?P = None
        | Some h \<Rightarrow> (\<exists>h'. Header ?P = Some h'
            \<and> map_of h' = (map_of h)(RequestInfoField \<mapsto> RequestInfoValue (RequestInfo ev),
                                    VersionField \<mapsto> StringValue (Version ev))))"
    by (simp add: stamped_payload update_conv' split: option.splits)
  have d: "(case Detail (Payload ev) of
          None \<Rightarrow> Detail ?P = None
        | Some d \<Rightarrow> (\<exists>d'. Detail ?P = Some d'
            \<and> map_of d' = (map_of d)(OpField \<mapsto> StringValue (Op ev))))"
    by (simp add: stamped_payload update_conv' split: option.splits)
  from n(1) b p h d show ?thesis
    by (intro exI [of _ n] exI [of _ ?P]) (simp add: stamped_payload)
qed

theorem writeObservation_stamps_maps_at_hand_witness:
  "ObservationsEnabled (conf listening)
   \<and> (\<exists>n P. 0 < n
     \<and> broker (snd (snd (writeObservation flakyEnv listening (Some fullObservation))))
         = broker listening @ replicate n (Send ObservationType (GatedPayload P))
     \<and> map_option Payload (fst (snd (writeObservation flakyEnv listening (Some fullObservation)))) = Some P
     \<and> ID P = ID (Payload fullObservation) \<and> Flush P = Flush (Payload fullObservation)
     \<and> (case Header (Payload fullObservation) of
          None \<Rightarrow> Header P = None
        | Some h \<Rightarrow> (\<exists>h'. Header P = Some h'
            \<and> map_of h' = (map_of h)(RequestInfoField \<mapsto> RequestInfoValue (RequestInfo fullObservation),
                                    VersionField \<mapsto> StringValue (Version fullObservation))))
     \<and> (case Detail (Payload fullObservation) of
          None \<Rightarrow> Detail P = None
        | Some d \<Rightarrow> (\<exists>d'. Detail P = Some d'
            \<and> map_of d' = (map_of d)(OpField \<mapsto> StringValue (Op fullObservation)))))"
proof -
  have on: "ObservationsEnabled (conf listening)"
    by (simp add: listening_def someEventer_def DefaultEventerConfig_def)
  from writeObservation_stamps_maps_at_hand [OF on, of flakyEnv fullObservation] on
  show ?thesis by blast
qed

text \<open>
  The claim as written fails for an observation without header and detail maps: the
  payload handed to the broker carries neither request-info nor version nor operation.
\<close>

theorem writeObservation_leaves_nil_maps:
  "sendsOf (broker (snd (snd (writeObservation testEnv listening (Some bareObservation)))))
     = [(ObservationType,
         GatedPayload \<lparr>ID = ''req-1'', Flush = True, Header = None, Detail = None\<rparr>)]"
  by code_simp

section \<open>Success thresholds\<close>

text \<open>
  C1 fails in the earlier revision. There the list whose length becomes the threshold of
  error events starts with the formatter's id: for a configuration with one sink, which
  takes error events, the threshold is 2 while one sink is subscribed to error events.
  (In eventer.go the threshold is the number of sinks subscribed to error events, see
  \<open>NewEventer_thresholds\<close>.)
\<close>

theorem NewEventer0_counts_formatter:
  "(case NewEventer0 testEnv (Some []) errorSinkOnly0 of
      Inl err \<Rightarrow> False
    | Inr e \<Rightarrow> thresholdsOf (broker0 e) = [(ErrorType, 2)]
              \<and> length (filter (subscribes ErrorType) (Sinks0 (conf0 e))) = 1)"
  by code_simp

text \<open>
  The thresholds the earlier revision sets: for audit and for info events only when
  their delivery is enforced, for error events always; each is one more than the number
  of sinks subscribed to the type, the formatter being counted.
\<close>

lemma NewEventer0_thresholds:
  assumes "NewEventer0 env log c0 = Inr e0"
  shows "thresholdsOf (broker0 e0) =
       (if AuditDelivery c0 = Enforced
        then [(AuditType, Suc (length (filter (subscribes AuditType) (Sinks0 (conf0 e0)))))] else [])
     @ (if InfoDelivery c0 = Enforced
        then [(InfoType, Suc (length (filter (subscribes InfoType) (Sinks0 (conf0 e0)))))] else [])
     @ [(ErrorType, Suc (length (filter (subscribes ErrorType) (Sinks0 (conf0 e0)))))]"
proof -
  from assms obtain j ids where "length ids = length (Sinks0 (withDefaultSink0 c0))"
    and "conf0 e0 = withDefaultSink0 c0"
    and "broker0 e0 = [RegisterNode j JSONFormatter]
           @ fileSinkCalls (zip ids (Sinks0 (withDefaultSink0 c0)))
           @ [RegisterPipeline \<lparr>EventType = AuditType, PipelineID = AuditPipeline,
                NodeIDs = j # sinkIdsFor AuditType (zip ids (Sinks0 (withDefaultSink0 c0)))\<rparr>,
              RegisterPipeline \<lparr>EventType = InfoType, PipelineID = InfoPipeline,
                NodeIDs = j # sinkIdsFor InfoType (zip ids (Sinks0 (withDefaultSink0 c0)))\<rparr>,
              RegisterPipeline \<lparr>EventType = ErrorType, PipelineID = ErrPipeline,
                NodeIDs = j # sinkIdsFor ErrorType (zip ids (Sinks0 (withDefaultSink0 c0)))\<rparr>]
           @ thresholdCalls0 c0
               (Suc (length (sinkIdsFor AuditType (zip ids (Sinks0 (withDefaultSink0 c0))))))
               (Suc (length (sinkIdsFor InfoType (zip ids (Sinks0 (withDefaultSink0 c0))))))
               (Suc (length (sinkIdsFor ErrorType (zip ids (Sinks0 (withDefaultSink0 c0))))))"
    by (rule NewEventer0_calls)
  then show ?thesis by (simp add: length_sinkIdsFor)
qed

text \<open>
  C5 fails in the earlier revision, by the defect of C1. With audit and info delivery
  enforced and one sink, subscribed to every type, the thresholds of the audit and info
  types are 2 while one node is subscribed to each: the second node of each pipeline is
  the formatter. That the audit and info thresholds are set exactly when the delivery
  is enforced, and the error threshold always, holds (\<open>NewEventer0_thresholds\<close>); in
  eventer.go, which has no delivery modes, only the error threshold is set
  (\<open>NewEventer_thresholds\<close>).
\<close>

theorem NewEventer0_enforced_thresholds_count_formatter:
  "(case NewEventer0 testEnv (Some []) enforcedBoth0 of
      Inl err \<Rightarrow> False
    | Inr e \<Rightarrow> thresholdsOf (broker0 e) = [(AuditType, 2), (InfoType, 2), (ErrorType, 2)]
              \<and> length (filter (subscribes AuditType) (Sinks0 (conf0 e))) = 1
              \<and> length (filter (subscribes InfoType) (Sinks0 (conf0 e))) = 1
              \<and> map NodeIDs (pipelinesOf (broker0 e)) =
                  [[''jsoni'', ''file_/var/log_events.log_ii''],
                   [''jsoni'', ''file_/var/log_events.log_ii''],
                   [''jsoni'', ''file_/var/log_events.log_ii'']])"
  by code_simp


section \<open>File sinks with the same target\<close>

text \<open>
  C4 fails. \<open>allSinkFilenames\<close> is only ever read, so the duplicate check never fires
  (\<open>NewEventer_never_reports_duplicate\<close>): with a validation that accepts it, a
  configuration with the same path and file name twice is built into an Eventer with two
  file sinks on that target.
\<close>

theorem NewEventer_accepts_same_file_twice:
  "(case NewEventer testEnv (Some []) (Some ()) sameFileTwice getDefaultOptions of
      Inl err \<Rightarrow> False
    | Inr e \<Rightarrow> map snd (nodeRegistrations (broker e)) =
        [JSONFormatter, FileSinkNode ''json'' ''/var/log'' ''events.log'' 0 0 0,
         FileSinkNode ''json'' ''/var/log'' ''events.log'' 0 0 0])"
  by code_simp

section \<open>The node lists of the pipelines\<close>

text \<open>
  C7, as the code has it. In eventer.go, with a broker that refuses a node id it knows, a
  successful construction registers, in this order, one pipeline per sink subscribed to
  audit events, one per sink subscribed to observations, one per sink subscribed to
  error events and one per sink subscribed to system events; every audit or observation
  pipeline is gate, formatter, sink with the gate registered just before it, and every
  error or system pipeline is formatter, sink. In the earlier revision a successful
  construction registers no gated filter at all, and one pipeline for each of the audit,
  info and error types, made of the formatter followed by all the sinks subscribed to
  the type.
\<close>

theorem pipelines_as_wired:
  "(refusesKnownIds env \<and> NewEventer env log lock c opts = Inr e \<longrightarrow>
      map EventType (pipelinesOf (callsSince opts (broker e))) =
           replicate (length (filter (subscribes AuditType) (Sinks (conf e)))) AuditType
           @ replicate (length (filter (subscribes ObservationType) (Sinks (conf e)))) ObservationType
           @ replicate (length (filter (subscribes ErrorType) (Sinks (conf e)))) ErrorType
           @ replicate (length (filter (subscribes SystemType) (Sinks (conf e)))) SystemType
      \<and> (\<forall>P \<in> set (pipelinesOf (callsSince opts (broker e))).
            (EventType P = AuditType \<or> EventType P = ObservationType \<longrightarrow>
               gateFormatterSink (callsSince opts (broker e)) P)
          \<and> (EventType P = ErrorType \<or> EventType P = SystemType \<longrightarrow>
               formatterSink (callsSince opts (broker e)) P)))
   \<and> (NewEventer0 env0 log0 c0 = Inr e0 \<longrightarrow>
        GatedFilter \<notin> snd ` set (nodeRegistrations (broker0 e0))
        \<and> (\<exists>j ids. length ids = length (Sinks0 (conf0 e0))
              \<and> nodeRegistrations (broker0 e0)
                  = (j, JSONFormatter) # map (\<lambda>(i, s). (i, fileSinkOf s)) (zip ids (Sinks0 (conf0 e0)))
              \<and> map (\<lambda>P. (EventType P, NodeIDs P)) (pipelinesOf (broker0 e0)) =
                  [(AuditType, j # sinkIdsFor AuditType (zip ids (Sinks0 (conf0 e0)))),
                   (InfoType, j # sinkIdsFor InfoType (zip ids (Sinks0 (conf0 e0)))),
                   (ErrorType, j # sinkIdsFor ErrorType (zip ids (Sinks0 (conf0 e0))))]))"
proof (intro conjI impI)
  assume h: "refusesKnownIds env \<and> NewEventer env log lock c opts = Inr e"
  then have h1: "refusesKnownIds env" and h2: "NewEventer env log lock c opts = Inr e" by simp_all
  from NewEventer_wiring(1) [OF h1 h2]
  show "map EventType (pipelinesOf (callsSince opts (broker e))) =
           replicate (length (filter (subscribes AuditType) (Sinks (conf e)))) AuditType
           @ replicate (length (filter (subscribes ObservationType) (Sinks (conf e)))) ObservationType
           @ replicate (length (filter (subscribes ErrorType) (Sinks (conf e)))) ErrorType
           @ replicate (length (filter (subscribes SystemType) (Sinks (conf e)))) SystemType" .
  from NewEventer_wiring(2) [OF h1 h2] NewEventer_wiring(3) [OF h1 h2]
  show "\<forall>P \<in> set (pipelinesOf (callsSince opts (broker e))).
            (EventType P = AuditType \<or> EventType P = ObservationType \<longrightarrow>
               gateFormatterSink (callsSince opts (broker e)) P)
          \<and> (EventType P = ErrorType \<or> EventType P = SystemType \<longrightarrow>
               formatterSink (callsSince opts (broker e)) P)"
    unfolding gateFormatterSink_def formatterSink_def by blast
next
  assume "NewEventer0 env0 log0 c0 = Inr e0"
  from NewEventer0_wiring [OF this]
  show "GatedFilter \<notin> snd ` set (nodeRegistrations (broker0 e0))"
    and "\<exists>j ids. length ids = length (Sinks0 (conf0 e0))
              \<and> nodeRegistrations (broker0 e0)
                  = (j, JSONFormatter) # map (\<lambda>(i, s). (i, fileSinkOf s)) (zip ids (Sinks0 (conf0 e0)))
              \<and> map (\<lambda>P. (EventType P, NodeIDs P)) (pipelinesOf (broker0 e0)) =
                  [(AuditType, j # sinkIdsFor AuditType (zip ids (Sinks0 (conf0 e0)))),
                   (InfoType, j # sinkIdsFor InfoType (zip ids (Sinks0 (conf0 e0)))),
                   (ErrorType, j # sinkIdsFor ErrorType (zip ids (Sinks0 (conf0 e0))))]"
    by simp_all
qed

theorem pipelines_as_wired_witness:
  "refusesKnownIds testEnv
   \<and> NewEventer testEnv (Some []) (Some ()) noSinks getDefaultOptions = Inr builtFromNoSinks
   \<and> NewEventer0 testEnv (Some []) noSinks0 = Inr builtFromNoSinks0
   \<and> map EventType (pipelinesOf (callsSince getDefaultOptions (broker builtFromNoSinks)))
       = [AuditType, ObservationType, ErrorType, SystemType]
   \<and> gateFormatterSink (callsSince getDefaultOptions (broker builtFromNoSinks))
        \<lparr>EventType = AuditType, PipelineID = ''audit-pipelineiiii'',
          NodeIDs = [''gated-auditiii'', ''jsoni'', ''stderrii'']\<rparr>
   \<and> gateFormatterSink (callsSince getDefaultOptions (broker builtFromNoSinks))
        \<lparr>EventType = ObservationType, PipelineID = ''observation-pipelineiiiiii'',
          NodeIDs = [''gated-observationiiiii'', ''jsoni'', ''stderrii'']\<rparr>
   \<and> formatterSink (callsSince getDefaultOptions (broker builtFromNoSinks))
        \<lparr>EventType = ErrorType, PipelineID = ''err-pipelineiiiiiii'',
          NodeIDs = [''jsoni'', ''stderrii'']\<rparr>
   \<and> formatterSink (callsSince getDefaultOptions (broker builtFromNoSinks))
        \<lparr>EventType = SystemType, PipelineID = ''sys-pipelineiiiiiiii'',
          NodeIDs = [''jsoni'', ''stderrii'']\<rparr>
   \<and> GatedFilter \<notin> snd ` set (nodeRegistrations (broker0 builtFromNoSinks0))"
proof -
  let ?new = "callsSince getDefaultOptions (broker builtFromNoSinks)"
  have r: "NewEventer testEnv (Some []) (Some ()) noSinks getDefaultOptions = Inr builtFromNoSinks"
    by code_simp
  have r0: "NewEventer0 testEnv (Some []) noSinks0 = Inr builtFromNoSinks0" by code_simp
  have k: "refusesKnownIds testEnv"
    by (simp add: refusesKnownIds_def testEnv_def strictRespond_def)
  have n: "replicate (length (filter (subscribes AuditType) (Sinks (conf builtFromNoSinks)))) AuditType
           @ replicate (length (filter (subscribes ObservationType) (Sinks (conf builtFromNoSinks)))) ObservationType
           @ replicate (length (filter (subscribes ErrorType) (Sinks (conf builtFromNoSinks)))) ErrorType
           @ replicate (length (filter (subscribes SystemType) (Sinks (conf builtFromNoSinks)))) SystemType
         = [AuditType, ObservationType, ErrorType, SystemType]"
    by (simp add: builtFromNoSinks_def noSinks_def)
  have p: "pipelinesOf ?new =
      [\<lparr>EventType = AuditType, PipelineID = ''audit-pipelineiiii'',
          NodeIDs = [''gated-auditiii'', ''jsoni'', ''stderrii'']\<rparr>,
       \<lparr>EventType = ObservationType, PipelineID = ''observation-pipelineiiiiii'',
          NodeIDs = [''gated-observationiiiii'', ''jsoni'', ''stderrii'']\<rparr>,
       \<lparr>EventType = ErrorType, PipelineID = ''err-pipelineiiiiiii'',
          NodeIDs = [''jsoni'', ''stderrii'']\<rparr>,
       \<lparr>EventType = SystemType, PipelineID = ''sys-pipelineiiiiiiii'',
          NodeIDs = [''jsoni'', ''stderrii'']\<rparr>]"
    by code_simp
  from pipelines_as_wired [of testEnv "Some []" "Some ()" noSinks getDefaultOptions
         builtFromNoSinks testEnv "Some []" noSinks0 builtFromNoSinks0] k r r0
  have t: "map EventType (pipelinesOf ?new) = [AuditType, ObservationType, ErrorType, SystemType]"
    and w: "\<forall>P \<in> set (pipelinesOf ?new).
            (EventType P = AuditType \<or> EventType P = ObservationType \<longrightarrow> gateFormatterSink ?new P)
          \<and> (EventType P = ErrorType \<or> EventType P = SystemType \<longrightarrow> formatterSink ?new P)"
    and g: "GatedFilter \<notin> snd ` set (nodeRegistrations (broker0 builtFromNoSinks0))"
    unfolding n by blast+
  from w have "gateFormatterSink ?new
        \<lparr>EventType = AuditType, PipelineID = ''audit-pipelineiiii'',
          NodeIDs = [''gated-auditiii'', ''jsoni'', ''stderrii'']\<rparr>"
    and "gateFormatterSink ?new
        \<lparr>EventType = ObservationType, PipelineID = ''observation-pipelineiiiiii'',
          NodeIDs = [''gated-observationiiiii'', ''jsoni'', ''stderrii'']\<rparr>"
    and "formatterSink ?new
        \<lparr>EventType = ErrorType, PipelineID = ''err-pipelineiiiiiii'',
          NodeIDs = [''jsoni'', ''stderrii'']\<rparr>"
    and "formatterSink ?new
        \<lparr>EventType = SystemType, PipelineID = ''sys-pipelineiiiiiiii'',
          NodeIDs = [''jsoni'', ''stderrii'']\<rparr>"
    unfolding p by simp_all
  with k r r0 t g show ?thesis by blast
qed

text \<open>
  The claim as written fails in the earlier revision: the audit pipeline built from a
  configuration without sinks is the formatter followed by a file sink.
\<close>

theorem NewEventer0_pipelines_have_no_gate:
  "NewEventer0 testEnv (Some []) noSinks0 = Inr builtFromNoSinks0
   \<and> pipelinesOf (broker0 builtFromNoSinks0) =
       [\<lparr>EventType = AuditType, PipelineID = ''audit-pipeline'',
          NodeIDs = [''jsoni'', ''file_./_foo.txt_ii'']\<rparr>,
        \<lparr>EventType = InfoType, PipelineID = ''info-pipeline'',
          NodeIDs = [''jsoni'', ''file_./_foo.txt_ii'']\<rparr>,
        \<lparr>EventType = ErrorType, PipelineID = ''err-pipeline'',
          NodeIDs = [''jsoni'', ''file_./_foo.txt_ii'']\<rparr>]
   \<and> registeredNode (broker0 builtFromNoSinks0) ''jsoni'' = Some JSONFormatter
   \<and> registeredNode (broker0 builtFromNoSinks0) ''file_./_foo.txt_ii''
       = Some (FileSinkNode ''json'' ''./'' ''foo.txt'' 0 0 0)"
  by code_simp

section \<open>The default sink\<close>

text \<open>
  C8, as the code has it. For a configuration without sinks, \<open>NewEventer\<close> of eventer.go
  does what it does for the single sink \<open>DefaultSink\<close>, which subscribes to every type and
  is a stderr sink: it succeeds when the collaborators accept, and when it succeeds the
  only sink node registered writes to the serialized stderr and the four pipelines end
  in it. The earlier revision does what it does for the single sink \<open>defaultSink0\<close>,
  which subscribes to every type and is the file sink \<^verbatim>\<open>./foo.txt\<close>.
\<close>

theorem default_sink_when_none:
  "(Sinks c = [] \<longrightarrow>
      NewEventer env log lock c opts = NewEventer env log lock (c\<lparr>Sinks := [DefaultSink]\<rparr>) opts
      \<and> EventTypes DefaultSink = [EveryType] \<and> SinkType DefaultSink = StderrSink
      \<and> (log \<noteq> None \<and> lock \<noteq> None \<and> accepting env (c\<lparr>Sinks := [DefaultSink]\<rparr>) \<longrightarrow>
           (\<exists>e. NewEventer env log lock c opts = Inr e))
      \<and> (\<forall>e. NewEventer env log lock c opts = Inr e \<longrightarrow>
            Sinks (conf e) = [DefaultSink]
            \<and> (\<exists>j i ga go. nodeRegistrations (callsSince opts (broker e)) =
                   [(j, JSONFormatter), (i, WriterSink JSONSinkFormat SerializedStderr),
                    (ga, GatedFilter), (go, GatedFilter)]
                 \<and> map (\<lambda>P. (EventType P, NodeIDs P)) (pipelinesOf (callsSince opts (broker e))) =
                   [(AuditType, [ga, j, i]), (ObservationType, [go, j, i]),
                    (ErrorType, [j, i]), (SystemType, [j, i])])))
   \<and> (Sinks0 c0 = [] \<longrightarrow>
        NewEventer0 env0 log0 c0 = NewEventer0 env0 log0 (c0\<lparr>Sinks0 := [defaultSink0]\<rparr>)
        \<and> EventTypes defaultSink0 = [EveryType]
        \<and> (\<forall>e0. NewEventer0 env0 log0 c0 = Inr e0 \<longrightarrow>
              Sinks0 (conf0 e0) = [defaultSink0]
              \<and> (\<exists>j i. nodeRegistrations (broker0 e0) =
                     [(j, JSONFormatter), (i, FileSinkNode JSONSinkFormat ''./'' ''foo.txt'' 0 0 0)]
                   \<and> map (\<lambda>P. (EventType P, NodeIDs P)) (pipelinesOf (broker0 e0)) =
                     [(AuditType, [j, i]), (InfoType, [j, i]), (ErrorType, [j, i])])))"
proof (intro conjI impI allI)
  assume "Sinks c = []"
  then show "NewEventer env log lock c opts = NewEventer env log lock (c\<lparr>Sinks := [DefaultSink]\<rparr>) opts"
    by (rule NewEventer_default)
next
  show "EventTypes DefaultSink = [EveryType]" "SinkType DefaultSink = StderrSink"
    by (simp_all add: DefaultSink_def)
next
  assume "Sinks c = []" and "log \<noteq> None \<and> lock \<noteq> None \<and> accepting env (c\<lparr>Sinks := [DefaultSink]\<rparr>)"
  then show "\<exists>e. NewEventer env log lock c opts = Inr e"
    by (intro NewEventer_default_succeeds) simp_all
next
  fix e assume s: "Sinks c = []" and r: "NewEventer env log lock c opts = Inr e"
  from NewEventer_default_calls [OF s r]
  show "Sinks (conf e) = [DefaultSink]"
    and "\<exists>j i ga go. nodeRegistrations (callsSince opts (broker e)) =
                   [(j, JSONFormatter), (i, WriterSink JSONSinkFormat SerializedStderr),
                    (ga, GatedFilter), (go, GatedFilter)]
                 \<and> map (\<lambda>P. (EventType P, NodeIDs P)) (pipelinesOf (callsSince opts (broker e))) =
                   [(AuditType, [ga, j, i]), (ObservationType, [go, j, i]),
                    (ErrorType, [j, i]), (SystemType, [j, i])]"
    by simp_all
next
  assume "Sinks0 c0 = []"
  then show "NewEventer0 env0 log0 c0 = NewEventer0 env0 log0 (c0\<lparr>Sinks0 := [defaultSink0]\<rparr>)"
    by (rule NewEventer0_default)
next
  show "EventTypes defaultSink0 = [EveryType]" by (simp add: defaultSink0_def)
next
  fix e0 assume s: "Sinks0 c0 = []" and r: "NewEventer0 env0 log0 c0 = Inr e0"
  from NewEventer0_default_calls [OF s r]
  show "Sinks0 (conf0 e0) = [defaultSink0]"
    and "\<exists>j i. nodeRegistrations (broker0 e0) =
                     [(j, JSONFormatter), (i, FileSinkNode JSONSinkFormat ''./'' ''foo.txt'' 0 0 0)]
                   \<and> map (\<lambda>P. (EventType P, NodeIDs P)) (pipelinesOf (broker0 e0)) =
                     [(AuditType, [j, i]), (InfoType, [j, i]), (ErrorType, [j, i])]"
    by simp_all
qed

theorem default_sink_when_none_witness:
  "Sinks noSinks = [] \<and> Sinks0 noSinks0 = []
   \<and> accepting willingEnv (noSinks\<lparr>Sinks := [DefaultSink]\<rparr>)
   \<and> NewEventer testEnv (Some []) (Some ()) noSinks getDefaultOptions = Inr builtFromNoSinks
   \<and> NewEventer0 testEnv (Some []) noSinks0 = Inr builtFromNoSinks0
   \<and> (\<exists>e. NewEventer willingEnv (Some []) (Some ()) noSinks getDefaultOptions = Inr e)
   \<and> Sinks (conf builtFromNoSinks) = [DefaultSink]
   \<and> (\<exists>j i ga go. nodeRegistrations (callsSince getDefaultOptions (broker builtFromNoSinks)) =
          [(j, JSONFormatter), (i, WriterSink JSONSinkFormat SerializedStderr),
           (ga, GatedFilter), (go, GatedFilter)]
        \<and> map (\<lambda>P. (EventType P, NodeIDs P))
            (pipelinesOf (callsSince getDefaultOptions (broker builtFromNoSinks))) =
          [(AuditType, [ga, j, i]), (ObservationType, [go, j, i]),
           (ErrorType, [j, i]), (SystemType, [j, i])])
   \<and> Sinks0 (conf0 builtFromNoSinks0) = [defaultSink0]
   \<and> (\<exists>j i. nodeRegistrations (broker0 builtFromNoSinks0) =
          [(j, JSONFormatter), (i, FileSinkNode JSONSinkFormat ''./'' ''foo.txt'' 0 0 0)]
        \<and> map (\<lambda>P. (EventType P, NodeIDs P)) (pipelinesOf (broker0 builtFromNoSinks0)) =
          [(AuditType, [j, i]), (InfoType, [j, i]), (ErrorType, [j, i])])"
proof -
  have s: "Sinks noSinks = []" "Sinks0 noSinks0 = []"
    by (simp_all add: noSinks_def noSinks0_def)
  have a: "accepting willingEnv (noSinks\<lparr>Sinks := [DefaultSink]\<rparr>)"
    by (simp add: accepting_def willingEnv_def testEnv_def idOf_def)
  have r: "NewEventer testEnv (Some []) (Some ()) noSinks getDefaultOptions = Inr builtFromNoSinks"
    by code_simp
  have r0: "NewEventer0 testEnv (Some []) noSinks0 = Inr builtFromNoSinks0" by code_simp
  from default_sink_when_none [of noSinks testEnv "Some []" "Some ()" getDefaultOptions
         noSinks0 testEnv "Some []"] s r r0
  have t: "Sinks (conf builtFromNoSinks) = [DefaultSink]
   \<and> (\<exists>j i ga go. nodeRegistrations (callsSince getDefaultOptions (broker builtFromNoSinks)) =
          [(j, JSONFormatter), (i, WriterSink JSONSinkFormat SerializedStderr),
           (ga, GatedFilter), (go, GatedFilter)]
        \<and> map (\<lambda>P. (EventType P, NodeIDs P))
            (pipelinesOf (callsSince getDefaultOptions (broker builtFromNoSinks))) =
          [(AuditType, [ga, j, i]), (ObservationType, [go, j, i]),
           (ErrorType, [j, i]), (SystemType, [j, i])])
   \<and> Sinks0 (conf0 builtFromNoSinks0) = [defaultSink0]
   \<and> (\<exists>j i. nodeRegistrations (broker0 builtFromNoSinks0) =
          [(j, JSONFormatter), (i, FileSinkNode JSONSinkFormat ''./'' ''foo.txt'' 0 0 0)]
        \<and> map (\<lambda>P. (EventType P, NodeIDs P)) (pipelinesOf (broker0 builtFromNoSinks0)) =
          [(AuditType, [j, i]), (InfoType, [j, i]), (ErrorType, [j, i])])"
    by blast
  from default_sink_when_none [of noSinks willingEnv "Some []" "Some ()" getDefaultOptions
         noSinks0 testEnv "Some []"] s a
  have "\<exists>e. NewEventer willingEnv (Some []) (Some ()) noSinks getDefaultOptions = Inr e"
    by blast
  with s a r r0 t show ?thesis by blast
qed

text \<open>
  The claim as written fails in the earlier revision: the sink installed for a
  configuration without sinks is a file sink, not the console.
\<close>

theorem NewEventer0_default_sink_is_a_file:
  "NewEventer0 testEnv (Some []) noSinks0 = Inr builtFromNoSinks0
   \<and> Sinks0 noSinks0 = []
   \<and> nodeRegistrations (broker0 builtFromNoSinks0) =
       [(''jsoni'', JSONFormatter),
        (''file_./_foo.txt_ii'', FileSinkNode ''json'' ''./'' ''foo.txt'' 0 0 0)]"
  by code_simp

end
